(* ===== verification/Snek_Prelude.thy ===== *)
theory Snek_Prelude
  imports Main "HOL-Library.Word" "HOL-Library.Stream"
begin

text \<open>
  Shared vocabulary of the development: the machine integer types of the
  Rust source, the panics the program can raise, the three-valued outcome of
  an operation (returns, panics, never returns), the handful of standard
  library operations the source calls (\<^verbatim>\<open>slice::last\<close>, \<^verbatim>\<open>Option::unwrap\<close>,
  \<^verbatim>\<open>Result::expect\<close>, \<^verbatim>\<open>to_string\<close>), and
  the arithmetic and list facts every component theory relies on.

  The source's \<^verbatim>\<open>i32\<close> and \<^verbatim>\<open>u32\<close> are both \<open>32 word\<close>: the cast
  \<^verbatim>\<open>width as i32\<close> keeps the bits, so it is the identity here, and signedness
  lives in the operations (\<open><s\<close>, \<open>sint\<close> for \<^verbatim>\<open>i32\<close>; \<open>uint\<close> for \<^verbatim>\<open>u32\<close>).
  Arithmetic wraps, as in a build without overflow checks; the bounds lemmas
  of the component theories state when no wrap-around happens, which is also
  when a build with overflow checks does not panic.
\<close>

section \<open>Collections of facts\<close>

named_theorems snek_eval \<open>rewrite rules that evaluate closed terms of the model\<close>
named_theorems snek_defs \<open>defining equations of the operations of the model\<close>

declare word_sless_alt [snek_eval] word_sle_eq [snek_eval]

section \<open>Machine integers\<close>

type_synonym i32 = "32 word"
type_synonym u32 = "32 word"
type_synonym usize = "64 word"

section \<open>Panics and outcomes\<close>

datatype panic = UnwrapNone | EmptyRange | ExpectFailed | Overflow

type_synonym 'a result = "panic + 'a"
type_synonym 'a outcome = "(panic + 'a) option"

abbreviation returns :: "'a \<Rightarrow> 'a outcome" where
  "returns v \<equiv> Some (Inr v)"

abbreviation panics :: "panic \<Rightarrow> 'a outcome" where
  "panics e \<equiv> Some (Inl e)"

abbreviation diverges :: "'a outcome" where
  "diverges \<equiv> None"

definition and_then :: "'a result \<Rightarrow> ('a \<Rightarrow> 'b result) \<Rightarrow> 'b result" where
  "and_then r f = (case r of Inl e \<Rightarrow> Inl e | Inr v \<Rightarrow> f v)"

definition run_then :: "'a outcome \<Rightarrow> ('a \<Rightarrow> 'b outcome) \<Rightarrow> 'b outcome" where
  "run_then m f = (case m of None \<Rightarrow> diverges | Some (Inl e) \<Rightarrow> panics e | Some (Inr v) \<Rightarrow> f v)"

definition slice_last :: "'a list \<Rightarrow> 'a option" where
  "slice_last xs = (if xs = [] then None else Some (last xs))"

definition unwrap :: "'a option \<Rightarrow> 'a result" where
  "unwrap v = (case v of None \<Rightarrow> Inl UnwrapNone | Some a \<Rightarrow> Inr a)"

definition expect :: "'a option \<Rightarrow> 'a result" where
  "expect v = (case v of None \<Rightarrow> Inl ExpectFailed | Some a \<Rightarrow> Inr a)"

text \<open>
  \<^verbatim>\<open>to_string\<close> on an unsigned integer: its decimal digits, most significant
  first.
\<close>

fun to_string :: "nat \<Rightarrow> string" where
  "to_string n =
     (if n < 10 then [char_of (48 + n)]
      else to_string (n div 10) @ [char_of (48 + n mod 10)])"

declare to_string.simps [simp del]

section \<open>Facts about outcomes\<close>

lemma outcome_cases [case_names diverges panics returns]:
  fixes m :: "'a outcome"
  obtains "m = diverges" | e where "m = panics e" | v where "m = returns v"
proof (cases m)
  case None
  then show ?thesis by (rule that(1))
next
  case (Some r)
  with that(2,3) show ?thesis by (cases r) auto
qed

lemma and_then_simps [simp]:
  "and_then (Inl e) f = Inl e"
  "and_then (Inr v) f = f v"
  by (simp_all add: and_then_def)

lemma and_then_eq_Inr_iff:
  "and_then r f = Inr b \<longleftrightarrow> (\<exists>a. r = Inr a \<and> f a = Inr b)"
  by (cases r) simp_all

lemma and_then_eq_Inl_iff:
  "and_then r f = Inl e \<longleftrightarrow> r = Inl e \<or> (\<exists>a. r = Inr a \<and> f a = Inl e)"
  by (cases r) simp_all

lemma run_then_simps [simp]:
  "run_then diverges f = diverges"
  "run_then (panics e) f = panics e"
  "run_then (returns v) f = f v"
  by (simp_all add: run_then_def)

lemma run_then_assoc:
  "run_then (run_then m f) k = run_then m (\<lambda>x. run_then (f x) k)"
  by (simp add: run_then_def split: option.splits sum.splits)

lemma run_then_cong_returns:
  assumes "\<And>v. m = returns v \<Longrightarrow> f v = k v"
  shows "run_then m f = run_then m k"
  using assms by (simp add: run_then_def split: option.splits sum.splits)

lemma run_then_eq_returns_iff:
  "run_then m f = returns b \<longleftrightarrow> (\<exists>a. m = returns a \<and> f a = returns b)"
  by (auto simp: run_then_def split: option.splits sum.splits)

lemma run_then_eq_panics_iff:
  "run_then m f = panics e \<longleftrightarrow> m = panics e \<or> (\<exists>a. m = returns a \<and> f a = panics e)"
  by (auto simp: run_then_def split: option.splits sum.splits)

lemma run_then_eq_diverges_iff:
  "run_then m f = diverges \<longleftrightarrow> m = diverges \<or> (\<exists>a. m = returns a \<and> f a = diverges)"
  by (auto simp: run_then_def split: option.splits sum.splits)

lemma slice_last_simps [simp]:
  "slice_last [] = None"
  "xs \<noteq> [] \<Longrightarrow> slice_last xs = Some (last xs)"
  "slice_last (xs @ [a]) = Some a"
  "slice_last (a # xs) = Some (last (a # xs))"
  by (simp_all add: slice_last_def)

lemma slice_last_eq_None_iff [simp]: "slice_last xs = None \<longleftrightarrow> xs = []"
  by (simp add: slice_last_def)

lemma slice_last_eq_Some_iff: "slice_last xs = Some a \<longleftrightarrow> xs \<noteq> [] \<and> last xs = a"
  by (auto simp: slice_last_def)

lemma unwrap_simps [simp]:
  "unwrap None = Inl UnwrapNone"
  "unwrap (Some a) = Inr a"
  by (simp_all add: unwrap_def)

lemma expect_simps [simp]:
  "expect None = Inl ExpectFailed"
  "expect (Some a) = Inr a"
  by (simp_all add: expect_def)

lemma to_string_digit [simp]: "n < 10 \<Longrightarrow> to_string n = [char_of (48 + n)]"
  by (subst to_string.simps) simp

lemmas to_string_eval = char_of_def bit_Suc_0_iff

lemma to_string_nonempty [simp]: "to_string n \<noteq> []"
  by (subst to_string.simps) simp

lemma length_to_string_pos [simp]: "0 < length (to_string n)"
  by simp

lemma unwrap_slice_last [simp]:
  "unwrap (slice_last xs) = (if xs = [] then Inl UnwrapNone else Inr (last xs))"
  by (simp add: slice_last_def)

section \<open>Facts about lists\<close>

text \<open>
  The body of the snake is a vector whose last element is the head. The source
  reads all elements but the head as the slice \<^verbatim>\<open>body[0..len - 1]\<close>, which is
  \<open>butlast\<close>, and drops the oldest element with \<^verbatim>\<open>remove(0)\<close>, which is \<open>tl\<close>.
\<close>

lemma take_length_minus_one [simp]: "take (length xs - Suc 0) xs = butlast xs"
  by (simp add: butlast_conv_take)

lemma butlast_tl_snoc [simp]: "xs \<noteq> [] \<Longrightarrow> butlast (tl (xs @ [a])) = tl xs"
  by (cases xs) simp_all

lemma last_tl_snoc [simp]: "last (tl (xs @ [a])) = (if xs = [] then last [] else a)"
  by (cases xs) simp_all

lemma tl_snoc_nonempty [simp]: "xs \<noteq> [] \<Longrightarrow> tl (xs @ [a]) = tl xs @ [a]"
  by (cases xs) simp_all

lemma length_tl_snoc [simp]: "length (tl (xs @ [a])) = length xs"
  by simp

lemma set_tl_subset: "set (tl xs) \<subseteq> set xs"
  by (cases xs) auto

lemma set_butlast_last: "xs \<noteq> [] \<Longrightarrow> set xs = insert (last xs) (set (butlast xs))"
  by (induction xs rule: rev_induct) auto

lemma distinct_butlast_last:
  "xs \<noteq> [] \<Longrightarrow> distinct xs \<longleftrightarrow> distinct (butlast xs) \<and> last xs \<notin> set (butlast xs)"
  by (induction xs rule: rev_induct) auto

section \<open>Facts about streams\<close>

lemma funpow_ident [simp]: "((\<lambda>a. a) ^^ n) x = x"
  by (induction n) simp_all

lemma stake_sconst: "stake n (sconst x) = replicate n x"
  by (simp add: map_replicate_const)

lemma sdrop_2 [simp]: "sdrop 2 s = stl (stl s)"
  by (simp add: numeral_2_eq_2)

lemma snth_numeral [simp]: "s !! numeral k = stl s !! pred_numeral k"
  by (simp add: numeral_eq_Suc)

lemma sdrop_double_Suc: "sdrop (2 * Suc n) s = sdrop (2 * n) (stl (stl s))"
  by simp

section \<open>Facts about signed 32-bit words\<close>

lemma int_less_uint:
  assumes "i < unat w"
  shows "int i < uint w"
proof -
  from assms have "int i < int (unat w)"
    by (simp only: of_nat_less_iff)
  then show ?thesis
    by simp
qed

lemma word_of_nat_pred: "0 < n \<Longrightarrow> (word_of_nat (n - 1) :: 'a::len word) = word_of_nat n - 1"
  by (cases n) simp_all

lemma unat_less_pow32:
  fixes w :: "32 word"
  shows "unat w < 2 ^ 32"
  using unsigned_less [of w, where ?'a = nat] by simp

lemma word_of_nat_inj_32:
  assumes "a < 2 ^ 32" and "b < 2 ^ 32" and "(word_of_nat a :: 32 word) = word_of_nat b"
  shows "a = b"
proof -
  from assms(3) have "unat (word_of_nat a :: 32 word) = unat (word_of_nat b :: 32 word)"
    by simp
  with assms(1,2) show ?thesis
    by (simp add: unat_of_nat)
qed

lemma sint_eq_uint_32:
  fixes w :: "32 word"
  assumes "uint w < 2 ^ 31"
  shows "sint w = uint w"
proof -
  have "- (2 ^ 31) \<le> uint w"
    by (rule order_trans [of _ 0]) simp_all
  then have "signed_take_bit 31 (uint w) = uint w"
    using assms by (rule signed_take_bit_int_eq_self)
  then show ?thesis
    by (simp add: sint_uint)
qed

lemma sint_add_no_wrap_32:
  fixes a b :: "32 word"
  assumes "- (2 ^ 31) \<le> sint a + sint b" and "sint a + sint b < 2 ^ 31"
  shows "sint (a + b) = sint a + sint b"
  using assms by (simp add: sint_word_ariths signed_take_bit_int_eq_self)

lemma sint_sub_no_wrap_32:
  fixes a b :: "32 word"
  assumes "- (2 ^ 31) \<le> sint a - sint b" and "sint a - sint b < 2 ^ 31"
  shows "sint (a - b) = sint a - sint b"
  using assms by (simp add: sint_word_ariths signed_take_bit_int_eq_self)

lemma sint_pred_u32:
  fixes w :: "32 word"
  assumes "uint w < 2 ^ 31"
  shows "sint (w - 1) = uint w - 1"
proof -
  have w: "sint w = uint w"
    using assms by (rule sint_eq_uint_32)
  have "- (2 ^ 31) \<le> uint w - 1"
    by (rule order_trans [of _ "- 1"]) (simp_all add: algebra_simps)
  with assms w have "sint (w - 1) = sint w - sint (1 :: 32 word)"
    by (intro sint_sub_no_wrap_32) simp_all
  with w show ?thesis
    by simp
qed

lemma grid_upper_bound_32:
  fixes w x :: "32 word"
  assumes "uint w < 2 ^ 31"
  shows "w - 1 <s x \<longleftrightarrow> uint w \<le> sint x"
  using sint_pred_u32 [OF assms] by (auto simp: word_sless_alt)

lemma grid_lower_bound_32:
  fixes x :: "32 word"
  shows "x <s 0 \<longleftrightarrow> sint x < 0"
  by (simp add: word_sless_alt)

lemma sint_range_32:
  fixes x :: "32 word"
  shows "- (2 ^ 31) \<le> sint x" and "sint x < 2 ^ 31"
  using sint_ge [of x] sint_lt [of x] by simp_all

lemma sint_of_nat_32:
  assumes "k < 2 ^ 31"
  shows "sint (word_of_nat k :: 32 word) = int k"
proof -
  have "int k < 2 ^ 31"
    using assms by (metis of_nat_less_iff of_nat_numeral of_nat_power)
  moreover have "- (2 ^ 31) \<le> int k"
    by (rule order_trans [of _ 0]) simp_all
  ultimately have "signed_take_bit 31 (int k) = int k"
    by (intro signed_take_bit_int_eq_self)
  then show ?thesis
    by (simp add: signed_of_nat)
qed

lemma sint_nonneg_iff_32:
  fixes w :: "32 word"
  shows "0 \<le> sint w \<longleftrightarrow> uint w < 2 ^ 31"
proof
  assume "uint w < 2 ^ 31"
  then show "0 \<le> sint w"
    by (simp add: sint_eq_uint_32)
next
  assume nonneg: "0 \<le> sint w"
  show "uint w < 2 ^ 31"
  proof (rule ccontr)
    assume "\<not> uint w < 2 ^ 31"
    then have "signed_take_bit 31 (uint w) \<le> uint w - 4294967296"
      using signed_take_bit_int_less_eq [of 31 "uint w"] by simp
    moreover have "uint w < 4294967296"
      using uint_lt2p [of w] by simp
    moreover have "sint w = signed_take_bit 31 (uint w)"
      by (simp add: sint_uint)
    ultimately show False
      using nonneg by linarith
  qed
qed

lemma unat_less_pow31_iff:
  fixes w :: "32 word"
  shows "unat w < 2 ^ 31 \<longleftrightarrow> uint w < 2 ^ 31"
  by (metis (mono_tags, lifting) of_nat_less_numeral_power_cancel_iff of_nat_unat)

text \<open>
  A positive \<^verbatim>\<open>i32\<close> read as \<^verbatim>\<open>u32\<close> has the same value: the case of a
  grid dimension that passes the range check of the random number generator.
\<close>

lemma sless_zero_32:
  fixes w :: "32 word"
  assumes "0 <s w"
  shows "0 < unat w" and "unat w < 2 ^ 31" and "uint w < 2 ^ 31"
proof -
  from assms have pos: "0 < sint w"
    by (simp add: word_sless_alt)
  then have "0 \<le> sint w"
    by simp
  then show u: "uint w < 2 ^ 31"
    by (simp only: sint_nonneg_iff_32)
  then show "unat w < 2 ^ 31"
    by (simp only: unat_less_pow31_iff)
  from u have "sint w = uint w"
    by (rule sint_eq_uint_32)
  with pos have "w \<noteq> 0"
    by auto
  then show "0 < unat w"
    by (simp add: unat_gt_0)
qed

lemma mod_unat_less_32:
  fixes w :: "32 word"
  assumes "0 <s w"
  shows "int (k mod unat w) < uint w" and "k mod unat w < 2 ^ 31"
proof -
  from sless_zero_32 [OF assms] have less: "k mod unat w < unat w" and "unat w < 2 ^ 31"
    by simp_all
  then show "k mod unat w < 2 ^ 31"
    by (rule order_less_trans)
  from less have "int (k mod unat w) < int (unat w)"
    by (simp only: of_nat_less_iff)
  then show "int (k mod unat w) < uint w"
    by simp
qed

text \<open>An integer of the \<^verbatim>\<open>i32\<close> range is the signed value of its word.\<close>

lemma sint_of_int_32:
  "- (2 ^ 31) \<le> x \<Longrightarrow> x < 2 ^ 31 \<Longrightarrow> sint (word_of_int x :: 32 word) = x"
  by (simp add: sint_sbintrunc' signed_take_bit_int_eq_self)

text \<open>
  Screen coordinates: a grid coordinate \<open>x\<close> is drawn in the columns \<open>2x + 2\<close> and
  \<open>2x + 3\<close> and a row \<open>y\<close> in the row \<open>y + 1\<close>; for coordinates below \<open>2\<^sup>3\<^sup>0 - 2\<close>
  none of these wraps, nor do the dimensions \<open>2w + 4\<close> and \<open>h + 2\<close> of the screen.
\<close>

lemma sint_cell_32:
  fixes x :: "32 word"
  assumes "- 1 \<le> sint x" and "sint x < 2 ^ 30 - 2"
  shows "sint (x * 2 + 2) = 2 * sint x + 2" and "sint (x * 2 + 3) = 2 * sint x + 3"
    and "sint (x + 1) = sint x + 1"
  using assms by (simp_all add: sint_word_ariths signed_take_bit_int_eq_self)

lemma sint_screen_32:
  fixes w :: "32 word"
  assumes "uint w < 2 ^ 30 - 2"
  shows "sint (w * 2 + 4) = 2 * uint w + 4" and "sint (w + 2) = uint w + 2"
    and "sint (w * 2 + 4 - 3) = 2 * uint w + 1" and "sint (w + 2 - 2) = uint w"
    and "sint (w + 2 - 1) = uint w + 1"
proof -
  from assms have w: "sint w = uint w"
    by (intro sint_eq_uint_32) simp
  then have "0 \<le> sint w"
    by simp
  with assms [folded w]
  have "sint (w * 2 + 4) = 2 * sint w + 4 \<and> sint (w + 2) = sint w + 2 \<and>
      sint (w * 2 + 4 - 3) = 2 * sint w + 1 \<and> sint (w + 2 - 2) = sint w \<and>
      sint (w + 2 - 1) = sint w + 1"
    by (simp add: sint_word_ariths signed_take_bit_int_eq_self)
  then show "sint (w * 2 + 4) = 2 * uint w + 4" and "sint (w + 2) = uint w + 2"
    and "sint (w * 2 + 4 - 3) = 2 * uint w + 1" and "sint (w + 2 - 2) = uint w"
    and "sint (w + 2 - 1) = uint w + 1"
    by (simp_all add: w)
qed

text \<open>
  The column at which a text of \<open>n\<close> characters is centred on a screen of
  \<open>2w + 4\<close> columns, as the \<^verbatim>\<open>u32\<close> expression \<^verbatim>\<open>width / 2 - n as u32 / 2\<close> cast to
  \<^verbatim>\<open>i32\<close>: the subtraction may wrap, the cast undoes it.
\<close>

lemma uint_screen_32:
  fixes w :: "32 word"
  assumes "uint w < 2 ^ 30 - 2"
  shows "uint (w * 2 + 4) = 2 * uint w + 4"
proof -
  have "0 \<le> uint w"
    by simp
  with assms have "(uint w * 2 + 4) mod 2 ^ 32 = uint w * 2 + 4"
    by (intro mod_pos_pos_trivial) simp_all
  moreover from assms \<open>0 \<le> uint w\<close> have "(uint w * 2) mod 2 ^ 32 = uint w * 2"
    by (intro mod_pos_pos_trivial) simp_all
  ultimately show ?thesis
    by (simp add: uint_word_ariths mod_add_left_eq)
qed

lemma uint_half_screen_32:
  fixes w :: "32 word"
  assumes "uint w < 2 ^ 30 - 2"
  shows "uint ((w * 2 + 4) div 2) = uint w + 2"
  by (simp add: uint_div uint_screen_32 [OF assms])

lemma uint_half_length_32:
  assumes "n < 2 ^ 32"
  shows "uint (word_of_nat n div 2 :: 32 word) = int (n div 2)"
proof -
  from assms have "n mod 2 ^ LENGTH(32) = n"
    by simp
  then have "uint (word_of_nat n :: 32 word) = int n"
    by (simp only: uint_nat unat_of_nat)
  then show ?thesis
    by (simp add: uint_div zdiv_int)
qed


lemma sint_centre_32:
  fixes w :: "32 word"
  assumes "uint w < 2 ^ 30 - 2" and "n < 2 ^ 31"
  shows "sint ((w * 2 + 4) div 2 - word_of_nat n div 2) = uint w + 2 - int (n div 2)"
proof -
  let ?a = "(w * 2 + 4) div 2" and ?b = "word_of_nat n div 2 :: 32 word"
  from assms(2) have b: "uint ?b = int (n div 2)"
    by (intro uint_half_length_32) simp
  note a = uint_half_screen_32 [OF assms(1)]
  from assms a b have small: "uint ?a < 2 ^ 31" "uint ?b < 2 ^ 31"
    by simp_all
  note s = sint_eq_uint_32 [OF small(1)] sint_eq_uint_32 [OF small(2)]
  from assms(2) have "n < 2147483648"
    by simp
  then have "int (n div 2) < 1073741824"
    by linarith
  moreover have "0 \<le> uint w" "0 \<le> int (n div 2)"
    by simp_all
  moreover from assms(1) have "uint w < 1073741822"
    by simp
  ultimately have "- 2147483648 \<le> uint w + 2 - int (n div 2)"
    "uint w + 2 - int (n div 2) < 2147483648"
    by linarith+
  then have "- (2 ^ 31) \<le> sint ?a - sint ?b" "sint ?a - sint ?b < 2 ^ 31"
    unfolding s a b by simp_all
  from sint_sub_no_wrap_32 [OF this] show ?thesis
    by (simp only: s a b)
qed

end
