(* ===== verification/Geometry.thy ===== *)
theory Geometry
  imports Snek_Prelude
begin

text \<open>
  The geometry primitives of \<^verbatim>\<open>src/main.rs\<close>: \<^verbatim>\<open>Point\<close> and \<^verbatim>\<open>Vector\<close> are the
  two-dimensional point and vector of \<^verbatim>\<open>i32\<close> coordinates, a point moved by
  a vector is the componentwise wrapping sum, and \<open>STARTING_BODY\<close> is the
  constant of the same name. \<open>in_grid\<close> is the specification's notion of a
  cell of the playing field, \<open>[0, width) \<times> [0, height)\<close>, read on the signed
  value of the coordinates and the unsigned value of the dimensions.
\<close>

section \<open>Points and vectors\<close>

datatype point = Point (px: i32) (py: i32)

datatype vector = Vector (vx: i32) (vy: i32)

definition point_add :: "point \<Rightarrow> vector \<Rightarrow> point" where
  "point_add p v = Point (px p + vx v) (py p + vy v)"

definition STARTING_BODY :: "point list" where
  "STARTING_BODY = [Point 0 0, Point 1 0, Point 2 0, Point 3 0]"

section \<open>The grid\<close>

definition in_grid :: "u32 \<Rightarrow> u32 \<Rightarrow> point \<Rightarrow> bool" where
  "in_grid width height p \<longleftrightarrow>
     0 \<le> sint (px p) \<and> sint (px p) < uint width \<and>
     0 \<le> sint (py p) \<and> sint (py p) < uint height"

definition in_frame :: "u32 \<Rightarrow> u32 \<Rightarrow> point \<Rightarrow> bool" where
  "in_frame w h p \<longleftrightarrow>
     - 1 \<le> sint (px p) \<and> sint (px p) \<le> uint w \<and> - 1 \<le> sint (py p) \<and> sint (py p) \<le> uint h"

definition coords :: "point \<Rightarrow> int \<times> int" where
  "coords p = (sint (px p), sint (py p))"

definition grid_cells :: "u32 \<Rightarrow> u32 \<Rightarrow> point list" where
  "grid_cells width height =
     map (\<lambda>(i, j). Point (word_of_nat i) (word_of_nat j))
       (List.product [0..<unat width] [0..<unat height])"

section \<open>Facts\<close>

lemma point_add_sel [simp]:
  "px (point_add p v) = px p + vx v"
  "py (point_add p v) = py p + vy v"
  by (simp_all add: point_add_def)

lemma point_add_Point [simp]:
  "point_add (Point a b) (Vector c d) = Point (a + c) (b + d)"
  by (simp add: point_add_def)

lemma point_add_zero [simp]: "point_add p (Vector 0 0) = p"
  by (cases p) simp

lemma point_add_inject [simp]: "point_add p v = point_add q v \<longleftrightarrow> p = q"
  by (cases p; cases q; cases v) simp

lemma point_add_eq_self_iff: "point_add p v = p \<longleftrightarrow> v = Vector 0 0"
  by (cases p; cases v) simp

lemma coords_inject: "coords p = coords q \<longleftrightarrow> p = q"
  by (cases p; cases q) (auto simp: coords_def dest: word_eq_iff_signed [THEN iffD2])

lemma in_grid_coords:
  "in_grid width height p \<longleftrightarrow>
     fst (coords p) \<in> {0..<uint width} \<and> snd (coords p) \<in> {0..<uint height}"
  by (auto simp: in_grid_def coords_def)

lemma in_grid_Point [snek_eval]:
  "in_grid width height (Point a b) \<longleftrightarrow>
     0 \<le> sint a \<and> sint a < uint width \<and> 0 \<le> sint b \<and> sint b < uint height"
  by (simp add: in_grid_def)

text \<open>
  The cells of a grid whose dimensions fit an \<^verbatim>\<open>i32\<close> are enumerated by
  \<open>grid_cells\<close>: the list has no repetition, its length is the area, and its
  elements are exactly the points of the grid.
\<close>

lemma length_grid_cells [simp]: "length (grid_cells width height) = unat width * unat height"
  by (simp add: grid_cells_def)

lemma word_of_nat_sint_32:
  fixes a :: "32 word"
  assumes "0 \<le> sint a"
  shows "word_of_nat (nat (sint a)) = a"
proof -
  from assms have "uint a < 2 ^ 31"
    by (simp only: sint_nonneg_iff_32)
  then have "sint a = uint a"
    by (rule sint_eq_uint_32)
  then show ?thesis
    by (simp add: word_of_int_uint)
qed

lemma in_grid_iff_grid_cells:
  assumes "uint width < 2 ^ 31" and "uint height < 2 ^ 31"
  shows "in_grid width height p \<longleftrightarrow> p \<in> set (grid_cells width height)"
proof
  assume grid: "in_grid width height p"
  let ?i = "nat (sint (px p))" and ?j = "nat (sint (py p))"
  from grid have "p = Point (word_of_nat ?i) (word_of_nat ?j)"
    by (cases p) (simp add: in_grid_def word_of_nat_sint_32)
  moreover from grid have "?i < unat width" and "?j < unat height"
    by (simp_all add: in_grid_def nat_less_iff)
  ultimately show "p \<in> set (grid_cells width height)"
    unfolding grid_cells_def by (auto intro!: image_eqI [where x = "(?i, ?j)"])
next
  assume "p \<in> set (grid_cells width height)"
  then obtain i j where p: "p = Point (word_of_nat i) (word_of_nat j)"
    and i: "i < unat width" and j: "j < unat height"
    by (auto simp: grid_cells_def)
  from assms have "unat width < 2 ^ 31" and "unat height < 2 ^ 31"
    by (simp_all only: unat_less_pow31_iff)
  with i j have "i < 2 ^ 31" and "j < 2 ^ 31"
    by simp_all
  then have "sint (word_of_nat i :: 32 word) = int i" and "sint (word_of_nat j :: 32 word) = int j"
    by (simp_all only: sint_of_nat_32)
  moreover from i j have "int i < uint width" and "int j < uint height"
    by (simp_all only: int_less_uint)
  ultimately show "in_grid width height p"
    by (simp add: p in_grid_def)
qed

lemma distinct_grid_cells: "distinct (grid_cells width height)"
proof -
  have "inj_on (\<lambda>(i, j). Point (word_of_nat i :: 32 word) (word_of_nat j :: 32 word))
      (set (List.product [0..<unat width] [0..<unat height]))"
  proof (rule inj_onI, clarsimp)
    fix a b c d
    assume "a < unat width" and "c < unat width" and "b < unat height" and "d < unat height"
      and eq: "(word_of_nat a :: 32 word) = word_of_nat c" "(word_of_nat b :: 32 word) = word_of_nat d"
    then have "a < 2 ^ 32" "b < 2 ^ 32" "c < 2 ^ 32" "d < 2 ^ 32"
      using unat_less_pow32 [of width] unat_less_pow32 [of height] by simp_all
    with eq show "a = c \<and> b = d"
      by (simp add: word_of_nat_inj_32)
  qed
  then show ?thesis
    by (simp add: grid_cells_def distinct_map distinct_product)
qed

text \<open>
  A list without repetition whose elements are cells of the grid is no longer
  than the area of the grid.
\<close>

lemma length_le_area:
  assumes "uint width < 2 ^ 31" and "uint height < 2 ^ 31"
    and "distinct xs" and "\<forall>p \<in> set xs. in_grid width height p"
  shows "length xs \<le> unat width * unat height"
proof -
  from assms(1,2,4) have "set xs \<subseteq> set (grid_cells width height)"
    by (auto simp: in_grid_iff_grid_cells)
  then have "card (set xs) \<le> card (set (grid_cells width height))"
    by (intro card_mono) simp_all
  with assms(3) show ?thesis
    by (simp add: distinct_card distinct_grid_cells)
qed

text \<open>
  The pigeonhole principle the other way round: a list that holds every cell of
  the grid is at least as long as the grid is large.
\<close>

lemma area_le_length:
  assumes "uint width < 2 ^ 31" and "uint height < 2 ^ 31"
    and "\<forall>p. in_grid width height p \<longrightarrow> p \<in> set xs"
  shows "unat width * unat height \<le> length xs"
proof -
  from assms have "set (grid_cells width height) \<subseteq> set xs"
    by (auto simp: in_grid_iff_grid_cells)
  then have "card (set (grid_cells width height)) \<le> card (set xs)"
    by (intro card_mono) simp_all
  also have "\<dots> \<le> length xs"
    by (rule card_length)
  finally show ?thesis
    by (simp add: distinct_card distinct_grid_cells)
qed

lemmas geometry_eval [snek_eval] = grid_cells_def upt_conv_Cons STARTING_BODY_def

lemma in_grid_in_frame: "in_grid w h p \<Longrightarrow> in_frame w h p"
  by (simp add: in_grid_def in_frame_def)

lemma length_STARTING_BODY [simp]: "length STARTING_BODY = 4"
  by (simp add: STARTING_BODY_def)

lemma distinct_STARTING_BODY: "distinct STARTING_BODY"
  by (simp add: STARTING_BODY_def)

lemma STARTING_BODY_in_grid:
  assumes "4 \<le> uint width" and "1 \<le> uint height"
  shows "\<forall>p \<in> set STARTING_BODY. in_grid width height p"
  using assms by (simp add: STARTING_BODY_def in_grid_def)

end
