(* ===== verification/Direction.thy ===== *)
theory Direction
  imports Geometry
begin

text \<open>
  The enum \<^verbatim>\<open>Direction\<close> of \<^verbatim>\<open>src/main.rs\<close> with its two methods, \<^verbatim>\<open>opposite\<close>
  and \<^verbatim>\<open>to_vector\<close>. The lemmas show that \<open>opposite\<close> is an involution with
  no fixed point, that \<open>to_vector\<close> is a bijection onto the unit vectors, and
  that a step followed by the opposite step returns to the same cell. The
  type is made an instance of \<open>enum\<close>, so that statements quantified over all
  directions are decided by evaluation.
\<close>

section \<open>The four directions\<close>

datatype direction = Up | Down | Left | Right

fun opposite :: "direction \<Rightarrow> direction" where
  "opposite Up = Down"
| "opposite Down = Up"
| "opposite Left = Right"
| "opposite Right = Left"

fun to_vector :: "direction \<Rightarrow> vector" where
  "to_vector Up = Vector 0 (- 1)"
| "to_vector Down = Vector 0 1"
| "to_vector Left = Vector (- 1) 0"
| "to_vector Right = Vector 1 0"

definition step_vec :: "direction \<Rightarrow> int \<times> int" where
  "step_vec d = (case d of Up \<Rightarrow> (0, - 1) | Down \<Rightarrow> (0, 1) | Left \<Rightarrow> (- 1, 0) | Right \<Rightarrow> (1, 0))"

section \<open>Directions as a finite enumeration\<close>

instantiation direction :: enum
begin

definition enum_direction :: "direction list" where
  "enum_direction = [Up, Down, Left, Right]"

definition enum_all_direction :: "(direction \<Rightarrow> bool) \<Rightarrow> bool" where
  "enum_all_direction P \<longleftrightarrow> P Up \<and> P Down \<and> P Left \<and> P Right"

definition enum_ex_direction :: "(direction \<Rightarrow> bool) \<Rightarrow> bool" where
  "enum_ex_direction P \<longleftrightarrow> P Up \<or> P Down \<or> P Left \<or> P Right"

instance
proof
  show "(UNIV :: direction set) = set enum_class.enum"
    by (auto simp: enum_direction_def intro: direction.exhaust)
  show "distinct (enum_class.enum :: direction list)"
    by (simp add: enum_direction_def)
  show "enum_class.enum_all P = Ball (UNIV :: direction set) P" for P
    by (auto simp: enum_all_direction_def) (metis direction.exhaust)
  show "enum_class.enum_ex P = Bex (UNIV :: direction set) P" for P
    by (auto simp: enum_ex_direction_def) (metis direction.exhaust)
qed

end

section \<open>Facts\<close>

lemma opposite_opposite [simp]: "opposite (opposite d) = d"
  by (cases d) simp_all

lemma opposite_neq [simp]: "opposite d \<noteq> d" "d \<noteq> opposite d"
  by (cases d; simp)+

lemma opposite_inject [simp]: "opposite d = opposite e \<longleftrightarrow> d = e"
  by (cases d; cases e) simp_all

lemma opposite_eq_iff: "opposite d = e \<longleftrightarrow> d = opposite e"
  by (cases d; cases e) simp_all

lemma to_vector_inject [simp]: "to_vector d = to_vector e \<longleftrightarrow> d = e"
  by (cases d; cases e) simp_all

lemma to_vector_nonzero [simp]: "to_vector d \<noteq> Vector 0 0"
  by (cases d) simp_all

lemma to_vector_opposite:
  "to_vector (opposite d) = Vector (- vx (to_vector d)) (- vy (to_vector d))"
  by (cases d) simp_all

lemma point_add_to_vector_neq [simp]: "point_add p (to_vector d) \<noteq> p"
  by (simp add: point_add_eq_self_iff)

lemma point_add_opposite [simp]:
  "point_add (point_add p (to_vector d)) (to_vector (opposite d)) = p"
  by (cases p; cases d) simp_all

lemma sint_to_vector:
  "(sint (vx (to_vector d)), sint (vy (to_vector d))) = step_vec d"
  by (cases d) (simp_all add: step_vec_def)

lemma step_vec_unit: "\<bar>fst (step_vec d)\<bar> + \<bar>snd (step_vec d)\<bar> = 1"
  by (cases d) (simp_all add: step_vec_def)

text \<open>
  A step from a cell whose coordinates are not at the ends of the \<^verbatim>\<open>i32\<close>
  range does not wrap around: the signed coordinates move by the unit step.
\<close>

lemma coords_step:
  assumes "- (2 ^ 31) < sint (px p)" and "sint (px p) < 2 ^ 31 - 1"
    and "- (2 ^ 31) < sint (py p)" and "sint (py p) < 2 ^ 31 - 1"
  shows "coords (point_add p (to_vector d)) =
    (fst (coords p) + fst (step_vec d), snd (coords p) + snd (step_vec d))"
proof -
  have x: "sint (px p + vx (to_vector d)) = sint (px p) + sint (vx (to_vector d))"
    using assms(1,2) by (intro sint_add_no_wrap_32; cases d) simp_all
  have y: "sint (py p + vy (to_vector d)) = sint (py p) + sint (vy (to_vector d))"
    using assms(3,4) by (intro sint_add_no_wrap_32; cases d) simp_all
  from x y sint_to_vector [of d] show ?thesis
    by (simp add: coords_def prod_eq_iff)
qed

text \<open>A step from a cell of the grid ends on the grid or one step outside it.\<close>

lemma step_in_frame:
  assumes "in_grid w h p" and "uint w < 2 ^ 31" and "uint h < 2 ^ 31"
  shows "in_frame w h (point_add p (to_vector d))"
proof -
  from assms have "- (2 ^ 31) < sint (px p)" "sint (px p) < 2 ^ 31 - 1"
    "- (2 ^ 31) < sint (py p)" "sint (py p) < 2 ^ 31 - 1"
    by (simp_all add: in_grid_def)
  from coords_step [OF this, of d] assms(1) show ?thesis
    by (cases d) (simp_all add: coords_def in_frame_def in_grid_def step_vec_def)
qed

text \<open>
  The unit vectors of \<^verbatim>\<open>i32\<close> coordinates are the four values of \<open>to_vector\<close>: a
  coordinate of absolute value at most one is \<open>0\<close>, \<open>1\<close> or \<open>- 1\<close>.
\<close>

lemma unit_word_cases:
  fixes x :: "32 word"
  assumes "\<bar>sint x\<bar> \<le> 1"
  obtains "x = 0" | "x = 1" | "x = - 1"
proof -
  from assms consider "sint x = 0" | "sint x = 1" | "sint x = - 1" by linarith
  then show thesis
  proof cases
    case 1 then have "word_of_int (sint x) = (0 :: 32 word)" by simp
    then show thesis by (simp add: that(1))
  next
    case 2 then have "word_of_int (sint x) = (1 :: 32 word)" by simp
    then show thesis by (simp add: that(2))
  next
    case 3 then have "word_of_int (sint x) = (- 1 :: 32 word)" by simp
    then show thesis by (simp add: that(3))
  qed
qed

lemma unit_vector_to_vector:
  assumes "\<bar>sint (vx v)\<bar> + \<bar>sint (vy v)\<bar> = 1"
  shows "v \<in> range to_vector"
proof -
  obtain x y where v: "v = Vector x y" by (cases v)
  from assms have "\<bar>sint x\<bar> \<le> 1" "\<bar>sint y\<bar> \<le> 1" by (simp_all add: v)
  then have "v = to_vector Up \<or> v = to_vector Down \<or> v = to_vector Left \<or> v = to_vector Right"
    using assms by (elim unit_word_cases [of x] unit_word_cases [of y]) (simp_all add: v)
  then show ?thesis by blast
qed

section \<open>Properties of the operations\<close>

text \<open>
  C38 (\<open>Direction::opposite\<close>, and why reversal is guarded). \<open>opposite\<close> is an
  involution without a fixed point, the vector of the opposite direction is
  the negated vector of the direction, and two steps in a row bring a point
  back to where it was exactly when the second direction is the opposite of
  the first, also at the ends of the \<^verbatim>\<open>i32\<close> range where the coordinates
  wrap: a snake that turned to the opposite of its direction would step onto
  its own neck.
\<close>

theorem opposite_spec:
  "opposite (opposite d) = d \<and> opposite d \<noteq> d \<and>
   to_vector (opposite d) = Vector (- vx (to_vector d)) (- vy (to_vector d)) \<and>
   (point_add (point_add p (to_vector d)) (to_vector e) = p \<longleftrightarrow> e = opposite d)"
  by (cases p; cases d; cases e) simp_all

text \<open>
  C37 (\<open>Direction::to_vector\<close>, the type of steps). \<open>to_vector\<close> is a bijection between the
  four directions and the unit vectors of the grid, the vectors whose signed
  coordinates have absolute values that add up to one: every direction is a
  step to a neighbouring cell, and each of the four neighbours is reached by
  exactly one direction.
\<close>

theorem to_vector_bijective:
  "bij_betw to_vector UNIV {v. \<bar>sint (vx v)\<bar> + \<bar>sint (vy v)\<bar> = 1}"
proof -
  have "range to_vector = {v. \<bar>sint (vx v)\<bar> + \<bar>sint (vy v)\<bar> = 1}"
  proof (intro set_eqI iffI)
    fix v assume "v \<in> range to_vector"
    then obtain d where "v = to_vector d" by blast
    with step_vec_unit [of d] sint_to_vector [of d]
    show "v \<in> {v. \<bar>sint (vx v)\<bar> + \<bar>sint (vy v)\<bar> = 1}" by (simp add: prod_eq_iff)
  qed (simp add: unit_vector_to_vector)
  moreover have "inj to_vector" by (simp add: inj_def)
  ultimately show ?thesis by (simp add: bij_betw_def)
qed

end
