(* ===== verification/Rand.thy ===== *)
theory Rand
  imports Geometry
begin

text \<open>
  Food placement: \<^verbatim>\<open>rand_point\<close> of \<^verbatim>\<open>src/main.rs\<close>, which draws points of
  the grid until one is outside the excluded list.

  The random number generator is the thread-local generator of the
  \<^verbatim>\<open>fastrand\<close> crate. It is modelled as the infinite stream of the raw values
  it is going to produce; \<open>fastrand_i32 lo hi\<close> consumes one raw value
  and reduces it into the range \<open>lo..hi\<close>, and panics on an empty range as
  the crate does. Every sequence of in-range results is produced by some
  stream, so a statement proved for all streams holds for every behaviour of
  the generator.

  The loop of \<^verbatim>\<open>rand_point\<close> has no bound. It is a
  \<^theory_text>\<open>partial_function\<close> in the option monad: \<open>None\<close> is the run that never
  leaves the loop. The lemmas characterise all three outcomes: the panic
  (a dimension that is not positive as an \<^verbatim>\<open>i32\<close>), the result (the first
  candidate of the stream that is not excluded, which is a cell of the grid),
  and divergence (every candidate of the stream is excluded, in particular
  when the excluded list covers the grid).
\<close>

section \<open>The generator\<close>

type_synonym rng = "nat stream"

definition fastrand_i32 :: "i32 \<Rightarrow> i32 \<Rightarrow> rng \<Rightarrow> (i32 \<times> rng) result" where
  "fastrand_i32 lo hi g =
     (if hi \<le>s lo then Inl EmptyRange
      else Inr (lo + word_of_nat (shd g mod unat (hi - lo)), stl g))"

section \<open>Drawing a point\<close>

definition sample_point :: "u32 \<Rightarrow> u32 \<Rightarrow> rng \<Rightarrow> (point \<times> rng) result" where
  "sample_point width height g =
     and_then (fastrand_i32 0 width g) (\<lambda>(x, g1).
     and_then (fastrand_i32 0 height g1) (\<lambda>(y, g2).
     Inr (Point x y, g2)))"

partial_function (option) rand_loop ::
  "u32 \<Rightarrow> u32 \<Rightarrow> point list \<Rightarrow> point \<Rightarrow> rng \<Rightarrow> (point \<times> rng) outcome" where
  "rand_loop width height exclude point g =
     (if point \<in> set exclude
      then (case sample_point width height g of
              Inl e \<Rightarrow> panics e
            | Inr (point', g') \<Rightarrow> rand_loop width height exclude point' g')
      else returns (point, g))"

definition rand_point :: "u32 \<Rightarrow> u32 \<Rightarrow> point list \<Rightarrow> rng \<Rightarrow> (point \<times> rng) outcome" where
  "rand_point width height exclude g =
     (case sample_point width height g of
        Inl e \<Rightarrow> panics e
      | Inr (point, g') \<Rightarrow> rand_loop width height exclude point g')"

section \<open>Specification vocabulary\<close>

text \<open>
  \<open>candidate width height g n\<close> is the \<open>n\<close>-th point the generator \<open>g\<close> offers
  on a grid with positive dimensions: each point takes two raw values.
  \<open>first_free\<close> is the index of the first candidate outside the excluded
  list, searched up to a bound.
\<close>

definition proper_grid :: "u32 \<Rightarrow> u32 \<Rightarrow> bool" where
  "proper_grid width height \<longleftrightarrow> 0 <s width \<and> 0 <s height"

definition candidate :: "u32 \<Rightarrow> u32 \<Rightarrow> rng \<Rightarrow> nat \<Rightarrow> point" where
  "candidate width height g n =
     Point (word_of_nat (g !! (2 * n) mod unat width))
           (word_of_nat (g !! (2 * n + 1) mod unat height))"

fun first_free :: "u32 \<Rightarrow> u32 \<Rightarrow> point list \<Rightarrow> rng \<Rightarrow> nat \<Rightarrow> nat option" where
  "first_free width height exclude g 0 = None"
| "first_free width height exclude g (Suc k) =
     (if candidate width height g 0 \<notin> set exclude then Some 0
      else map_option Suc (first_free width height exclude (stl (stl g)) k))"

section \<open>The generator and one draw\<close>

lemma fastrand_i32_empty [simp]: "hi \<le>s lo \<Longrightarrow> fastrand_i32 lo hi g = Inl EmptyRange"
  by (simp add: fastrand_i32_def)

lemma fastrand_i32_zero [simp]:
  "0 <s hi \<Longrightarrow> fastrand_i32 0 hi g = Inr (word_of_nat (shd g mod unat hi), stl g)"
  by (auto simp: fastrand_i32_def word_sless_alt word_sle_eq)

lemma fastrand_i32_eq_Inl_iff:
  "fastrand_i32 lo hi g = Inl e \<longleftrightarrow> e = EmptyRange \<and> hi \<le>s lo"
  by (auto simp: fastrand_i32_def)

lemma fastrand_i32_in_range:
  assumes "0 <s hi" and "fastrand_i32 0 hi g = Inr (v, g')"
  shows "0 \<le> sint v" and "sint v < uint hi"
proof -
  from assms have "v = word_of_nat (shd g mod unat hi)"
    by simp
  with mod_unat_less_32(2) [OF assms(1)] have "sint v = int (shd g mod unat hi)"
    by (simp add: sint_of_nat_32)
  with mod_unat_less_32(1) [OF assms(1), of "shd g"] show "0 \<le> sint v" and "sint v < uint hi"
    by simp_all
qed

lemma not_proper_grid_iff: "\<not> proper_grid width height \<longleftrightarrow> width \<le>s 0 \<or> height \<le>s 0"
  by (auto simp: proper_grid_def word_sless_alt word_sle_eq)

lemma sample_point_proper [simp]:
  "proper_grid width height \<Longrightarrow>
     sample_point width height g = Inr (candidate width height g 0, stl (stl g))"
  by (simp add: sample_point_def proper_grid_def candidate_def)

lemma sample_point_improper [simp]:
  "\<not> proper_grid width height \<Longrightarrow> sample_point width height g = Inl EmptyRange"
  by (cases "0 <s width") (auto simp: sample_point_def proper_grid_def word_sless_alt word_sle_eq)

lemma sample_point_eq_Inl_iff:
  "sample_point width height g = Inl e \<longleftrightarrow> e = EmptyRange \<and> \<not> proper_grid width height"
  by (cases "proper_grid width height") auto

lemma candidate_sdrop [simp]:
  "candidate width height (stl (stl g)) n = candidate width height g (Suc n)"
  by (simp add: candidate_def)

lemma candidate_in_grid:
  assumes "proper_grid width height"
  shows "in_grid width height (candidate width height g n)"
proof -
  from assms have w: "0 <s width" and h: "0 <s height"
    by (simp_all add: proper_grid_def)
  show ?thesis
    using mod_unat_less_32 [OF w] mod_unat_less_32 [OF h]
    by (simp add: candidate_def in_grid_def sint_of_nat_32)
qed

lemma sample_point_in_grid:
  assumes "sample_point width height g = Inr (p, g')"
  shows "in_grid width height p"
  using assms by (cases "proper_grid width height") (auto simp: candidate_in_grid)

section \<open>The loop\<close>

lemma rand_loop_free [simp]:
  "point \<notin> set exclude \<Longrightarrow> rand_loop width height exclude point g = returns (point, g)"
  by (subst rand_loop.simps) simp

lemma rand_loop_excluded:
  "point \<in> set exclude \<Longrightarrow>
     rand_loop width height exclude point g = rand_point width height exclude g"
  by (subst rand_loop.simps) (simp add: rand_point_def)

lemma rand_point_improper [simp]:
  "\<not> proper_grid width height \<Longrightarrow> rand_point width height exclude g = panics EmptyRange"
  by (simp add: rand_point_def)

lemma rand_point_unfold:
  "proper_grid width height \<Longrightarrow>
     rand_point width height exclude g =
       (if candidate width height g 0 \<in> set exclude
        then rand_point width height exclude (stl (stl g))
        else returns (candidate width height g 0, stl (stl g)))"
  by (simp add: rand_point_def rand_loop_excluded)

lemma first_free_sound:
  "first_free width height exclude g k = Some n \<Longrightarrow>
     n < k \<and> candidate width height g n \<notin> set exclude \<and>
     (\<forall>i<n. candidate width height g i \<in> set exclude)"
proof (induction k arbitrary: g n)
  case 0
  then show ?case by simp
next
  case (Suc k)
  show ?case
  proof (cases "candidate width height g 0 \<in> set exclude")
    case False
    with Suc.prems show ?thesis by simp
  next
    case True
    with Suc.prems obtain m
      where m: "first_free width height exclude (stl (stl g)) k = Some m" and n: "n = Suc m"
      by auto
    from Suc.IH [OF m] True show ?thesis
      by (auto simp: n less_Suc_eq_0_disj)
  qed
qed

lemma first_free_complete:
  "candidate width height g n \<notin> set exclude \<Longrightarrow>
     \<exists>m\<le>n. first_free width height exclude g (Suc n) = Some m"
proof (induction n arbitrary: g)
  case 0
  then show ?case by simp
next
  case (Suc n)
  from Suc.prems have "candidate width height (stl (stl g)) n \<notin> set exclude"
    by simp
  from Suc.IH [OF this] show ?case
    by auto
qed

lemma rand_point_first_free:
  assumes "proper_grid width height"
  shows "first_free width height exclude g k = Some n \<Longrightarrow>
     rand_point width height exclude g =
       returns (candidate width height g n, sdrop (2 * Suc n) g)"
proof (induction k arbitrary: g n)
  case 0
  then show ?case by simp
next
  case (Suc k)
  show ?case
  proof (cases "candidate width height g 0 \<in> set exclude")
    case False
    with Suc.prems assms show ?thesis
      by (simp add: rand_point_unfold)
  next
    case True
    with Suc.prems obtain m
      where m: "first_free width height exclude (stl (stl g)) k = Some m" and n: "n = Suc m"
      by auto
    from Suc.IH [OF m] True assms show ?thesis
      by (simp add: rand_point_unfold [of width height exclude g] n)
  qed
qed

lemma rand_loop_diverges:
  assumes "proper_grid width height" and "point \<in> set exclude"
    and "\<forall>n. candidate width height g n \<in> set exclude"
  shows "rand_loop width height exclude point g = diverges"
proof (rule ccontr)
  assume "rand_loop width height exclude point g \<noteq> diverges"
  then obtain r where ret: "rand_loop width height exclude point g = Some r"
    by auto
  have "\<not> (proper_grid width height \<and> point \<in> set exclude \<and>
      (\<forall>n. candidate width height g n \<in> set exclude))"
  proof (rule rand_loop.raw_induct [where P = "\<lambda>width height exclude point g r.
      \<not> (proper_grid width height \<and> point \<in> set exclude \<and>
        (\<forall>n. candidate width height g n \<in> set exclude))", OF _ ret])
    fix f width height exclude point g and r :: "(point \<times> rng) result"
    assume IH: "\<And>width height exclude point g r. f width height exclude point g = Some r \<Longrightarrow>
        \<not> (proper_grid width height \<and> point \<in> set exclude \<and>
          (\<forall>n. candidate width height g n \<in> set exclude))"
      and eq: "(if point \<in> set exclude
         then (case sample_point width height g of
                 Inl e \<Rightarrow> panics e
               | Inr (point', g') \<Rightarrow> f width height exclude point' g')
         else returns (point, g)) = Some r"
    show "\<not> (proper_grid width height \<and> point \<in> set exclude \<and>
        (\<forall>n. candidate width height g n \<in> set exclude))"
    proof
      assume all: "proper_grid width height \<and> point \<in> set exclude \<and>
        (\<forall>n. candidate width height g n \<in> set exclude)"
      with eq have "f width height exclude (candidate width height g 0) (stl (stl g)) = Some r"
        by simp
      from IH [OF this] all show False
        by simp
    qed
  qed
  with assms show False
    by simp
qed

lemma rand_point_diverges:
  assumes "proper_grid width height"
    and "\<forall>n. candidate width height g n \<in> set exclude"
  shows "rand_point width height exclude g = diverges"
proof -
  from assms(2) have "candidate width height g 0 \<in> set exclude"
    and "\<forall>n. candidate width height (stl (stl g)) n \<in> set exclude"
    by simp_all
  with assms(1) show ?thesis
    by (simp add: rand_point_def rand_loop_diverges)
qed

text \<open>
  The three outcomes are exhaustive and exclusive, so each is characterised by
  its condition on the grid and on the stream.
\<close>

lemma rand_point_cases:
  obtains (panic) "\<not> proper_grid width height"
      "rand_point width height exclude g = panics EmptyRange"
    | (diverge) "proper_grid width height"
      "\<forall>n. candidate width height g n \<in> set exclude"
      "rand_point width height exclude g = diverges"
    | (return) n where "proper_grid width height"
      "candidate width height g n \<notin> set exclude"
      "\<forall>i<n. candidate width height g i \<in> set exclude"
      "rand_point width height exclude g =
         returns (candidate width height g n, sdrop (2 * Suc n) g)"
proof (cases "proper_grid width height")
  case False
  then show ?thesis
    by (intro panic) simp_all
next
  case proper: True
  show ?thesis
  proof (cases "\<forall>n. candidate width height g n \<in> set exclude")
    case True
    with proper show ?thesis
      by (intro diverge) (simp_all add: rand_point_diverges)
  next
    case False
    then obtain n where "candidate width height g n \<notin> set exclude"
      by auto
    from first_free_complete [OF this] obtain m
      where m: "first_free width height exclude g (Suc n) = Some m"
      by auto
    from first_free_sound [OF m] rand_point_first_free [OF proper m] proper show ?thesis
      by (intro return [of m]) simp_all
  qed
qed

lemma rand_point_eq_returns_iff:
  "rand_point width height exclude g = returns (p, g') \<longleftrightarrow>
     proper_grid width height \<and>
     (\<exists>n. p = candidate width height g n \<and> g' = sdrop (2 * Suc n) g \<and>
        p \<notin> set exclude \<and> (\<forall>i<n. candidate width height g i \<in> set exclude))"
  (is "?lhs \<longleftrightarrow> ?rhs")
proof
  assume ?lhs
  then show ?rhs
    by (cases width height exclude g rule: rand_point_cases) auto
next
  assume ?rhs
  then obtain n where n: "candidate width height g n \<notin> set exclude"
    "\<forall>i<n. candidate width height g i \<in> set exclude"
    and p: "p = candidate width height g n" "g' = sdrop (2 * Suc n) g"
    and proper: "proper_grid width height"
    by auto
  show ?lhs
  proof (cases width height exclude g rule: rand_point_cases)
    case panic
    with proper show ?thesis by simp
  next
    case diverge
    with n show ?thesis by simp
  next
    case (return m)
    with n have "m = n"
      by (meson linorder_neqE_nat)
    with return p show ?thesis by simp
  qed
qed

lemma rand_point_eq_panics_iff:
  "rand_point width height exclude g = panics e \<longleftrightarrow>
     e = EmptyRange \<and> \<not> proper_grid width height"
  by (cases width height exclude g rule: rand_point_cases) auto

lemma rand_point_eq_diverges_iff:
  "rand_point width height exclude g = diverges \<longleftrightarrow>
     proper_grid width height \<and> (\<forall>n. candidate width height g n \<in> set exclude)"
  by (cases width height exclude g rule: rand_point_cases) auto

lemma proper_grid_bounds:
  assumes "proper_grid width height"
  shows "uint width < 2 ^ 31" and "uint height < 2 ^ 31"
    and "0 < unat width" and "0 < unat height"
  using assms sless_zero_32 [of width] sless_zero_32 [of height]
  by (simp_all add: proper_grid_def)

lemma rand_point_full_grid:
  assumes "proper_grid width height"
    and "\<forall>p. in_grid width height p \<longrightarrow> p \<in> set exclude"
  shows "rand_point width height exclude g = diverges"
  using assms by (intro rand_point_diverges) (simp_all add: candidate_in_grid)

lemma rand_point_returns_in_grid:
  assumes "rand_point width height exclude g = returns (p, g')"
  shows "p \<notin> set exclude" and "in_grid width height p"
  using assms by (auto simp: rand_point_eq_returns_iff candidate_in_grid)

lemmas rand_eval [snek_eval] = rand_point_unfold proper_grid_def candidate_def

section \<open>Properties of food placement\<close>

text \<open>
  C4 (\<open>rand_point\<close>, the result). A point that \<open>rand_point\<close> returns is never a
  member of the excluded list, and it is a cell of the grid
  \<open>[0, width) \<times> [0, height)\<close>.
\<close>

theorem rand_point_avoids_exclude:
  assumes "rand_point width height exclude g = returns (p, g')"
  shows "p \<notin> set exclude \<and> in_grid width height p"
proof -
  from assms obtain p0 g0 where first: "sample_point width height g = Inr (p0, g0)"
    and loop: "rand_loop width height exclude p0 g0 = Some (Inr (p, g'))"
    by (auto simp: rand_point_def split: sum.splits)
  have "\<forall>q g1. (Inr (p, g') :: (point \<times> rng) result) = Inr (q, g1) \<longrightarrow>
      q \<notin> set exclude \<and> (in_grid width height p0 \<longrightarrow> in_grid width height q)"
  proof (rule rand_loop.raw_induct [where P = "\<lambda>width height exclude point g r.
      \<forall>q g1. r = Inr (q, g1) \<longrightarrow>
        q \<notin> set exclude \<and> (in_grid width height point \<longrightarrow> in_grid width height q)", OF _ loop])
    fix f width height exclude point g and r :: "(point \<times> rng) result"
    assume IH: "\<And>width height exclude point g r. f width height exclude point g = Some r \<Longrightarrow>
        \<forall>q g1. r = Inr (q, g1) \<longrightarrow>
          q \<notin> set exclude \<and> (in_grid width height point \<longrightarrow> in_grid width height q)"
      and eq: "(if point \<in> set exclude
         then (case sample_point width height g of
                 Inl e \<Rightarrow> panics e
               | Inr (point', g') \<Rightarrow> f width height exclude point' g')
         else returns (point, g)) = Some r"
    show "\<forall>q g1. r = Inr (q, g1) \<longrightarrow>
        q \<notin> set exclude \<and> (in_grid width height point \<longrightarrow> in_grid width height q)"
    proof (cases "point \<in> set exclude")
      case False
      with eq show ?thesis by auto
    next
      case True
      with eq IH sample_point_in_grid [of width height g] show ?thesis
        by (auto split: sum.splits)
    qed
  qed
  with sample_point_in_grid [OF first] show ?thesis
    by simp
qed

theorem rand_point_avoids_exclude_witness:
  "rand_point 5 5 [Point 0 0, Point 1 0] (1 ## 0 ## 3 ## 4 ## sconst 0) =
     returns (Point 3 4, sconst 0) \<and>
   Point 3 4 \<notin> set [Point 0 0, Point 1 0] \<and> in_grid 5 5 (Point 3 4)"
proof -
  have run: "rand_point 5 5 [Point 0 0, Point 1 0] (1 ## 0 ## 3 ## 4 ## sconst 0) =
     returns (Point 3 4, sconst 0)"
    by (simp add: snek_eval)
  from rand_point_avoids_exclude [OF run] run show ?thesis
    by simp
qed

text \<open>
  C20 (\<open>rand_point\<close>, termination). On a grid with positive dimensions, if the
  \<open>n\<close>-th point offered by the generator is not excluded, the loop ends after
  at most \<open>n + 1\<close> draws: it returns the first offered point that is not
  excluded, and leaves the generator two raw values further for each draw.
\<close>

theorem rand_point_terminates:
  assumes "proper_grid width height" and "candidate width height g n \<notin> set exclude"
  shows "\<exists>m\<le>n. rand_point width height exclude g =
      returns (candidate width height g m, sdrop (2 * Suc m) g) \<and>
    (\<forall>i<m. candidate width height g i \<in> set exclude)"
proof -
  from first_free_complete [OF assms(2)] obtain m
    where "m \<le> n" and m: "first_free width height exclude g (Suc n) = Some m"
    by auto
  with first_free_sound [OF m] rand_point_first_free [OF assms(1) m] show ?thesis
    by auto
qed

theorem rand_point_terminates_witness:
  "proper_grid 3 3 \<and>
   candidate 3 3 (0 ## 0 ## 4 ## 4 ## 2 ## 1 ## sconst 0) 2 \<notin> set [Point 0 0, Point 1 1] \<and>
   (\<exists>m\<le>2. rand_point 3 3 [Point 0 0, Point 1 1] (0 ## 0 ## 4 ## 4 ## 2 ## 1 ## sconst 0) =
      returns (candidate 3 3 (0 ## 0 ## 4 ## 4 ## 2 ## 1 ## sconst 0) m,
        sdrop (2 * Suc m) (0 ## 0 ## 4 ## 4 ## 2 ## 1 ## sconst 0)))"
proof -
  have grid: "proper_grid 3 3"
    by (simp add: snek_eval)
  have free: "candidate 3 3 (0 ## 0 ## 4 ## 4 ## 2 ## 1 ## sconst 0) 2
      \<notin> set [Point 0 0, Point 1 1]"
    by (simp add: snek_eval)
  from rand_point_terminates [OF grid free] grid free show ?thesis
    by blast
qed

text \<open>
  When the excluded list covers every cell of a grid with positive
  dimensions, \<open>rand_point\<close> never returns, whatever the generator produces:
  the rejection loop has no bound.
\<close>

lemma rand_point_hangs_on_full_grid:
  assumes "0 <s width" and "0 <s height"
    and "\<forall>p \<in> set (grid_cells width height). p \<in> set exclude"
  shows "rand_point width height exclude g = diverges"
proof -
  from assms(1,2) have proper: "proper_grid width height"
    by (simp add: proper_grid_def)
  from proper_grid_bounds(1,2) [OF proper]
  have "in_grid width height p \<longleftrightarrow> p \<in> set (grid_cells width height)" for p
    by (rule in_grid_iff_grid_cells)
  with assms(3) have "\<forall>p. in_grid width height p \<longrightarrow> p \<in> set exclude"
    by blast
  with proper show ?thesis
    by (rule rand_point_full_grid)
qed

text \<open>
  \<open>rand_point\<close> panics exactly when a dimension of the grid, read as an \<^verbatim>\<open>i32\<close>,
  is not positive: the range handed to the random number generator is empty.
  This includes a width or height of zero and one of \<open>2\<^sup>3\<^sup>1\<close> or more.
\<close>

lemma rand_point_panics_iff:
  "rand_point width height exclude g = panics e \<longleftrightarrow>
     e = EmptyRange \<and> (sint width \<le> 0 \<or> sint height \<le> 0)"
  by (cases width height exclude g rule: rand_point_cases)
    (auto simp: proper_grid_def word_sless_alt)

end
