(* ===== verification/Snek.thy ===== *)
theory Snek
  imports Direction Rand
begin

text \<open>
  The snake: the struct \<^verbatim>\<open>Snek\<close> of \<^verbatim>\<open>src/main.rs\<close> and its methods
  \<^verbatim>\<open>new\<close>, \<^verbatim>\<open>slither\<close>, \<^verbatim>\<open>dead\<close>, \<^verbatim>\<open>change_direction\<close>, \<^verbatim>\<open>score\<close> and \<^verbatim>\<open>eat\<close>.
  A method that takes \<^verbatim>\<open>&mut self\<close> returns the updated record; \<open>slither\<close>
  also returns the food point it receives by mutable reference and the
  state of the random number generator.
\<close>

section \<open>State\<close>

record snek =
  body :: "point list"
  start_len :: usize
  direction :: direction
  eating :: bool
  alive :: bool

section \<open>Operations\<close>

definition snek_new :: "point list \<Rightarrow> snek" where
  "snek_new starting_body =
     \<lparr>body = starting_body,
      start_len = word_of_nat (length starting_body),
      direction = Right,
      eating = False,
      alive = True\<rparr>"

definition eat :: "snek \<Rightarrow> point \<Rightarrow> snek result" where
  "eat s food =
     and_then (unwrap (slice_last (body s))) (\<lambda>head.
     Inr (if head = food then s\<lparr>eating := True\<rparr> else s))"

definition slither :: "snek \<Rightarrow> point \<Rightarrow> u32 \<Rightarrow> u32 \<Rightarrow> rng \<Rightarrow> (snek \<times> point \<times> rng) outcome" where
  "slither s food width height g =
     run_then (Some (unwrap (slice_last (body s)))) (\<lambda>head.
     let s1 = s\<lparr>body := body s @ [point_add head (to_vector (direction s))]\<rparr> in
     run_then (Some (eat s1 food)) (\<lambda>s2.
     if \<not> eating s2 then returns (s2\<lparr>body := tl (body s2)\<rparr>, food, g)
     else let s3 = s2\<lparr>eating := False\<rparr> in
       run_then (rand_point width height (body s3) g) (\<lambda>(food', g').
       returns (s3, food', g'))))"

definition dead :: "snek \<Rightarrow> u32 \<Rightarrow> u32 \<Rightarrow> bool result" where
  "dead s width height =
     and_then (unwrap (slice_last (body s))) (\<lambda>head.
     Inr (head \<in> set (take (length (body s) - 1) (body s))
       \<or> px head <s 0
       \<or> py head <s 0
       \<or> width - 1 <s px head
       \<or> height - 1 <s py head))"

definition change_direction :: "snek \<Rightarrow> direction \<Rightarrow> snek" where
  "change_direction s d = (if direction s \<noteq> opposite d then s\<lparr>direction := d\<rparr> else s)"

definition snek_score :: "snek \<Rightarrow> usize" where
  "snek_score s = word_of_nat (length (body s)) - start_len s"

section \<open>Specification vocabulary\<close>

definition head :: "snek \<Rightarrow> point" where
  "head s = last (body s)"

definition next_head :: "snek \<Rightarrow> point" where
  "next_head s = point_add (head s) (to_vector (direction s))"

definition will_eat :: "snek \<Rightarrow> point \<Rightarrow> bool" where
  "will_eat s food \<longleftrightarrow> eating s \<or> next_head s = food"


definition snek_inv :: "snek \<Rightarrow> bool" where
  "snek_inv s \<longleftrightarrow> body s \<noteq> [] \<and> \<not> eating s \<and> unat (start_len s) \<le> length (body s)"

lemmas snek_ops [snek_defs] =
  snek_new_def eat_def slither_def dead_def change_direction_def snek_score_def
  head_def next_head_def will_eat_def Let_def

section \<open>Construction\<close>

lemma snek_new_sel [simp]:
  "body (snek_new b) = b"
  "start_len (snek_new b) = word_of_nat (length b)"
  "direction (snek_new b) = Right"
  "\<not> eating (snek_new b)"
  "alive (snek_new b)"
  by (simp_all add: snek_new_def)

lemma snek_inv_new:
  assumes "b \<noteq> []"
  shows "snek_inv (snek_new b)"
proof -
  have "unat (word_of_nat (length b) :: usize) \<le> length b"
    by (simp add: unat_of_nat)
  with assms show ?thesis
    by (simp add: snek_inv_def)
qed

section \<open>Eating\<close>

lemma eat_empty [simp]: "body s = [] \<Longrightarrow> eat s food = Inl UnwrapNone"
  by (simp add: eat_def)

lemma eat_nonempty [simp]:
  "body s \<noteq> [] \<Longrightarrow>
     eat s food = Inr (if last (body s) = food then s\<lparr>eating := True\<rparr> else s)"
  by (simp add: eat_def)

section \<open>Moving\<close>

lemma slither_empty [simp]:
  "body s = [] \<Longrightarrow> slither s food width height g = panics UnwrapNone"
  by (simp add: slither_def)

lemma slither_eq:
  assumes "body s \<noteq> []"
  shows "slither s food width height g =
    (if will_eat s food
     then run_then (rand_point width height (body s @ [next_head s]) g) (\<lambda>(food', g').
       returns (s\<lparr>body := body s @ [next_head s], eating := False\<rparr>, food', g'))
     else returns (s\<lparr>body := tl (body s) @ [next_head s]\<rparr>, food, g))"
  using assms by (simp add: slither_def head_def next_head_def will_eat_def Let_def)

lemma slither_cases:
  obtains (empty) "body s = []" "slither s food width height g = panics UnwrapNone"
    | (move) "body s \<noteq> []" "\<not> will_eat s food"
        "slither s food width height g =
           returns (s\<lparr>body := tl (body s) @ [next_head s]\<rparr>, food, g)"
    | (no_grid) "body s \<noteq> []" "will_eat s food" "\<not> proper_grid width height"
        "slither s food width height g = panics EmptyRange"
    | (hang) "body s \<noteq> []" "will_eat s food" "proper_grid width height"
        "\<forall>n. candidate width height g n \<in> set (body s @ [next_head s])"
        "slither s food width height g = diverges"
    | (grow) n where "body s \<noteq> []" "will_eat s food" "proper_grid width height"
        "candidate width height g n \<notin> set (body s @ [next_head s])"
        "\<forall>i<n. candidate width height g i \<in> set (body s @ [next_head s])"
        "slither s food width height g =
           returns (s\<lparr>body := body s @ [next_head s], eating := False\<rparr>,
             candidate width height g n, sdrop (2 * Suc n) g)"
proof (cases "body s = []")
  case True
  then show ?thesis
    by (intro empty) simp_all
next
  case nonempty: False
  show ?thesis
  proof (cases "will_eat s food")
    case False
    with nonempty show ?thesis
      by (intro move) (simp_all add: slither_eq)
  next
    case True
    show ?thesis
    proof (cases width height "body s @ [next_head s]" g rule: rand_point_cases)
      case panic
      with nonempty True show ?thesis
        by (intro no_grid) (simp_all add: slither_eq)
    next
      case diverge
      with nonempty True show ?thesis
        by (intro hang) (simp_all add: slither_eq)
    next
      case (return n)
      with nonempty True show ?thesis
        by (intro grow [of n]) (simp_all add: slither_eq)
    qed
  qed
qed

text \<open>
  A snake that points back along its last step moves its head onto its neck.
\<close>

lemma slither_reversed:
  assumes "body s = xs @ [n, point_add n (to_vector d)]" and "xs \<noteq> []"
    and "direction s = opposite d" and "\<not> eating s" and "food \<noteq> n"
  shows "slither s food width height g =
    returns (s\<lparr>body := tl xs @ [n, point_add n (to_vector d), n]\<rparr>, food, g)"
  using assms by (simp add: slither_eq will_eat_def next_head_def head_def)

section \<open>Death\<close>

lemma dead_empty [simp]: "body s = [] \<Longrightarrow> dead s width height = Inl UnwrapNone"
  by (simp add: dead_def)

lemma dead_nonempty:
  "body s \<noteq> [] \<Longrightarrow>
     dead s width height =
       Inr (head s \<in> set (butlast (body s))
         \<or> px (head s) <s 0 \<or> py (head s) <s 0
         \<or> width - 1 <s px (head s) \<or> height - 1 <s py (head s))"
  by (simp add: dead_def head_def)

lemma alive_update_True: "alive s \<Longrightarrow> s\<lparr>alive := True\<rparr> = s"
  by simp

lemma dead_direction [simp]: "dead (s\<lparr>direction := d\<rparr>) width height = dead s width height"
  by (simp add: dead_def)

lemma off_grid_iff:
  assumes "uint width < 2 ^ 31" and "uint height < 2 ^ 31"
  shows "px p <s 0 \<or> py p <s 0 \<or> width - 1 <s px p \<or> height - 1 <s py p
    \<longleftrightarrow> \<not> in_grid width height p"
  using assms by (auto simp: in_grid_def grid_upper_bound_32 grid_lower_bound_32)

lemma dead_proper:
  assumes "body s \<noteq> []" and "proper_grid width height"
  shows "dead s width height =
    Inr (head s \<in> set (butlast (body s)) \<or> \<not> in_grid width height (head s))"
  using assms(1) off_grid_iff [OF proper_grid_bounds(1,2) [OF assms(2)], of "head s"]
  by (auto simp: dead_nonempty)

text \<open>
  A step from a cell of a grid with dimensions below \<open>2\<^sup>3\<^sup>1\<close> does not wrap.
\<close>

lemma coords_next_head:
  assumes "in_grid width height (head s)"
    and "uint width < 2 ^ 31" and "uint height < 2 ^ 31"
  shows "coords (next_head s) =
    (fst (coords (head s)) + fst (step_vec (direction s)),
     snd (coords (head s)) + snd (step_vec (direction s)))"
proof -
  from assms have "0 \<le> sint (px (head s))" "sint (px (head s)) < 2 ^ 31 - 1"
    "0 \<le> sint (py (head s))" "sint (py (head s)) < 2 ^ 31 - 1"
    by (simp_all add: in_grid_def)
  then show ?thesis
    unfolding next_head_def by (intro coords_step) simp_all
qed

section \<open>The alive flag is not read by the snake\<close>

lemma alive_update_vocabulary [simp]:
  "head (s\<lparr>alive := a\<rparr>) = head s"
  "next_head (s\<lparr>alive := a\<rparr>) = next_head s"
  "will_eat (s\<lparr>alive := a\<rparr>) p = will_eat s p"
  "snek_inv (s\<lparr>alive := a\<rparr>) = snek_inv s"
  by (simp_all add: head_def next_head_def will_eat_def snek_inv_def)

lemma dead_alive_update [simp]: "dead (s\<lparr>alive := a\<rparr>) width height = dead s width height"
  by (simp add: dead_def)

lemma snek_score_alive_update [simp]: "snek_score (s\<lparr>alive := a\<rparr>) = snek_score s"
  by (simp add: snek_score_def)

section \<open>Turning\<close>

lemma change_direction_sel [simp]:
  "body (change_direction s d) = body s"
  "start_len (change_direction s d) = start_len s"
  "eating (change_direction s d) = eating s"
  "alive (change_direction s d) = alive s"
  "direction (change_direction s d) = (if d = opposite (direction s) then direction s else d)"
  by (auto simp: change_direction_def)

lemma snek_inv_change_direction [simp]: "snek_inv (change_direction s d) = snek_inv s"
  by (simp add: snek_inv_def)


section \<open>Score\<close>

lemma unat_length_usize:
  assumes "length xs < 2 ^ 64"
  shows "unat (word_of_nat (length xs) :: usize) = length xs"
  using assms by (simp add: unat_of_nat)

lemma snek_score_new [simp]: "snek_score (snek_new b) = 0"
  by (simp add: snek_score_def)

lemma unat_snek_score:
  assumes "unat (start_len s) \<le> length (body s)" and "length (body s) < 2 ^ 64"
  shows "unat (snek_score s) = length (body s) - unat (start_len s)"
proof -
  from assms(2) have len: "unat (word_of_nat (length (body s)) :: usize) = length (body s)"
    by (rule unat_length_usize)
  with assms(1) have "start_len s \<le> word_of_nat (length (body s))"
    by (simp add: word_le_nat_alt)
  then have "unat (word_of_nat (length (body s)) - start_len s)
      = unat (word_of_nat (length (body s)) :: usize) - unat (start_len s)"
    by (rule unat_sub)
  with len show ?thesis
    by (simp add: snek_score_def)
qed

section \<open>The invariant\<close>

lemma snek_inv_slither:
  assumes "snek_inv s" and "slither s food width height g = returns (s', food', g')"
  shows "snek_inv s'"
  using assms by (cases s food width height g rule: slither_cases)
    (auto simp: snek_inv_def)

lemma slither_frame:
  assumes "slither s food width height g = returns (s', food', g')"
  shows "direction s' = direction s" and "start_len s' = start_len s" and "alive s' = alive s"
  using assms by (cases s food width height g rule: slither_cases; auto)+

lemma slither_length:
  assumes "body s \<noteq> []" and "slither s food width height g = returns (s', food', g')"
  shows "length (body s') = (if will_eat s food then Suc (length (body s)) else length (body s))"
  using assms by (cases s food width height g rule: slither_cases) auto

lemma slither_head:
  assumes "body s \<noteq> []" and "slither s food width height g = returns (s', food', g')"
  shows "head s' = next_head s"
  using assms by (cases s food width height g rule: slither_cases) (auto simp: head_def)

text \<open>
  What a move keeps of the relation between the snake, the food and the grid:
  the food stays off the body, and the body without the new head is part of
  the old body.
\<close>

lemma slither_food_off_body:
  assumes "body s \<noteq> []" and "\<not> eating s" and "food \<notin> set (body s)"
    and "in_grid width height food"
    and "slither s food width height g = returns (s', food', g')"
  shows "food' \<notin> set (body s')" and "in_grid width height food'"
  using assms set_tl_subset [of "body s"]
  by (cases s food width height g rule: slither_cases;
      auto simp: will_eat_def candidate_in_grid)+

lemma slither_front:
  assumes "body s \<noteq> []" and "slither s food width height g = returns (s', food', g')"
  shows "set (butlast (body s')) \<subseteq> set (body s)"
    and "distinct (body s) \<Longrightarrow> distinct (butlast (body s'))"
  using assms set_tl_subset [of "body s"]
  by (cases s food width height g rule: slither_cases; auto simp: distinct_tl)+

lemmas snek_ops_eval [snek_eval] =
  slither_eq will_eat_def next_head_def head_def snek_new_def dead_def snek_score_def
  change_direction_def snek_inv_def

section \<open>Properties of the operations\<close>

text \<open>
  C1 (\<open>slither\<close>, the plain move). A snake with a non-empty body that is not
  eating and whose next head is not the food takes one step: the new head,
  the old head moved by the vector of the direction, is appended, the oldest
  segment is removed, every other field, the food and the random number
  generator are unchanged, and the call returns.
\<close>

theorem slither_moves:
  assumes "body s \<noteq> []" and "\<not> eating s" and "next_head s \<noteq> food"
  shows "slither s food width height g =
    returns (s\<lparr>body := tl (body s) @ [point_add (last (body s)) (to_vector (direction s))]\<rparr>,
      food, g)"
  using assms by (simp add: slither_def next_head_def head_def Let_def)

theorem slither_moves_witness:
  "slither (snek_new [Point 2 2, Point 2 1, Point 2 0, Point 3 0]) (Point 9 9) 17 15 (sconst 0) =
    returns (\<lparr>body = [Point 2 1, Point 2 0, Point 3 0, Point 4 0], start_len = 4,
      direction = Right, eating = False, alive = True\<rparr>, Point 9 9, sconst 0)"
  using slither_moves [of "snek_new [Point 2 2, Point 2 1, Point 2 0, Point 3 0]" "Point 9 9"
      17 15 "sconst 0"]
  by (simp add: next_head_def head_def snek_new_def)

text \<open>
  C2 (\<open>slither\<close>, eating). When the next head is the food and the call
  returns, the body has grown by exactly the new head with the old tail kept,
  the eating flag is clear again, the other fields are unchanged, and the new
  food is a cell of the grid that is not on the grown body.
\<close>

theorem slither_grows:
  assumes "body s \<noteq> []" and "next_head s = food"
    and "slither s food width height g = returns (s', food', g')"
  shows "body s' = body s @ [food] \<and> \<not> eating s' \<and>
    direction s' = direction s \<and> start_len s' = start_len s \<and> alive s' = alive s \<and>
    food' \<notin> set (body s') \<and> in_grid width height food'"
proof -
  from assms have "rand_point width height (body s @ [food]) g = returns (food', g')"
    and s': "s' = s\<lparr>body := body s @ [food], eating := False\<rparr>"
    by (auto simp: slither_def Let_def head_def next_head_def run_then_eq_returns_iff)
  then show ?thesis
    by (cases width height "body s @ [food]" g rule: rand_point_cases)
      (auto simp: candidate_in_grid)
qed

theorem slither_grows_witness:
  "slither (snek_new STARTING_BODY) (Point 4 0) 5 5 (0 ## 1 ## sconst 0) =
     returns (\<lparr>body = [Point 0 0, Point 1 0, Point 2 0, Point 3 0, Point 4 0], start_len = 4,
       direction = Right, eating = False, alive = True\<rparr>, Point 0 1, sconst 0) \<and>
   Point 0 1 \<notin> set [Point 0 0, Point 1 0, Point 2 0, Point 3 0, Point 4 0] \<and>
   in_grid 5 5 (Point 0 1)"
proof -
  have run: "slither (snek_new STARTING_BODY) (Point 4 0) 5 5 (0 ## 1 ## sconst 0) =
     returns (\<lparr>body = [Point 0 0, Point 1 0, Point 2 0, Point 3 0, Point 4 0], start_len = 4,
       direction = Right, eating = False, alive = True\<rparr>, Point 0 1, sconst 0)"
    by (simp add: slither_eq will_eat_def next_head_def head_def snek_new_def STARTING_BODY_def
        rand_point_unfold proper_grid_def candidate_def snek_eval)
  have "next_head (snek_new STARTING_BODY) = Point 4 0"
    by (simp add: next_head_def head_def STARTING_BODY_def)
  from slither_grows [OF _ this run] run show ?thesis
    by (simp add: STARTING_BODY_def)
qed

text \<open>
  A snake with a non-empty body on a grid with positive dimensions returns
  from \<open>slither\<close> whenever the generator offers some point that is neither on
  the body nor the next head: the call neither panics nor stays in the loop
  of the food placement.
\<close>

lemma slither_returns:
  assumes "body s \<noteq> []" and "proper_grid width height"
    and "candidate width height g n \<notin> set (body s @ [next_head s])"
  shows "\<exists>s' food' g'. slither s food width height g = returns (s', food', g')"
  using assms by (cases s food width height g rule: slither_cases) auto

text \<open>
  C31 (\<open>slither\<close>, the full grid). When the snake eats and the grown body
  covers every cell of the grid, \<open>slither\<close> never returns: the food placement
  finds no free cell and has no bound on its retries.
\<close>

theorem slither_hangs_on_full_grid:
  assumes "body s \<noteq> []" and "next_head s = food"
    and "0 <s width" and "0 <s height"
    and "\<forall>p \<in> set (grid_cells width height). p \<in> set (body s @ [food])"
  shows "slither s food width height g = diverges"
proof -
  from assms(3,4) have proper: "proper_grid width height"
    by (simp add: proper_grid_def)
  from proper_grid_bounds(1,2) [OF proper]
  have "in_grid width height p \<longleftrightarrow> p \<in> set (grid_cells width height)" for p
    by (rule in_grid_iff_grid_cells)
  with assms(5) have "\<forall>p. in_grid width height p \<longrightarrow> p \<in> set (body s @ [food])"
    by blast
  with proper have "rand_point width height (body s @ [food]) g = diverges"
    by (rule rand_point_full_grid)
  with assms(1,2) show ?thesis
    by (simp add: slither_eq will_eat_def)
qed

theorem slither_hangs_on_full_grid_witness:
  "slither (snek_new STARTING_BODY) (Point 4 0) 5 1 (siterate Suc 0) = diverges"
  using slither_hangs_on_full_grid [of "snek_new STARTING_BODY" "Point 4 0" 5 1 "siterate Suc 0"]
  by (simp add: next_head_def head_def geometry_eval word_sless_alt)

text \<open>
  C36 (\<open>slither\<close>, the panics). \<open>slither\<close> panics in exactly two situations: on
  an empty body, where reading the head fails, and when the snake eats on a
  grid one of whose dimensions is not positive as an \<^verbatim>\<open>i32\<close>, where the random
  number generator is given an empty range.
\<close>

theorem slither_panics_iff:
  "slither s food width height g = panics e \<longleftrightarrow>
     (body s = [] \<and> e = UnwrapNone) \<or>
     (body s \<noteq> [] \<and> will_eat s food \<and> (sint width \<le> 0 \<or> sint height \<le> 0) \<and> e = EmptyRange)"
  by (cases s food width height g rule: slither_cases)
    (auto simp: proper_grid_def word_sless_alt)

text \<open>
  C3 (\<open>dead\<close>). For a non-empty body and grid dimensions below \<open>2\<^sup>3\<^sup>1\<close>,
  \<open>dead\<close> returns true exactly when the head equals another segment of the
  body or lies outside \<open>[0, width) \<times> [0, height)\<close>.
\<close>

theorem dead_iff:
  assumes "body s \<noteq> []" and "uint width < 2 ^ 31" and "uint height < 2 ^ 31"
  shows "dead s width height =
    Inr (last (body s) \<in> set (butlast (body s)) \<or> \<not> in_grid width height (last (body s)))"
  using assms off_grid_iff [of width height "head s"]
  by (auto simp: dead_def head_def)

theorem dead_iff_witness:
  "dead (snek_new [Point 14 0, Point 15 0, Point 16 0, Point 17 0]) 17 15 = Inr True \<and>
   dead (snek_new [Point 1 0, Point 1 1, Point 0 1, Point 0 0, Point 1 0]) 17 15 = Inr True \<and>
   dead (snek_new STARTING_BODY) 17 15 = Inr False"
  using dead_iff [of "snek_new [Point 14 0, Point 15 0, Point 16 0, Point 17 0]" 17 15]
    dead_iff [of "snek_new [Point 1 0, Point 1 1, Point 0 1, Point 0 0, Point 1 0]" 17 15]
    dead_iff [of "snek_new STARTING_BODY" 17 15]
  by (simp add: in_grid_def STARTING_BODY_def)

text \<open>\<open>dead\<close> panics exactly on an empty body, where there is no head to read.\<close>

lemma dead_panics_iff:
  "dead s width height = Inl e \<longleftrightarrow> body s = [] \<and> e = UnwrapNone"
  by (cases "body s = []") (auto simp: dead_nonempty)

text \<open>
  A request for the opposite of the current direction is ignored and every
  other request is taken; so the direction after \<open>change_direction\<close> is never
  the opposite of the direction before it, and no other field changes.
\<close>

lemma change_direction_spec:
  "change_direction s d = (if d = opposite (direction s) then s else s\<lparr>direction := d\<rparr>) \<and>
   direction (change_direction s d) \<noteq> opposite (direction s)"
  by (cases "direction s"; cases d) (simp_all add: change_direction_def)

text \<open>
  C21 (the invariant of the snake). A body that is not empty, a clear eating
  flag and a start length that does not exceed the length of the body are
  established by \<open>snek_new\<close> on a non-empty starting body and kept by every
  \<open>slither\<close> that returns and by \<open>change_direction\<close>; the body grows by one
  segment exactly when the snake eats.
\<close>

theorem snek_inv_preserved:
  assumes "snek_inv s" and "slither s food width height g = returns (s', food', g')"
  shows "snek_inv s' \<and> snek_inv (change_direction s' d) \<and>
    length (body s') = (if next_head s = food then Suc (length (body s)) else length (body s))"
proof -
  from assms(1) have "body s \<noteq> []" and "\<not> eating s"
    by (simp_all add: snek_inv_def)
  with slither_length [OF _ assms(2)] snek_inv_slither [OF assms] show ?thesis
    by (simp add: will_eat_def)
qed

theorem snek_inv_preserved_witness:
  "snek_inv (snek_new STARTING_BODY) \<and>
   slither (snek_new STARTING_BODY) (Point 9 9) 17 15 (sconst 0) =
     returns ((snek_new STARTING_BODY)\<lparr>body := [Point 1 0, Point 2 0, Point 3 0, Point 4 0]\<rparr>,
       Point 9 9, sconst 0) \<and>
   snek_inv ((snek_new STARTING_BODY)\<lparr>body := [Point 1 0, Point 2 0, Point 3 0, Point 4 0]\<rparr>)"
proof -
  have inv: "snek_inv (snek_new STARTING_BODY)"
    by (simp add: snek_inv_new STARTING_BODY_def)
  have run: "slither (snek_new STARTING_BODY) (Point 9 9) 17 15 (sconst 0) =
     returns ((snek_new STARTING_BODY)\<lparr>body := [Point 1 0, Point 2 0, Point 3 0, Point 4 0]\<rparr>,
       Point 9 9, sconst 0)"
    by (simp add: slither_eq will_eat_def next_head_def head_def STARTING_BODY_def)
  from snek_inv_preserved [OF inv run] inv run show ?thesis
    by simp
qed

end
