(* ===== verification/Engine.thy ===== *)
theory Engine
  imports Snek_Prelude
begin

text \<open>
  The render and input adapter: the part of the \<^verbatim>\<open>console_engine\<close> crate that
  \<^verbatim>\<open>src/main.rs\<close> calls. None of it is code of the repository; it is
  modelled from the interface the specification lists (set a cell, fill a
  rectangle, print a string, flush, clear, wait for the next frame, query a
  key, set the title, initialise) so that the game loop has something to run
  against.

  The frame buffer is a function from (column, row) to a pixel; writes
  outside the screen are dropped, as the crate does. Flushing appends the
  buffer to \<open>frames\<close>, the list of frames the terminal has shown. The player
  is the stream \<open>key_events\<close> of the keys pressed during each frame to come;
  \<open>wait_frame\<close> moves the head of that stream into \<open>keys_pressed\<close>, which
  \<open>is_key_pressed\<close> reads. Initialisation fails when the terminal is smaller
  than the screen asked for.
\<close>

section \<open>Keys, colours and pixels\<close>

datatype keycode = KeyChar char | KeyEsc | KeyUp | KeyDown | KeyLeft | KeyRight

datatype color = Reset | Black | Red | Green | Blue

record pixel =
  fg :: color
  bg :: color
  chr :: char

definition pxl :: "char \<Rightarrow> pixel" where
  "pxl c = \<lparr>fg = Reset, bg = Reset, chr = c\<rparr>"

definition pxl_bg :: "char \<Rightarrow> color \<Rightarrow> pixel" where
  "pxl_bg c b = \<lparr>fg = Reset, bg = b, chr = c\<rparr>"

definition pxl_fbg :: "char \<Rightarrow> color \<Rightarrow> color \<Rightarrow> pixel" where
  "pxl_fbg c f b = \<lparr>fg = f, bg = b, chr = c\<rparr>"

section \<open>The engine\<close>

type_synonym frame = "nat \<times> nat \<Rightarrow> pixel"

record engine =
  scr_width :: u32
  scr_height :: u32
  target_fps :: u32
  title :: string
  screen :: frame
  frames :: "frame list"
  keys_pressed :: "keycode list"
  key_events :: "keycode list stream"

record terminal =
  term_cols :: u32
  term_rows :: u32
  player :: "keycode list stream"

definition init :: "u32 \<Rightarrow> u32 \<Rightarrow> u32 \<Rightarrow> terminal \<Rightarrow> engine option" where
  "init w h f t =
     (if term_cols t < w \<or> term_rows t < h then None
      else Some \<lparr>scr_width = w, scr_height = h, target_fps = f, title = [],
        screen = (\<lambda>_. pxl CHR '' ''), frames = [], keys_pressed = [],
        key_events = player t\<rparr>)"

definition get_width :: "engine \<Rightarrow> u32" where
  "get_width e = scr_width e"

definition get_height :: "engine \<Rightarrow> u32" where
  "get_height e = scr_height e"

definition set_title :: "engine \<Rightarrow> string \<Rightarrow> engine" where
  "set_title e t = e\<lparr>title := t\<rparr>"

definition on_screen :: "engine \<Rightarrow> int \<Rightarrow> int \<Rightarrow> bool" where
  "on_screen e c r \<longleftrightarrow> 0 \<le> c \<and> 0 \<le> r \<and> c < sint (scr_width e) \<and> r < sint (scr_height e)"

definition set_pxl :: "engine \<Rightarrow> i32 \<Rightarrow> i32 \<Rightarrow> pixel \<Rightarrow> engine" where
  "set_pxl e x y p =
     (if on_screen e (sint x) (sint y)
      then e\<lparr>screen := (screen e)((nat (sint x), nat (sint y)) := p)\<rparr>
      else e)"

definition fill :: "engine \<Rightarrow> pixel \<Rightarrow> engine" where
  "fill e p = e\<lparr>screen := (\<lambda>_. p)\<rparr>"

definition fill_rect :: "engine \<Rightarrow> i32 \<Rightarrow> i32 \<Rightarrow> i32 \<Rightarrow> i32 \<Rightarrow> pixel \<Rightarrow> engine" where
  "fill_rect e start_x start_y end_x end_y p =
     e\<lparr>screen := (\<lambda>(c, r).
       if on_screen e (int c) (int r)
         \<and> min (sint start_x) (sint end_x) \<le> int c \<and> int c \<le> max (sint start_x) (sint end_x)
         \<and> min (sint start_y) (sint end_y) \<le> int r \<and> int r \<le> max (sint start_y) (sint end_y)
       then p else screen e (c, r))\<rparr>"

definition print_fbg :: "engine \<Rightarrow> i32 \<Rightarrow> i32 \<Rightarrow> string \<Rightarrow> color \<Rightarrow> color \<Rightarrow> engine" where
  "print_fbg e x y s f b =
     e\<lparr>screen := (\<lambda>(c, r).
       if on_screen e (int c) (int r) \<and> int r = sint y
         \<and> sint x \<le> int c \<and> int c < sint x + int (length s)
       then pxl_fbg (s ! nat (int c - sint x)) f b else screen e (c, r))\<rparr>"

definition engine_draw :: "engine \<Rightarrow> engine" where
  "engine_draw e = e\<lparr>frames := frames e @ [screen e]\<rparr>"

definition clear_screen :: "engine \<Rightarrow> engine" where
  "clear_screen e = e\<lparr>screen := (\<lambda>_. pxl CHR '' '')\<rparr>"

definition wait_frame :: "engine \<Rightarrow> engine" where
  "wait_frame e = e\<lparr>keys_pressed := shd (key_events e), key_events := stl (key_events e)\<rparr>"

definition is_key_pressed :: "engine \<Rightarrow> keycode \<Rightarrow> bool" where
  "is_key_pressed e k \<longleftrightarrow> k \<in> set (keys_pressed e)"

lemmas engine_ops [snek_defs] =
  pxl_def pxl_bg_def pxl_fbg_def init_def get_width_def get_height_def set_title_def
  on_screen_def set_pxl_def fill_def fill_rect_def print_fbg_def engine_draw_def
  clear_screen_def wait_frame_def is_key_pressed_def

section \<open>Frame properties of the operations\<close>

text \<open>
  Drawing touches the frame buffer only; flushing, clearing and waiting leave
  the dimensions alone; only \<open>wait_frame\<close> consumes input.
\<close>

lemma set_pxl_sel [simp]:
  "scr_width (set_pxl e x y p) = scr_width e"
  "scr_height (set_pxl e x y p) = scr_height e"
  "frames (set_pxl e x y p) = frames e"
  "keys_pressed (set_pxl e x y p) = keys_pressed e"
  "key_events (set_pxl e x y p) = key_events e"
  "title (set_pxl e x y p) = title e"
  by (simp_all add: set_pxl_def)

lemma fill_sel [simp]:
  "scr_width (fill e p) = scr_width e"
  "scr_height (fill e p) = scr_height e"
  "frames (fill e p) = frames e"
  "keys_pressed (fill e p) = keys_pressed e"
  "key_events (fill e p) = key_events e"
  "title (fill e p) = title e"
  by (simp_all add: fill_def)

lemma fill_rect_sel [simp]:
  "scr_width (fill_rect e a b c d p) = scr_width e"
  "scr_height (fill_rect e a b c d p) = scr_height e"
  "frames (fill_rect e a b c d p) = frames e"
  "keys_pressed (fill_rect e a b c d p) = keys_pressed e"
  "key_events (fill_rect e a b c d p) = key_events e"
  "title (fill_rect e a b c d p) = title e"
  by (simp_all add: fill_rect_def)

lemma print_fbg_sel [simp]:
  "scr_width (print_fbg e x y s f b) = scr_width e"
  "scr_height (print_fbg e x y s f b) = scr_height e"
  "frames (print_fbg e x y s f b) = frames e"
  "keys_pressed (print_fbg e x y s f b) = keys_pressed e"
  "key_events (print_fbg e x y s f b) = key_events e"
  "title (print_fbg e x y s f b) = title e"
  by (simp_all add: print_fbg_def)

lemma engine_draw_sel [simp]:
  "scr_width (engine_draw e) = scr_width e"
  "scr_height (engine_draw e) = scr_height e"
  "screen (engine_draw e) = screen e"
  "frames (engine_draw e) = frames e @ [screen e]"
  "keys_pressed (engine_draw e) = keys_pressed e"
  "key_events (engine_draw e) = key_events e"
  "title (engine_draw e) = title e"
  by (simp_all add: engine_draw_def)

lemma clear_screen_sel [simp]:
  "scr_width (clear_screen e) = scr_width e"
  "scr_height (clear_screen e) = scr_height e"
  "frames (clear_screen e) = frames e"
  "keys_pressed (clear_screen e) = keys_pressed e"
  "key_events (clear_screen e) = key_events e"
  "title (clear_screen e) = title e"
  by (simp_all add: clear_screen_def)

lemma wait_frame_sel [simp]:
  "scr_width (wait_frame e) = scr_width e"
  "scr_height (wait_frame e) = scr_height e"
  "screen (wait_frame e) = screen e"
  "frames (wait_frame e) = frames e"
  "keys_pressed (wait_frame e) = shd (key_events e)"
  "key_events (wait_frame e) = stl (key_events e)"
  "title (wait_frame e) = title e"
  by (simp_all add: wait_frame_def)

lemma set_title_sel [simp]:
  "scr_width (set_title e t) = scr_width e"
  "scr_height (set_title e t) = scr_height e"
  "screen (set_title e t) = screen e"
  "frames (set_title e t) = frames e"
  "keys_pressed (set_title e t) = keys_pressed e"
  "key_events (set_title e t) = key_events e"
  "title (set_title e t) = t"
  by (simp_all add: set_title_def)

lemma get_dims [simp]:
  "get_width e = scr_width e" "get_height e = scr_height e"
  by (simp_all add: get_width_def get_height_def)

lemma init_eq_Some_iff:
  "init w h f t = Some e \<longleftrightarrow>
     w \<le> term_cols t \<and> h \<le> term_rows t \<and>
     e = \<lparr>scr_width = w, scr_height = h, target_fps = f, title = [],
       screen = (\<lambda>_. pxl CHR '' ''), frames = [], keys_pressed = [], key_events = player t\<rparr>"
  by (auto simp: init_def not_less)

lemma init_eq_None_iff: "init w h f t = None \<longleftrightarrow> term_cols t < w \<or> term_rows t < h"
  by (simp add: init_def)

section \<open>Reading the frame buffer after a write\<close>

text \<open>
  What a write leaves in the frame buffer: \<open>set_pxl\<close> updates one cell when
  it is on the screen, \<open>fill\<close> covers every cell and \<open>fill_rect\<close> the cells of the
  rectangle, and \<open>print_fbg\<close> touches one row only.
\<close>

lemma screen_set_pxl:
  "screen (set_pxl e x y p) =
     (if on_screen e (sint x) (sint y) then (screen e)((nat (sint x), nat (sint y)) := p)
      else screen e)"
  by (simp add: set_pxl_def)

lemma on_screen_cong:
  "scr_width e' = scr_width e \<Longrightarrow> scr_height e' = scr_height e \<Longrightarrow> on_screen e' = on_screen e"
  by (simp add: on_screen_def fun_eq_iff)

lemma screen_fill:
  "screen (fill e p) = (\<lambda>_. p)"
  by (simp add: fill_def)

lemma screen_fill_rect:
  assumes "on_screen e (int c) (int r)" and "sint x1 \<le> sint x2" and "sint y1 \<le> sint y2"
  shows "screen (fill_rect e x1 y1 x2 y2 p) (c, r) =
    (if sint x1 \<le> int c \<and> int c \<le> sint x2 \<and> sint y1 \<le> int r \<and> int r \<le> sint y2
     then p else screen e (c, r))"
  using assms by (simp add: fill_rect_def min_absorb1 max_absorb2)

lemma screen_print_fbg:
  assumes "on_screen e (int c) (int r)"
  shows "screen (print_fbg e x y s f b) (c, r) =
    (if int r = sint y \<and> sint x \<le> int c \<and> int c < sint x + int (length s)
     then pxl_fbg (s ! nat (int c - sint x)) f b else screen e (c, r))"
  using assms by (simp add: print_fbg_def)

end
