(* ===== verification/Game.thy ===== *)
theory Game
  imports Snek Engine
begin

text \<open>
  The struct \<^verbatim>\<open>Game\<close> of \<^verbatim>\<open>src/main.rs\<close>: the snake, the food, the pause flag,
  the engine and the dimensions of the grid, with the constants of the
  program and the methods that do not draw: \<^verbatim>\<open>new\<close>, \<^verbatim>\<open>score\<close>, \<^verbatim>\<open>quit\<close> and
  \<^verbatim>\<open>input\<close>. The thread-local random number generator is the only state
  outside the struct; \<open>game_new\<close> takes it and returns it.
\<close>

section \<open>Constants\<close>

definition WIDTH :: u32 where "WIDTH = 17"
definition HEIGHT :: u32 where "HEIGHT = 15"
definition FPS :: u32 where "FPS = 8"

definition QUIT_KEY :: keycode where "QUIT_KEY = KeyChar CHR ''q''"
definition PAUSE_KEY :: keycode where "PAUSE_KEY = KeyEsc"
definition UP_KEY :: keycode where "UP_KEY = KeyUp"
definition DOWN_KEY :: keycode where "DOWN_KEY = KeyDown"
definition LEFT_KEY :: keycode where "LEFT_KEY = KeyLeft"
definition RIGHT_KEY :: keycode where "RIGHT_KEY = KeyRight"

lemmas key_defs [snek_eval] =
  QUIT_KEY_def PAUSE_KEY_def UP_KEY_def DOWN_KEY_def LEFT_KEY_def RIGHT_KEY_def

lemmas dim_defs [snek_eval] = WIDTH_def HEIGHT_def FPS_def

section \<open>State\<close>

record game =
  snek :: snek
  food :: point
  paused :: bool
  engine :: engine
  width :: u32
  height :: u32

section \<open>Operations\<close>

definition game_new :: "u32 \<Rightarrow> u32 \<Rightarrow> u32 \<Rightarrow> point list \<Rightarrow> terminal \<Rightarrow> rng \<Rightarrow> (game \<times> rng) outcome" where
  "game_new w h f starting_body t g =
     run_then (rand_point w h starting_body g) (\<lambda>(p, g').
     run_then (Some (expect (init (w * 2 + 4) (h + 2) f t))) (\<lambda>e.
     returns (\<lparr>snek = snek_new starting_body, food = p, paused = False, engine = e,
       width = w, height = h\<rparr>, g')))"

definition game_score :: "game \<Rightarrow> usize" where
  "game_score gm = snek_score (snek gm)"

definition quit :: "game \<Rightarrow> bool" where
  "quit gm = is_key_pressed (engine gm) QUIT_KEY"

definition input :: "game \<Rightarrow> game" where
  "input gm =
     (if is_key_pressed (engine gm) PAUSE_KEY then gm\<lparr>paused := \<not> paused gm\<rparr>
      else if is_key_pressed (engine gm) UP_KEY
        then gm\<lparr>snek := change_direction (snek gm) Up\<rparr>
      else if is_key_pressed (engine gm) DOWN_KEY
        then gm\<lparr>snek := change_direction (snek gm) Down\<rparr>
      else if is_key_pressed (engine gm) LEFT_KEY
        then gm\<lparr>snek := change_direction (snek gm) Left\<rparr>
      else if is_key_pressed (engine gm) RIGHT_KEY
        then gm\<lparr>snek := change_direction (snek gm) Right\<rparr>
      else gm)"

section \<open>Specification vocabulary\<close>

text \<open>
  What one poll of the keyboard asks of the game: the first key of the
  priority order pause, up, down, left, right that is pressed.
\<close>

datatype command = Toggle_Pause | Turn direction | Nothing

definition command_of :: "keycode list \<Rightarrow> command" where
  "command_of ks =
     (if KeyEsc \<in> set ks then Toggle_Pause
      else if KeyUp \<in> set ks then Turn Up
      else if KeyDown \<in> set ks then Turn Down
      else if KeyLeft \<in> set ks then Turn Left
      else if KeyRight \<in> set ks then Turn Right
      else Nothing)"

fun apply_command :: "command \<Rightarrow> game \<Rightarrow> game" where
  "apply_command Toggle_Pause gm = gm\<lparr>paused := \<not> paused gm\<rparr>"
| "apply_command (Turn d) gm = gm\<lparr>snek := change_direction (snek gm) d\<rparr>"
| "apply_command Nothing gm = gm"

text \<open>The key that asks for a direction.\<close>

fun key_of :: "direction \<Rightarrow> keycode" where
  "key_of Up = KeyUp"
| "key_of Down = KeyDown"
| "key_of Left = KeyLeft"
| "key_of Right = KeyRight"

lemmas game_ops [snek_defs] = game_new_def game_score_def quit_def input_def

section \<open>Input\<close>

lemma input_eq_apply_command:
  "input gm = apply_command (command_of (keys_pressed (engine gm))) gm"
  by (simp add: input_def command_of_def is_key_pressed_def key_defs)

lemma command_of_key_of [simp]: "command_of [key_of d] = Turn d"
  by (cases d) (simp_all add: command_of_def)

lemma key_of_not_quit [simp]: "KeyChar c \<noteq> key_of d"
  by (cases d) simp_all

lemma command_of_Nil [simp]: "command_of [] = Nothing"
  by (simp add: command_of_def)

lemma command_of_Esc [simp]: "command_of [KeyEsc] = Toggle_Pause"
  by (simp add: command_of_def)

lemma apply_command_sel [simp]:
  "food (apply_command c gm) = food gm"
  "engine (apply_command c gm) = engine gm"
  "width (apply_command c gm) = width gm"
  "height (apply_command c gm) = height gm"
  "body (snek (apply_command c gm)) = body (snek gm)"
  "eating (snek (apply_command c gm)) = eating (snek gm)"
  "alive (snek (apply_command c gm)) = alive (snek gm)"
  "start_len (snek (apply_command c gm)) = start_len (snek gm)"
  by (cases c; simp)+

lemma input_sel [simp]:
  "food (input gm) = food gm"
  "engine (input gm) = engine gm"
  "width (input gm) = width gm"
  "height (input gm) = height gm"
  "body (snek (input gm)) = body (snek gm)"
  "eating (snek (input gm)) = eating (snek gm)"
  "alive (snek (input gm)) = alive (snek gm)"
  "start_len (snek (input gm)) = start_len (snek gm)"
  by (simp_all add: input_eq_apply_command)

lemma snek_inv_input [simp]: "snek_inv (snek (input gm)) = snek_inv (snek gm)"
  by (simp add: snek_inv_def)

lemma direction_input:
  "direction (snek (input gm)) \<noteq> opposite (direction (snek gm))"
  by (cases "command_of (keys_pressed (engine gm))")
    (simp_all add: input_eq_apply_command)

lemma paused_input:
  "paused (input gm) \<longleftrightarrow> (paused gm \<noteq> (KeyEsc \<in> set (keys_pressed (engine gm))))"
  by (auto simp: input_eq_apply_command command_of_def)

section \<open>Construction\<close>

lemma game_new_cases:
  obtains (no_grid) "\<not> proper_grid w h" "game_new w h f b t g = panics EmptyRange"
    | (hang) "proper_grid w h" "\<forall>n. candidate w h g n \<in> set b"
        "game_new w h f b t g = diverges"
    | (no_terminal) "proper_grid w h" "\<exists>n. candidate w h g n \<notin> set b"
        "term_cols t < w * 2 + 4 \<or> term_rows t < h + 2"
        "game_new w h f b t g = panics ExpectFailed"
    | (start) n e where "proper_grid w h" "candidate w h g n \<notin> set b"
        "\<forall>i<n. candidate w h g i \<in> set b"
        "init (w * 2 + 4) (h + 2) f t = Some e"
        "game_new w h f b t g =
           returns (\<lparr>snek = snek_new b, food = candidate w h g n, paused = False, engine = e,
             width = w, height = h\<rparr>, sdrop (2 * Suc n) g)"
proof (cases w h b g rule: rand_point_cases)
  case panic
  then show ?thesis
    by (intro no_grid) (simp_all add: game_new_def)
next
  case diverge
  then show ?thesis
    by (intro hang) (simp_all add: game_new_def)
next
  case (return n)
  show ?thesis
  proof (cases "init (w * 2 + 4) (h + 2) f t")
    case None
    then have "term_cols t < w * 2 + 4 \<or> term_rows t < h + 2"
      by (simp add: init_eq_None_iff)
    with None return show ?thesis
      by (intro no_terminal) (auto simp: game_new_def)
  next
    case (Some e)
    with return show ?thesis
      by (intro start [of n e]) (simp_all add: game_new_def)
  qed
qed

lemma game_new_sel:
  assumes "game_new w h f b t g = returns (gm, g')"
  shows "snek gm = snek_new b" and "width gm = w" and "height gm = h" and "\<not> paused gm"
proof -
  from assms have "snek gm = snek_new b \<and> width gm = w \<and> height gm = h \<and> \<not> paused gm"
    by (cases w h f b t g rule: game_new_cases) auto
  then show "snek gm = snek_new b" and "width gm = w" and "height gm = h" and "\<not> paused gm"
    by simp_all
qed

lemma game_new_frames:
  assumes "game_new w h f b t g = returns (gm, g')"
  shows "frames (engine gm) = []"
  using assms by (cases w h f b t g rule: game_new_cases) (auto simp: init_eq_Some_iff)

section \<open>Properties of the operations\<close>

text \<open>
  C32 (\<open>Game::new\<close>, the result). When \<open>game_new\<close> returns, the game holds a
  fresh snake over the starting body, is not paused, has the dimensions asked
  for, and its food is a cell of the grid that is not a segment of the
  starting body; the engine has a screen of \<open>2 * width + 4\<close> columns and
  \<open>height + 2\<close> rows, has shown no frame yet and reads the keys of the player
  of the terminal.
\<close>

theorem game_new_starts:
  assumes "game_new w h f b t g = returns (gm, g')"
  shows "snek gm = snek_new b \<and> \<not> paused gm \<and> width gm = w \<and> height gm = h \<and>
    food gm \<notin> set b \<and> in_grid w h (food gm) \<and>
    scr_width (engine gm) = w * 2 + 4 \<and> scr_height (engine gm) = h + 2 \<and>
    frames (engine gm) = [] \<and> keys_pressed (engine gm) = [] \<and>
    key_events (engine gm) = player t"
  using assms
proof (cases w h f b t g rule: game_new_cases)
  case (start n e)
  with assms candidate_in_grid [of w h g n] show ?thesis
    by (auto simp: init_eq_Some_iff)
qed simp_all

theorem game_new_starts_witness:
  "\<exists>gm. game_new WIDTH HEIGHT FPS STARTING_BODY
       \<lparr>term_cols = 80, term_rows = 24, player = sconst []\<rparr> (3 ## 0 ## 7 ## 7 ## sconst 0) =
         returns (gm, sconst 0) \<and>
     food gm = Point 7 7 \<and> width gm = 17 \<and> scr_width (engine gm) = 38"
proof -
  have run: "game_new WIDTH HEIGHT FPS STARTING_BODY
      \<lparr>term_cols = 80, term_rows = 24, player = sconst []\<rparr> (3 ## 0 ## 7 ## 7 ## sconst 0) =
    returns (\<lparr>snek = snek_new STARTING_BODY, food = Point 7 7, paused = False,
      engine = \<lparr>scr_width = 38, scr_height = 17, target_fps = 8, title = [],
        screen = (\<lambda>_. pxl CHR '' ''), frames = [], keys_pressed = [],
        key_events = sconst []\<rparr>,
      width = 17, height = 15\<rparr>, sconst 0)"
    by (simp add: game_new_def init_def snek_eval)
  from game_new_starts [OF run] run show ?thesis
    by simp
qed

text \<open>
  C33 (\<open>Game::new\<close>, the panics). \<open>game_new\<close> panics in two cases only: with
  the panic of an empty range when a dimension of the grid is not positive as
  an \<^verbatim>\<open>i32\<close>, raised by the first draw of a food cell; and with the failed
  \<^verbatim>\<open>expect\<close> when the food has been placed and the terminal is smaller than
  the screen the game asks for.
\<close>

theorem game_new_panics_iff:
  "game_new w h f b t g = panics e \<longleftrightarrow>
     (e = EmptyRange \<and> \<not> proper_grid w h) \<or>
     (e = ExpectFailed \<and> proper_grid w h \<and> (\<exists>n. candidate w h g n \<notin> set b) \<and>
      (term_cols t < w * 2 + 4 \<or> term_rows t < h + 2))"
proof (cases w h f b t g rule: game_new_cases)
  case (start n e')
  then show ?thesis
    by (auto simp: init_eq_Some_iff)
qed auto

text \<open>
  C35 (\<open>Game::input\<close>). One poll of the keyboard toggles the pause flag
  exactly when the pause key is pressed, and then leaves the snake as it is;
  it never turns the snake to the opposite of its direction, and it changes
  neither the body nor the food.
\<close>

theorem input_spec:
  "paused (input gm) = (paused gm \<noteq> is_key_pressed (engine gm) PAUSE_KEY) \<and>
   (is_key_pressed (engine gm) PAUSE_KEY \<longrightarrow> snek (input gm) = snek gm) \<and>
   direction (snek (input gm)) \<noteq> opposite (direction (snek gm)) \<and>
   body (snek (input gm)) = body (snek gm) \<and> food (input gm) = food gm"
  using direction_input [of gm]
  by (auto simp: paused_input is_key_pressed_def key_defs)
    (simp_all add: input_def is_key_pressed_def key_defs)

theorem input_spec_witness:
  "paused (input \<lparr>snek = snek_new STARTING_BODY, food = Point 7 7, paused = False,
      engine = \<lparr>scr_width = 38, scr_height = 17, target_fps = 8, title = [],
        screen = (\<lambda>_. pxl CHR '' ''), frames = [], keys_pressed = [KeyUp, KeyEsc],
        key_events = sconst []\<rparr>,
      width = 17, height = 15\<rparr>) \<and>
   direction (snek (input \<lparr>snek = snek_new STARTING_BODY, food = Point 7 7, paused = False,
      engine = \<lparr>scr_width = 38, scr_height = 17, target_fps = 8, title = [],
        screen = (\<lambda>_. pxl CHR '' ''), frames = [], keys_pressed = [KeyUp, KeyEsc],
        key_events = sconst []\<rparr>,
      width = 17, height = 15\<rparr>)) = Right"
  using input_spec [of "\<lparr>snek = snek_new STARTING_BODY, food = Point 7 7, paused = False,
      engine = \<lparr>scr_width = 38, scr_height = 17, target_fps = 8, title = [],
        screen = (\<lambda>_. pxl CHR '' ''), frames = [], keys_pressed = [KeyUp, KeyEsc],
        key_events = sconst []\<rparr>,
      width = 17, height = 15\<rparr>"]
  by (simp add: is_key_pressed_def key_defs snek_new_def)

end
