(* ===== verification/Render.thy ===== *)
theory Render
  imports Game
begin

text \<open>
  The drawing methods of \<^verbatim>\<open>Game\<close> in \<^verbatim>\<open>src/main.rs\<close>: \<^verbatim>\<open>draw_map\<close>,
  \<^verbatim>\<open>draw_prompts\<close>, \<^verbatim>\<open>draw_food\<close>, \<^verbatim>\<open>draw_snek\<close> and their composition \<^verbatim>\<open>draw\<close>,
  with the colour, glyph and prompt constants. Each writes to the frame
  buffer of the engine and to nothing else. A grid cell \<open>(x, y)\<close> is drawn as
  the two screen cells \<open>(2x + 2, y + 1)\<close> and \<open>(2x + 3, y + 1)\<close>; the
  arithmetic is that of the source, on wrapping 32-bit words. \<open>draw_snek\<close>
  reads the head with \<^verbatim>\<open>last().unwrap()\<close> and so panics on an empty body.
\<close>

section \<open>Constants\<close>

definition MAP_COLOR :: color where "MAP_COLOR = Green"
definition BORDER_COLOR :: color where "BORDER_COLOR = Black"
definition FOOD_COLOR :: color where "FOOD_COLOR = Red"
definition SNEK_COLOR :: color where "SNEK_COLOR = Blue"
definition HEAD_COLOR :: color where "HEAD_COLOR = Black"

definition EYE_CHAR :: char where "EYE_CHAR = CHR ''^''"
definition DEAD_EYE_CHAR :: char where "DEAD_EYE_CHAR = CHR ''x''"
definition GAME_PROMPT :: string where "GAME_PROMPT = ''SNEK''"
definition PAUSE_PROMPT :: string where "PAUSE_PROMPT = ''PAUSED''"
definition SCORE_PROMPT :: string where "SCORE_PROMPT = ''SCORE: ''"

lemmas render_consts [snek_eval] =
  MAP_COLOR_def BORDER_COLOR_def FOOD_COLOR_def SNEK_COLOR_def HEAD_COLOR_def
  EYE_CHAR_def DEAD_EYE_CHAR_def GAME_PROMPT_def PAUSE_PROMPT_def SCORE_PROMPT_def

section \<open>Drawing\<close>

definition draw_map :: "game \<Rightarrow> game" where
  "draw_map gm =
     (let e1 = fill (engine gm) (pxl_bg CHR '' '' BORDER_COLOR);
          e2 = fill_rect e1 2 1 (get_width e1 - 3) (get_height e1 - 2) (pxl_bg CHR '' '' MAP_COLOR)
      in gm\<lparr>engine := e2\<rparr>)"

definition draw_prompts :: "game \<Rightarrow> game" where
  "draw_prompts gm =
     (let score = SCORE_PROMPT @ to_string (unat (game_score gm));
          mid = get_width (engine gm) div 2 - word_of_nat (length score) div 2;
          e1 = print_fbg (engine gm) mid (get_height (engine gm) - 1) score Reset BORDER_COLOR;
          prompt = (if paused gm then PAUSE_PROMPT else GAME_PROMPT);
          mid' = get_width e1 div 2 - word_of_nat (length prompt) div 2;
          e2 = print_fbg e1 mid' 0 prompt Reset BORDER_COLOR
      in gm\<lparr>engine := e2\<rparr>)"

definition draw_cell :: "engine \<Rightarrow> point \<Rightarrow> pixel \<Rightarrow> engine" where
  "draw_cell e p c =
     set_pxl (set_pxl e (px p * 2 + 2) (py p + 1) c) (px p * 2 + 3) (py p + 1) c"

definition draw_food :: "game \<Rightarrow> game" where
  "draw_food gm = gm\<lparr>engine := draw_cell (engine gm) (food gm) (pxl_bg CHR '' '' FOOD_COLOR)\<rparr>"

definition draw_snek :: "game \<Rightarrow> game result" where
  "draw_snek gm =
     (let e1 = foldl (\<lambda>e part. draw_cell e part (pxl_bg CHR '' '' SNEK_COLOR))
                 (engine gm) (body (snek gm))
      in and_then (unwrap (slice_last (body (snek gm)))) (\<lambda>head.
         let eye = (if alive (snek gm) then EYE_CHAR else DEAD_EYE_CHAR)
         in Inr (gm\<lparr>engine := draw_cell e1 head (pxl_fbg eye HEAD_COLOR SNEK_COLOR)\<rparr>)))"

definition draw :: "game \<Rightarrow> game result" where
  "draw gm = draw_snek (draw_food (draw_prompts (draw_map gm)))"

lemmas render_ops [snek_defs] =
  draw_map_def draw_prompts_def draw_cell_def draw_food_def draw_snek_def draw_def

section \<open>What drawing leaves alone\<close>

lemma draw_cell_sel [simp]:
  "scr_width (draw_cell e p c) = scr_width e"
  "scr_height (draw_cell e p c) = scr_height e"
  "frames (draw_cell e p c) = frames e"
  "keys_pressed (draw_cell e p c) = keys_pressed e"
  "key_events (draw_cell e p c) = key_events e"
  "title (draw_cell e p c) = title e"
  by (simp_all add: draw_cell_def)

lemma foldl_draw_cell_sel [simp]:
  "scr_width (foldl (\<lambda>e part. draw_cell e part c) e ps) = scr_width e"
  "scr_height (foldl (\<lambda>e part. draw_cell e part c) e ps) = scr_height e"
  "frames (foldl (\<lambda>e part. draw_cell e part c) e ps) = frames e"
  "keys_pressed (foldl (\<lambda>e part. draw_cell e part c) e ps) = keys_pressed e"
  "key_events (foldl (\<lambda>e part. draw_cell e part c) e ps) = key_events e"
  "title (foldl (\<lambda>e part. draw_cell e part c) e ps) = title e"
  by (induction ps arbitrary: e; simp)+

text \<open>
  Two games agree up to the frame buffer when they differ in nothing but the
  contents of the buffer.
\<close>

definition same_but_screen :: "game \<Rightarrow> game \<Rightarrow> bool" where
  "same_but_screen gm gm' \<longleftrightarrow>
     snek gm' = snek gm \<and> food gm' = food gm \<and> paused gm' = paused gm \<and>
     width gm' = width gm \<and> height gm' = height gm \<and>
     scr_width (engine gm') = scr_width (engine gm) \<and>
     scr_height (engine gm') = scr_height (engine gm) \<and>
     frames (engine gm') = frames (engine gm) \<and>
     keys_pressed (engine gm') = keys_pressed (engine gm) \<and>
     key_events (engine gm') = key_events (engine gm) \<and>
     title (engine gm') = title (engine gm)"

lemma same_but_screen_refl [simp]: "same_but_screen gm gm"
  by (simp add: same_but_screen_def)

lemma same_but_screen_trans [trans]:
  "same_but_screen a b \<Longrightarrow> same_but_screen b c \<Longrightarrow> same_but_screen a c"
  by (simp add: same_but_screen_def)

lemma draw_map_same [simp]: "same_but_screen gm (draw_map gm)"
  by (simp add: same_but_screen_def draw_map_def Let_def)

lemma draw_prompts_same [simp]: "same_but_screen gm (draw_prompts gm)"
  by (simp add: same_but_screen_def draw_prompts_def Let_def)

lemma draw_food_same [simp]: "same_but_screen gm (draw_food gm)"
  by (simp add: same_but_screen_def draw_food_def)

lemma draw_snek_empty [simp]: "body (snek gm) = [] \<Longrightarrow> draw_snek gm = Inl UnwrapNone"
  by (simp add: draw_snek_def)

lemma draw_snek_same:
  "draw_snek gm = Inr gm' \<Longrightarrow> same_but_screen gm gm'"
  by (auto simp: same_but_screen_def draw_snek_def Let_def split: if_splits)

lemma draw_snek_nonempty:
  "body (snek gm) \<noteq> [] \<Longrightarrow> \<exists>gm'. draw_snek gm = Inr gm'"
  by (simp add: draw_snek_def Let_def)

lemma draw_cases:
  obtains (empty) "body (snek gm) = []" "draw gm = Inl UnwrapNone"
    | (drawn) gm' where "body (snek gm) \<noteq> []" "draw gm = Inr gm'" "same_but_screen gm gm'"
proof (cases "body (snek gm) = []")
  case True
  have "same_but_screen gm (draw_food (draw_prompts (draw_map gm)))"
    by (blast intro: same_but_screen_trans draw_map_same draw_prompts_same draw_food_same)
  with True have "body (snek (draw_food (draw_prompts (draw_map gm)))) = []"
    by (simp add: same_but_screen_def)
  then show ?thesis
    by (intro empty [OF True]) (simp add: draw_def)
next
  case False
  have pre: "same_but_screen gm (draw_food (draw_prompts (draw_map gm)))"
    by (blast intro: same_but_screen_trans draw_map_same draw_prompts_same draw_food_same)
  with False have "body (snek (draw_food (draw_prompts (draw_map gm)))) \<noteq> []"
    by (simp add: same_but_screen_def)
  from draw_snek_nonempty [OF this] obtain gm'
    where gm': "draw_snek (draw_food (draw_prompts (draw_map gm))) = Inr gm'"
    by blast
  from pre draw_snek_same [OF gm'] have "same_but_screen gm gm'"
    by (rule same_but_screen_trans)
  with False gm' show ?thesis
    by (intro drawn [of gm']) (simp_all add: draw_def)
qed

section \<open>Properties of the operations\<close>

text \<open>
  Drawing a frame panics exactly when the body of the
  snake is empty, where \<open>draw_snek\<close> has no head to read; otherwise it
  returns a game that differs from the one it was given in nothing but the
  contents of the frame buffer: the snake, the food, the pause flag, the
  dimensions, the frames already shown and the keyboard are as before.
\<close>

lemma draw_spec:
  "(body (snek gm) = [] \<longrightarrow> draw gm = Inl UnwrapNone) \<and>
   (body (snek gm) \<noteq> [] \<longrightarrow> (\<exists>gm'. draw gm = Inr gm' \<and> same_but_screen gm gm'))"
  by (cases gm rule: draw_cases) auto

end
