(* ===== verification/Main_Loop.thy ===== *)
theory Main_Loop
  imports Render
begin

text \<open>
  The frame loop: \<^verbatim>\<open>Game::main_loop\<close> and \<^verbatim>\<open>main\<close> of \<^verbatim>\<open>src/main.rs\<close>.

  One iteration of the \<^verbatim>\<open>while\<close> loop is \<open>tick\<close>. It is composed of the three
  phases the body of the loop has: \<open>judge\<close> computes the \<^verbatim>\<open>alive\<close> flag from
  the quit key and \<open>dead\<close> (the quit key short-circuits the call of \<open>dead\<close>),
  \<open>draw\<close> renders the frame, and \<open>advance\<close> flushes and clears the frame
  buffer, waits for the next frame, polls the keyboard and, unless the game
  is paused, moves the snake. The loop itself may run forever (a player who
  never dies), so \<open>loop\<close> is a \<^theory_text>\<open>partial_function\<close> in the option monad;
  \<open>ticks\<close> is the same loop cut off after a number of iterations, and the two
  are related by \<open>loop_eq_Some_iff\<close>.
\<close>

section \<open>Constants\<close>

definition END_MESSAGE :: string where
  "END_MESSAGE =
     ''Due to your subpar prowess and deriliction of duty, the snek'' @ [CHR 0x27] @
     ''s concept of a subjective experience and consciousness has ceased to be...'' @
     [CHR 0x0A] @ ''Final Score: ''"

section \<open>One iteration\<close>

definition judge :: "game \<Rightarrow> game result" where
  "judge gm =
     and_then (if quit gm then Inr True else dead (snek gm) (width gm) (height gm)) (\<lambda>over.
     Inr (gm\<lparr>snek := (snek gm)\<lparr>alive := \<not> over\<rparr>\<rparr>))"

definition advance :: "game \<Rightarrow> rng \<Rightarrow> (game \<times> rng) outcome" where
  "advance gm g =
     (let gm1 = gm\<lparr>engine := wait_frame (clear_screen (engine_draw (engine gm)))\<rparr>;
          gm2 = input gm1
      in if \<not> paused gm2
         then run_then (slither (snek gm2) (food gm2) (width gm2) (height gm2) g) (\<lambda>(s, p, g').
                returns (gm2\<lparr>snek := s, food := p\<rparr>, g'))
         else returns (gm2, g))"

definition tick :: "game \<Rightarrow> rng \<Rightarrow> (game \<times> rng) outcome" where
  "tick gm g =
     run_then (Some (judge gm)) (\<lambda>gm1.
     run_then (Some (draw gm1)) (\<lambda>gm2.
     advance gm2 g))"

section \<open>The loop\<close>

partial_function (option) loop :: "game \<Rightarrow> rng \<Rightarrow> (game \<times> rng) outcome" where
  "loop gm g =
     (if alive (snek gm)
      then (case tick gm g of
              None \<Rightarrow> diverges
            | Some (Inl e) \<Rightarrow> panics e
            | Some (Inr (gm', g')) \<Rightarrow> loop gm' g')
      else returns (gm, g))"

definition main_loop :: "game \<Rightarrow> rng \<Rightarrow> (game \<times> rng) outcome" where
  "main_loop gm g = loop (gm\<lparr>engine := set_title (engine gm) ''SNEK''\<rparr>) g"

definition main :: "terminal \<Rightarrow> rng \<Rightarrow> string outcome" where
  "main t g =
     run_then (game_new WIDTH HEIGHT FPS STARTING_BODY t g) (\<lambda>(gm, g1).
     run_then (main_loop gm g1) (\<lambda>(gm', g2).
     returns (END_MESSAGE @ to_string (unat (game_score gm')))))"

section \<open>The loop cut off after a number of iterations\<close>

fun ticks :: "nat \<Rightarrow> game \<Rightarrow> rng \<Rightarrow> (game \<times> rng) outcome" where
  "ticks 0 gm g = returns (gm, g)"
| "ticks (Suc n) gm g =
     (if alive (snek gm)
      then run_then (tick gm g) (\<lambda>(gm', g'). ticks n gm' g')
      else returns (gm, g))"

lemmas loop_ops [snek_defs] = judge_def advance_def tick_def main_loop_def main_def

section \<open>Specification vocabulary\<close>

text \<open>
  \<open>game_over\<close> is the condition of the first line of the loop body. \<open>judged\<close>
  is the game after that line. \<open>game_inv\<close> is what holds of the game every time
  the loop condition is evaluated; \<open>reachable_from\<close> collects the states in
  which that happens. \<open>shown n gm g\<close> lists the games the first \<open>n\<close> iterations
  draw, in their order: the judged game of every iteration that begins with a
  live snake.
\<close>

definition game_over :: "game \<Rightarrow> bool" where
  "game_over gm \<longleftrightarrow> quit gm \<or> dead (snek gm) (width gm) (height gm) = Inr True"

definition judged :: "game \<Rightarrow> game" where
  "judged gm = gm\<lparr>snek := (snek gm)\<lparr>alive := \<not> game_over gm\<rparr>\<rparr>"

definition game_inv :: "game \<Rightarrow> bool" where
  "game_inv gm \<longleftrightarrow>
     snek_inv (snek gm) \<and> proper_grid (width gm) (height gm) \<and>
     food gm \<notin> set (body (snek gm)) \<and> in_grid (width gm) (height gm) (food gm) \<and>
     (alive (snek gm) \<longrightarrow>
        distinct (butlast (body (snek gm))) \<and>
        (\<forall>p \<in> set (butlast (body (snek gm))). in_grid (width gm) (height gm) p))"

fun shown :: "nat \<Rightarrow> game \<Rightarrow> rng \<Rightarrow> game list" where
  "shown 0 gm g = []"
| "shown (Suc n) gm g =
     (if alive (snek gm)
      then judged gm # (case tick gm g of Some (Inr (gm', g')) \<Rightarrow> shown n gm' g' | _ \<Rightarrow> [])
      else [])"

inductive reachable_from :: "game \<times> rng \<Rightarrow> game \<times> rng \<Rightarrow> bool" for start where
  initial: "reachable_from start start"
| iterate: "reachable_from start (gm, g) \<Longrightarrow> alive (snek gm) \<Longrightarrow>
     tick gm g = returns (gm', g') \<Longrightarrow> reachable_from start (gm', g')"

section \<open>The phases of an iteration\<close>

lemma judge_quit [simp]: "quit gm \<Longrightarrow> judge gm = Inr (judged gm)"
  by (simp add: judge_def judged_def game_over_def)

lemma judge_empty [simp]:
  "\<not> quit gm \<Longrightarrow> body (snek gm) = [] \<Longrightarrow> judge gm = Inl UnwrapNone"
  by (simp add: judge_def)

lemma judge_nonempty [simp]: "body (snek gm) \<noteq> [] \<Longrightarrow> judge gm = Inr (judged gm)"
  by (auto simp: judge_def judged_def game_over_def dead_nonempty)

lemma judged_sel [simp]:
  "food (judged gm) = food gm"
  "paused (judged gm) = paused gm"
  "engine (judged gm) = engine gm"
  "width (judged gm) = width gm"
  "height (judged gm) = height gm"
  "body (snek (judged gm)) = body (snek gm)"
  "direction (snek (judged gm)) = direction (snek gm)"
  "eating (snek (judged gm)) = eating (snek gm)"
  "start_len (snek (judged gm)) = start_len (snek gm)"
  "alive (snek (judged gm)) = (\<not> game_over gm)"
  by (simp_all add: judged_def)

lemma snek_inv_judged [simp]: "snek_inv (snek (judged gm)) = snek_inv (snek gm)"
  by (simp add: snek_inv_def)

text \<open>
  After the frame is drawn, the game is the judged game up to the contents of
  the frame buffer; an empty body makes the iteration panic, in \<open>judge\<close> or,
  when the quit key is pressed, in \<open>draw_snek\<close>.
\<close>

lemma tick_cases:
  obtains (empty) "body (snek gm) = []" "tick gm g = panics UnwrapNone"
    | (drawn) gm' where "body (snek gm) \<noteq> []" "draw (judged gm) = Inr gm'"
        "same_but_screen (judged gm) gm'" "tick gm g = advance gm' g"
proof (cases "body (snek gm) = []")
  case True
  show ?thesis
  proof (cases "quit gm")
    case False
    with True show ?thesis
      by (intro empty) (simp_all add: tick_def)
  next
    case quit: True
    from True have "draw (judged gm) = Inl UnwrapNone"
      by (cases "judged gm" rule: draw_cases) simp_all
    with True quit show ?thesis
      by (intro empty) (simp_all add: tick_def)
  qed
next
  case False
  then obtain gm' where "draw (judged gm) = Inr gm'" and "same_but_screen (judged gm) gm'"
    by (cases "judged gm" rule: draw_cases) simp_all
  with False show ?thesis
    by (intro drawn [of gm']) (simp_all add: tick_def)
qed

definition polled :: "game \<Rightarrow> game" where
  "polled gm = input (gm\<lparr>engine := wait_frame (clear_screen (engine_draw (engine gm)))\<rparr>)"

lemma advance_eq:
  "advance gm g =
     (if paused (polled gm) then returns (polled gm, g)
      else run_then (slither (snek (polled gm)) (food gm) (width gm) (height gm) g)
        (\<lambda>(s, p, g'). returns ((polled gm)\<lparr>snek := s, food := p\<rparr>, g')))"
  by (simp add: advance_def polled_def Let_def)

lemma polled_sel [simp]:
  "food (polled gm) = food gm"
  "width (polled gm) = width gm"
  "height (polled gm) = height gm"
  "body (snek (polled gm)) = body (snek gm)"
  "eating (snek (polled gm)) = eating (snek gm)"
  "alive (snek (polled gm)) = alive (snek gm)"
  "start_len (snek (polled gm)) = start_len (snek gm)"
  "engine (polled gm) = wait_frame (clear_screen (engine_draw (engine gm)))"
  by (simp_all add: polled_def)

lemma snek_inv_polled [simp]: "snek_inv (snek (polled gm)) = snek_inv (snek gm)"
  by (simp add: snek_inv_def)

lemma command_polled:
  "polled gm = apply_command (command_of (shd (key_events (engine gm))))
     (gm\<lparr>engine := wait_frame (clear_screen (engine_draw (engine gm)))\<rparr>)"
  by (simp add: polled_def input_eq_apply_command)

lemma paused_polled:
  "paused (polled gm) \<longleftrightarrow> (paused gm \<noteq> (KeyEsc \<in> set (shd (key_events (engine gm)))))"
  by (simp add: polled_def paused_input)

lemma direction_polled: "direction (snek (polled gm)) \<noteq> opposite (direction (snek gm))"
  using direction_input [of "gm\<lparr>engine := wait_frame (clear_screen (engine_draw (engine gm)))\<rparr>"]
  by (simp add: polled_def)

text \<open>
  The two ways an iteration returns: paused, with the polled game, or moved,
  with the snake and the food \<open>slither\<close> returned.
\<close>

lemma tick_returns_cases:
  assumes "tick gm g = returns (gm', g')"
  obtains (held) gm1 where "body (snek gm) \<noteq> []" "same_but_screen (judged gm) gm1"
        "paused (polled gm1)" "gm' = polled gm1" "g' = g" "draw (judged gm) = Inr gm1"
    | (moved) gm1 s p where "body (snek gm) \<noteq> []" "same_but_screen (judged gm) gm1"
        "\<not> paused (polled gm1)"
        "slither (snek (polled gm1)) (food gm) (width gm) (height gm) g = returns (s, p, g')"
        "gm' = (polled gm1)\<lparr>snek := s, food := p\<rparr>" "draw (judged gm) = Inr gm1"
proof (cases gm g rule: tick_cases)
  case empty
  with assms show ?thesis by simp
next
  case (drawn gm1)
  show ?thesis
  proof (cases "paused (polled gm1)")
    case True
    with assms drawn show ?thesis
      by (intro held [of gm1]) (simp_all add: advance_eq)
  next
    case False
    with assms drawn(4) obtain s p where
      "slither (snek (polled gm1)) (food gm1) (width gm1) (height gm1) g = returns (s, p, g')"
      and "gm' = (polled gm1)\<lparr>snek := s, food := p\<rparr>"
      by (auto simp: advance_eq run_then_eq_returns_iff)
    with drawn False show ?thesis
      by (intro moved [of gm1 s p]) (simp_all add: same_but_screen_def)
  qed
qed

text \<open>
  What an iteration leaves behind: the alive flag says whether the game was
  over when the iteration began, one frame has been shown, the frame \<open>draw\<close>
  made of the judged game, and the head has stayed or moved by one step.
\<close>

lemma tick_alive:
  assumes "tick gm g = returns (gm', g')"
  shows "alive (snek gm') \<longleftrightarrow> \<not> game_over gm"
  using assms
  by (cases rule: tick_returns_cases) (auto simp: same_but_screen_def dest: slither_frame(3))

lemma tick_frames:
  assumes "tick gm g = returns (gm', g')"
  obtains gm1 where "draw (judged gm) = Inr gm1"
    and "frames (engine gm') = frames (engine gm) @ [screen (engine gm1)]"
  using assms
  by (cases rule: tick_returns_cases) (auto simp: same_but_screen_def)

lemma tick_head:
  assumes "tick gm g = returns (gm', g')"
  shows "head (snek gm') = head (snek gm) \<or>
    head (snek gm') = point_add (head (snek gm)) (to_vector (direction (snek gm')))"
  using assms
proof (cases rule: tick_returns_cases)
  case (held gm1)
  then show ?thesis
    by (simp add: head_def same_but_screen_def)
next
  case (moved gm1 s p)
  from moved(2) have "body (snek (polled gm1)) = body (snek gm)"
    by (simp add: same_but_screen_def)
  with moved(1,5) slither_frame(1) [OF moved(4)] slither_head [OF _ moved(4)] show ?thesis
    by (simp add: next_head_def head_def)
qed

lemma tick_frame:
  assumes "tick gm g = returns (gm', g')"
  shows "width gm' = width gm" and "height gm' = height gm"
    and "start_len (snek gm') = start_len (snek gm)"
  using assms
  by (cases rule: tick_returns_cases; auto simp: same_but_screen_def dest: slither_frame(2))+

section \<open>The invariant of the loop\<close>

lemma game_inv_same_but_screen:
  "same_but_screen gm gm' \<Longrightarrow> game_inv gm' = game_inv gm"
  by (simp add: same_but_screen_def game_inv_def)

lemma not_game_over_head:
  assumes "\<not> game_over gm" and "body (snek gm) \<noteq> []" and "proper_grid (width gm) (height gm)"
  shows "head (snek gm) \<notin> set (butlast (body (snek gm)))"
    and "in_grid (width gm) (height gm) (head (snek gm))"
proof -
  from off_grid_iff [OF proper_grid_bounds(1,2) [OF assms(3)], of "head (snek gm)"] assms(1,2)
  show "head (snek gm) \<notin> set (butlast (body (snek gm)))"
    and "in_grid (width gm) (height gm) (head (snek gm))"
    by (auto simp: game_over_def dead_nonempty)
qed

text \<open>
  A snake that has just been found alive lies on the grid without touching
  itself, head included.
\<close>

lemma alive_body_on_grid:
  assumes "game_inv gm" and "alive (snek gm)" and "\<not> game_over gm"
  shows "distinct (body (snek gm))"
    and "\<forall>p \<in> set (body (snek gm)). in_grid (width gm) (height gm) p"
proof -
  from assms(1) have nonempty: "body (snek gm) \<noteq> []"
    and proper: "proper_grid (width gm) (height gm)"
    by (simp_all add: game_inv_def snek_inv_def)
  from assms(1,2) have front: "distinct (butlast (body (snek gm)))"
    "\<forall>p \<in> set (butlast (body (snek gm))). in_grid (width gm) (height gm) p"
    by (simp_all add: game_inv_def)
  from not_game_over_head [OF assms(3) nonempty proper]
  have h: "last (body (snek gm)) \<notin> set (butlast (body (snek gm)))"
    "in_grid (width gm) (height gm) (last (body (snek gm)))"
    by (simp_all add: head_def)
  from nonempty front(1) h(1) show "distinct (body (snek gm))"
    by (simp add: distinct_butlast_last)
  from front(2) h(2) set_butlast_last [OF nonempty] show "\<forall>p \<in> set (body (snek gm)). in_grid (width gm) (height gm) p"
    by simp
qed

lemma game_inv_advance:
  assumes inv: "game_inv gm" and run: "advance gm g = returns (gm', g')"
    and on_grid: "alive (snek gm) \<Longrightarrow> distinct (body (snek gm)) \<and>
      (\<forall>p \<in> set (body (snek gm)). in_grid (width gm) (height gm) p)"
  shows "game_inv gm'"
proof (cases "paused (polled gm)")
  case True
  with run have "gm' = polled gm"
    by (simp add: advance_eq)
  with inv show ?thesis
    by (simp add: game_inv_def)
next
  case False
  let ?s = "snek (polled gm)"
  from inv have sinv: "snek_inv ?s" and nonempty: "body ?s \<noteq> []" and not_eating: "\<not> eating ?s"
    and food: "food gm \<notin> set (body ?s)" "in_grid (width gm) (height gm) (food gm)"
    by (simp_all add: game_inv_def snek_inv_def)
  from False run obtain s p where
    slith: "slither ?s (food gm) (width gm) (height gm) g = returns (s, p, g')"
    and gm': "gm' = (polled gm)\<lparr>snek := s, food := p\<rparr>"
    by (auto simp: advance_eq run_then_eq_returns_iff)
  note snek_inv_slither [OF sinv slith]
    and slither_food_off_body [OF nonempty not_eating food slith]
  moreover from slither_frame(3) [OF slith] have "alive s = alive (snek gm)"
    by simp
  moreover from on_grid slither_front [OF nonempty slith]
  have "alive (snek gm) \<longrightarrow> distinct (butlast (body s)) \<and>
      (\<forall>p \<in> set (butlast (body s)). in_grid (width gm) (height gm) p)"
    by auto
  ultimately show ?thesis
    using inv by (simp add: gm' game_inv_def)
qed

lemma game_inv_tick:
  assumes "game_inv gm" and "alive (snek gm)" and "tick gm g = returns (gm', g')"
  shows "game_inv gm'"
proof (cases gm g rule: tick_cases)
  case empty
  with assms(3) show ?thesis by simp
next
  case (drawn gm1)
  from assms(1,2) have inv: "game_inv (judged gm)"
    by (simp add: game_inv_def)
  with drawn(3) have inv1: "game_inv gm1"
    by (simp add: game_inv_same_but_screen)
  have "distinct (body (snek gm1)) \<and>
      (\<forall>p \<in> set (body (snek gm1)). in_grid (width gm1) (height gm1) p)"
    if "alive (snek gm1)"
  proof -
    from that drawn(3) have "\<not> game_over gm"
      by (simp add: same_but_screen_def)
    from alive_body_on_grid [OF assms(1,2) this] drawn(3) show ?thesis
      by (simp add: same_but_screen_def)
  qed
  with inv1 assms(3) drawn(4) show ?thesis
    by (intro game_inv_advance [of gm1 g gm' g']) simp_all
qed

lemma game_inv_length:
  assumes "game_inv gm" and "alive (snek gm)"
  shows "length (body (snek gm)) \<le> Suc (unat (width gm) * unat (height gm))"
proof -
  from assms have "proper_grid (width gm) (height gm)"
    and "distinct (butlast (body (snek gm)))"
    and "\<forall>p \<in> set (butlast (body (snek gm))). in_grid (width gm) (height gm) p"
    by (simp_all add: game_inv_def)
  from length_le_area [OF proper_grid_bounds(1,2) [OF this(1)] this(2,3)] show ?thesis
    by simp
qed

text \<open>
  Under the invariant an iteration does not panic: the body is not empty and
  the grid is proper, which are the two things \<open>slither\<close> and \<open>dead\<close> unwrap
  or draw from.
\<close>

lemma tick_no_panic:
  assumes "game_inv gm"
  shows "tick gm g \<noteq> panics e"
proof (cases gm g rule: tick_cases)
  case empty
  with assms show ?thesis
    by (simp add: game_inv_def snek_inv_def)
next
  case (drawn gm1)
  from assms drawn(3) have "body (snek (polled gm1)) \<noteq> []" "proper_grid (width gm1) (height gm1)"
    by (simp_all add: game_inv_def snek_inv_def same_but_screen_def)
  then have "slither (snek (polled gm1)) (food gm1) (width gm1) (height gm1) g \<noteq> panics e"
    by (cases "snek (polled gm1)" "food gm1" "width gm1" "height gm1" g rule: slither_cases)
      simp_all
  with drawn(4) show ?thesis
    by (auto simp: advance_eq run_then_eq_panics_iff)
qed

lemma reachable_from_game_inv:
  assumes "reachable_from start c" and "game_inv (fst start)"
  shows "game_inv (fst c)"
  using assms by (induction rule: reachable_from.induct) (auto intro: game_inv_tick)

lemma reachable_from_frame:
  assumes "reachable_from start c"
  shows "width (fst c) = width (fst start)" and "height (fst c) = height (fst start)"
    and "start_len (snek (fst c)) = start_len (snek (fst start))"
  using assms by (induction rule: reachable_from.induct) (simp_all add: tick_frame)

lemma game_inv_new:
  assumes "game_new w h f b t g = returns (gm, g')"
    and "b \<noteq> []" and "distinct (butlast b)" and "\<forall>p \<in> set (butlast b). in_grid w h p"
  shows "game_inv gm"
  using assms(1)
proof (cases w h f b t g rule: game_new_cases)
  case (start n e)
  with assms candidate_in_grid [of w h g n] snek_inv_new [of b] show ?thesis
    by (auto simp: game_inv_def)
qed simp_all

section \<open>The loop and its cut-off\<close>

definition final :: "(game \<times> rng) result \<Rightarrow> bool" where
  "final r = (case r of Inl e \<Rightarrow> True | Inr (gm, g) \<Rightarrow> \<not> alive (snek gm))"

lemma final_simps [simp]:
  "final (Inl e)"
  "final (Inr (gm, g)) \<longleftrightarrow> \<not> alive (snek gm)"
  by (simp_all add: final_def)

lemma loop_not_alive [simp]: "\<not> alive (snek gm) \<Longrightarrow> loop gm g = returns (gm, g)"
  by (subst loop.simps) simp

lemma loop_alive:
  assumes "alive (snek gm)"
  shows "loop gm g = run_then (tick gm g) (\<lambda>(gm', g'). loop gm' g')"
proof (cases "tick gm g")
  case None
  with assms show ?thesis
    by (subst loop.simps) simp
next
  case (Some r)
  with assms show ?thesis
    by (subst loop.simps) (cases r; simp)
qed

lemma ticks_not_alive [simp]: "\<not> alive (snek gm) \<Longrightarrow> ticks n gm g = returns (gm, g)"
  by (cases n) simp_all

lemma ticks_Suc_cases [consumes 1, case_names stop step]:
  assumes "ticks (Suc n) gm g = returns c"
  obtains "\<not> alive (snek gm)" "c = (gm, g)"
    | gm1 g1 where "alive (snek gm)" "tick gm g = returns (gm1, g1)" "ticks n gm1 g1 = returns c"
  using assms by (cases "alive (snek gm)") (auto simp: run_then_eq_returns_iff)

text \<open>
  Running the loop is running any number of iterations first and the loop
  after them.
\<close>

lemma loop_ticks: "loop gm g = run_then (ticks n gm g) (\<lambda>(gm', g'). loop gm' g')"
proof (induction n arbitrary: gm g)
  case 0
  show ?case by simp
next
  case (Suc n)
  show ?case
  proof (cases "alive (snek gm)")
    case False
    then show ?thesis by simp
  next
    case True
    have "loop gm g = run_then (tick gm g) (\<lambda>(gm', g'). loop gm' g')"
      using True by (rule loop_alive)
    also have "\<dots> = run_then (tick gm g)
        (\<lambda>c. run_then (case c of (gm', g') \<Rightarrow> ticks n gm' g') (\<lambda>(gm', g'). loop gm' g'))"
      by (rule run_then_cong_returns) (simp only: split_beta Suc.IH [symmetric])
    also have "\<dots> = run_then (ticks (Suc n) gm g) (\<lambda>(gm', g'). loop gm' g')"
      using True by (simp only: ticks.simps if_True run_then_assoc)
    finally show ?thesis .
  qed
qed

lemma ticks_final_loop:
  assumes "ticks n gm g = Some r" and "final r"
  shows "loop gm g = Some r"
  using assms loop_ticks [of gm g n] by (cases r) auto

lemma ticks_diverges_loop:
  assumes "ticks n gm g = diverges"
  shows "loop gm g = diverges"
  using assms loop_ticks [of gm g n] by simp

lemma loop_decided:
  assumes "ticks n gm g = diverges \<or> (\<exists>r. ticks n gm g = Some r \<and> final r)"
  shows "loop gm g = ticks n gm g"
  using assms by (auto simp: ticks_diverges_loop ticks_final_loop)

lemma loop_final_ticks:
  assumes "loop gm g = Some r"
  shows "\<exists>n. ticks n gm g = Some r \<and> final r"
proof (rule loop.raw_induct [where P = "\<lambda>gm g r. \<exists>n. ticks n gm g = Some r \<and> final r",
      OF _ assms])
  fix f gm g and r :: "(game \<times> rng) result"
  assume IH: "\<And>gm g r. f gm g = Some r \<Longrightarrow> \<exists>n. ticks n gm g = Some r \<and> final r"
    and eq: "(if alive (snek gm)
       then (case tick gm g of
               None \<Rightarrow> diverges
             | Some (Inl e) \<Rightarrow> panics e
             | Some (Inr (gm', g')) \<Rightarrow> f gm' g')
       else returns (gm, g)) = Some r"
  show "\<exists>n. ticks n gm g = Some r \<and> final r"
  proof (cases "alive (snek gm)")
    case False
    with eq show ?thesis
      by (intro exI [of _ 0]) auto
  next
    case True
    show ?thesis
    proof (cases "tick gm g" rule: outcome_cases)
      case diverges
      with True eq show ?thesis by simp
    next
      case (panics e)
      with True eq show ?thesis
        by (intro exI [of _ "Suc 0"]) auto
    next
      case (returns c)
      then obtain gm' g' where t: "tick gm g = returns (gm', g')"
        by (cases c) simp
      with True eq have "f gm' g' = Some r"
        by simp
      from IH [OF this] obtain n where "ticks n gm' g' = Some r" and "final r"
        by blast
      with True t have "ticks (Suc n) gm g = Some r \<and> final r"
        by simp
      then show ?thesis ..
    qed
  qed
qed

lemma ticks_no_panic:
  assumes "game_inv gm"
  shows "ticks n gm g \<noteq> panics e"
  using assms
proof (induction n arbitrary: gm g)
  case 0
  show ?case by simp
next
  case (Suc n)
  show ?case
  proof (cases "alive (snek gm)")
    case False
    then show ?thesis by simp
  next
    case True
    with Suc tick_no_panic [OF Suc.prems, of g e] show ?thesis
      by (auto simp: run_then_eq_panics_iff dest: game_inv_tick)
  qed
qed

lemma loop_no_panic:
  assumes "game_inv gm"
  shows "loop gm g \<noteq> panics e"
  using loop_final_ticks [of gm g "Inl e"] ticks_no_panic [OF assms] by auto

lemma loop_eq_Some_iff: "loop gm g = Some r \<longleftrightarrow> (\<exists>n. ticks n gm g = Some r \<and> final r)"
  by (blast intro: ticks_final_loop dest: loop_final_ticks)

section \<open>Reachable states are the results of the cut-off loop\<close>

lemma ticks_add:
  "ticks (m + n) gm g = run_then (ticks m gm g) (\<lambda>(gm', g'). ticks n gm' g')"
proof (induction m arbitrary: gm g)
  case 0
  show ?case by simp
next
  case (Suc m)
  show ?case
  proof (cases "alive (snek gm)")
    case False
    then show ?thesis by simp
  next
    case True
    then have "ticks (Suc m + n) gm g = run_then (tick gm g) (\<lambda>(gm', g'). ticks (m + n) gm' g')"
      by simp
    also have "\<dots> = run_then (tick gm g)
        (\<lambda>c. run_then (case c of (gm', g') \<Rightarrow> ticks m gm' g') (\<lambda>(gm', g'). ticks n gm' g'))"
      by (rule run_then_cong_returns) (simp add: Suc.IH case_prod_unfold)
    also have "\<dots> = run_then (ticks (Suc m) gm g) (\<lambda>(gm', g'). ticks n gm' g')"
      using True by (simp only: ticks.simps if_True run_then_assoc)
    finally show ?thesis .
  qed
qed

text \<open>
  When the loop cut off after \<open>n\<close> iterations returns and one iteration more
  makes it run forever, it is the iteration from the returned state that
  never returns.
\<close>

lemma ticks_last_diverges:
  assumes "ticks n gm g = returns (gm', g')" and "ticks (Suc n) gm g = diverges"
  shows "alive (snek gm') \<and> tick gm' g' = diverges"
proof -
  from assms ticks_add [of n 1 gm g] have "ticks 1 gm' g' = diverges"
    by simp
  then show ?thesis
    by (cases "alive (snek gm')") (auto simp: run_then_eq_diverges_iff)
qed

text \<open>
  The body grows by at most one segment in an iteration.
\<close>

lemma tick_length:
  assumes "tick gm g = returns (gm', g')"
  shows "length (body (snek gm)) \<le> length (body (snek gm'))"
    and "length (body (snek gm')) \<le> Suc (length (body (snek gm)))"
proof -
  have "length (body (snek gm)) \<le> length (body (snek gm')) \<and>
      length (body (snek gm')) \<le> Suc (length (body (snek gm)))"
    using assms
  proof (cases rule: tick_returns_cases)
    case (held gm1)
    then show ?thesis
      by (simp add: same_but_screen_def)
  next
    case (moved gm1 s p)
    from moved(1,2) have "body (snek (polled gm1)) \<noteq> []"
      by (simp add: same_but_screen_def)
    from slither_length [OF this moved(4)] moved(2,5) show ?thesis
      by (simp add: same_but_screen_def)
  qed
  then show "length (body (snek gm)) \<le> length (body (snek gm'))"
    and "length (body (snek gm')) \<le> Suc (length (body (snek gm)))"
    by simp_all
qed

lemma ticks_length:
  assumes "ticks n gm g = returns (gm', g')"
  shows "length (body (snek gm)) \<le> length (body (snek gm')) \<and>
    length (body (snek gm')) \<le> length (body (snek gm)) + n"
  using assms
proof (induction n arbitrary: gm g)
  case 0
  then show ?case by simp
next
  case (Suc n)
  from Suc.prems show ?case
  proof (cases rule: ticks_Suc_cases)
    case (step gm1 g1)
    from tick_length [OF step(2)] Suc.IH [OF step(3)] show ?thesis
      by simp
  qed simp
qed

lemma reachable_from_prepend:
  assumes "reachable_from c c'" and "alive (snek gm)" and "tick gm g = returns c"
  shows "reachable_from (gm, g) c'"
  using assms
proof (induction rule: reachable_from.induct)
  case initial
  then show ?case
    using reachable_from.iterate [OF reachable_from.initial, of gm g "fst c" "snd c"] by simp
next
  case (iterate gm1 g1 gm2 g2)
  from iterate(4) [OF iterate(5,6)] iterate(2,3) show ?case
    by (rule reachable_from.iterate)
qed

lemma ticks_reachable:
  assumes "ticks n gm g = returns c"
  shows "reachable_from (gm, g) c"
  using assms
proof (induction n arbitrary: gm g)
  case 0
  then show ?case
    by (auto intro: reachable_from.initial)
next
  case (Suc n)
  from Suc.prems show ?case
  proof (cases rule: ticks_Suc_cases)
    case (step gm1 g1)
    with Suc.IH show ?thesis
      by (blast intro: reachable_from_prepend)
  qed (simp add: reachable_from.initial)
qed

lemma reachable_ticks:
  assumes "reachable_from start c"
  shows "\<exists>n. ticks n (fst start) (snd start) = returns c"
  using assms
proof (induction rule: reachable_from.induct)
  case initial
  have "ticks 0 (fst start) (snd start) = returns start"
    by simp
  then show ?case ..
next
  case (iterate gm g gm' g')
  then obtain n where "ticks n (fst start) (snd start) = returns (gm, g)"
    by blast
  with iterate(2,3) have "ticks (n + Suc 0) (fst start) (snd start) = returns (gm', g')"
    by (simp add: ticks_add del: ticks.simps add_Suc_right) simp
  then show ?case ..
qed

lemma reachable_iff_ticks:
  "reachable_from (gm, g) c \<longleftrightarrow> (\<exists>n. ticks n gm g = returns c)"
  using reachable_ticks [of "(gm, g)" c] by (auto intro: ticks_reachable)

section \<open>The frames of a run\<close>

text \<open>
  The frames the loop has shown after \<open>n\<close> iterations are the screens drawn
  from the games \<open>shown n\<close> lists, one for one and in that order; these games
  are the judged reachable states with a live snake, and there are \<open>n\<close> of
  them when the snake is alive after the run.
\<close>

lemma shown_not_alive [simp]: "\<not> alive (snek gm) \<Longrightarrow> shown n gm g = []"
  by (cases n) simp_all

lemma shown_step:
  assumes "alive (snek gm)" and "tick gm g = returns (gm1, g1)"
  shows "shown (Suc n) gm g = judged gm # shown n gm1 g1"
  using assms by simp

lemma set_shown_Suc:
  "s \<in> set (shown (Suc n) gm g) \<longleftrightarrow>
     alive (snek gm) \<and>
     (s = judged gm \<or> (\<exists>gm1 g1. tick gm g = returns (gm1, g1) \<and> s \<in> set (shown n gm1 g1)))"
  by (cases "tick gm g" rule: outcome_cases) auto

lemma ticks_frames:
  assumes "ticks n gm g = returns (gm', g')"
  shows "\<exists>frs. frames (engine gm') = frames (engine gm) @ frs \<and>
    list_all2 (\<lambda>fr s. \<exists>gm1. draw s = Inr gm1 \<and> fr = screen (engine gm1)) frs (shown n gm g)"
  using assms
proof (induction n arbitrary: gm g)
  case 0
  then show ?case by simp
next
  case (Suc n)
  from Suc.prems show ?case
  proof (cases rule: ticks_Suc_cases)
    case stop
    then show ?thesis by simp
  next
    case (step gm1 g1)
    from step(2) obtain gm2 where "draw (judged gm) = Inr gm2"
      and "frames (engine gm1) = frames (engine gm) @ [screen (engine gm2)]"
      by (rule tick_frames)
    with Suc.IH [OF step(3)] step(1,2) show ?thesis
      by (auto simp del: shown.simps simp add: shown_step)
  qed
qed

lemma shown_reachable:
  assumes "s \<in> set (shown n gm g)"
  shows "\<exists>gm1 g1. reachable_from (gm, g) (gm1, g1) \<and> alive (snek gm1) \<and> s = judged gm1"
  using assms
proof (induction n arbitrary: gm g)
  case 0
  then show ?case by simp
next
  case (Suc n)
  from Suc.prems have alive: "alive (snek gm)"
    by (simp add: set_shown_Suc del: shown.simps)
  show ?case
  proof (cases "s = judged gm")
    case True
    with alive reachable_from.initial [of "(gm, g)"] show ?thesis
      by blast
  next
    case False
    with Suc.prems obtain gm1 g1 where tick: "tick gm g = returns (gm1, g1)"
      and "s \<in> set (shown n gm1 g1)"
      by (auto simp: set_shown_Suc simp del: shown.simps)
    from Suc.IH [OF this(2)] obtain gm2 g2 where "reachable_from (gm1, g1) (gm2, g2)"
      and rest: "alive (snek gm2)" "s = judged gm2"
      by blast
    from this(1) alive tick have "reachable_from (gm, g) (gm2, g2)"
      by (rule reachable_from_prepend)
    with rest show ?thesis
      by blast
  qed
qed

lemma length_shown:
  assumes "ticks n gm g = returns (gm', g')" and "alive (snek gm')"
  shows "length (shown n gm g) = n"
  using assms
proof (induction n arbitrary: gm g)
  case 0
  show ?case by simp
next
  case (Suc n)
  from Suc.prems(1) show ?case
  proof (cases rule: ticks_Suc_cases)
    case stop
    with Suc.prems(2) show ?thesis by simp
  next
    case (step gm1 g1)
    with Suc.IH [OF step(3) Suc.prems(2)] show ?thesis
      by simp
  qed
qed

end
