(* ===== verification/Simulation.thy ===== *)
theory Simulation
  imports Main_Loop
begin

text \<open>
  The abstract specification of the game and the proof that the frame loop
  implements it.

  The specification is the pure simulation the design notes of the
  specification ask for: the state \<open>sim\<close> is the snake, the food, the pause
  flag and the dimensions of the grid, with no engine; \<open>sim_tick\<close> is one tick
  as section 4.4 of the specification orders it, given whether the quit key
  was pressed in the previous frame and the keys pressed in this one; and
  \<open>sim_run\<close> runs it over a list of frames. \<open>sim_of\<close> forgets the engine of a
  game. The refinement lemmas state that \<open>tick\<close> and \<open>ticks\<close> commute with
  \<open>sim_of\<close>, outcome for outcome: the same panic, the same divergence, the
  same result. What the game does beyond the simulation is confined to the
  engine: one frame shown and one frame of input consumed per tick. The
  termination results are proved on the simulation: a game nobody plays
  makes at most one iteration more than its head is steps away from the wall
  ahead.
\<close>

section \<open>The simulation\<close>

record sim =
  sim_snek :: snek
  sim_food :: point
  sim_paused :: bool
  sim_width :: u32
  sim_height :: u32

definition sim_of :: "game \<Rightarrow> sim" where
  "sim_of gm =
     \<lparr>sim_snek = snek gm, sim_food = food gm, sim_paused = paused gm,
      sim_width = width gm, sim_height = height gm\<rparr>"

fun sim_command :: "command \<Rightarrow> sim \<Rightarrow> sim" where
  "sim_command Toggle_Pause m = m\<lparr>sim_paused := \<not> sim_paused m\<rparr>"
| "sim_command (Turn d) m = m\<lparr>sim_snek := change_direction (sim_snek m) d\<rparr>"
| "sim_command Nothing m = m"

definition sim_over :: "bool \<Rightarrow> sim \<Rightarrow> bool" where
  "sim_over quit_pressed m \<longleftrightarrow>
     quit_pressed \<or> dead (sim_snek m) (sim_width m) (sim_height m) = Inr True"

definition sim_tick :: "bool \<Rightarrow> keycode list \<Rightarrow> sim \<Rightarrow> rng \<Rightarrow> (sim \<times> rng) outcome" where
  "sim_tick quit_pressed keys m g =
     (if body (sim_snek m) = [] then panics UnwrapNone
      else
        let m1 = m\<lparr>sim_snek := (sim_snek m)\<lparr>alive := \<not> sim_over quit_pressed m\<rparr>\<rparr>;
            m2 = sim_command (command_of keys) m1
        in if sim_paused m2 then returns (m2, g)
           else run_then
             (slither (sim_snek m2) (sim_food m2) (sim_width m2) (sim_height m2) g)
             (\<lambda>(s, p, g'). returns (m2\<lparr>sim_snek := s, sim_food := p\<rparr>, g')))"

fun sim_run :: "keycode list list \<Rightarrow> bool \<Rightarrow> sim \<Rightarrow> rng \<Rightarrow> (sim \<times> rng) outcome" where
  "sim_run [] quit_pressed m g = returns (m, g)"
| "sim_run (keys # rest) quit_pressed m g =
     (if alive (sim_snek m)
      then run_then (sim_tick quit_pressed keys m g) (\<lambda>(m', g').
             sim_run rest (KeyChar CHR ''q'' \<in> set keys) m' g')
      else returns (m, g))"

definition sim_final :: "(sim \<times> rng) result \<Rightarrow> bool" where
  "sim_final r = (case r of Inl e \<Rightarrow> True | Inr (m, g) \<Rightarrow> \<not> alive (sim_snek m))"

definition map_outcome :: "('a \<Rightarrow> 'b) \<Rightarrow> 'a outcome \<Rightarrow> 'b outcome" where
  "map_outcome f m = map_option (map_sum id f) m"

section \<open>Coasting\<close>

text \<open>
  The vocabulary of the termination results. A simulation is \<open>unattended\<close> when
  the snake moves unpaused on a proper grid, and \<open>coasting\<close> when moreover the
  food is not in the row or column it moves along; \<open>coast\<close> is what one tick
  without input does to a coasting simulation, and \<open>wall_distance\<close> is the
  number of steps from the head to the first cell beyond the wall ahead.
\<close>

definition wall_distance :: "sim \<Rightarrow> nat" where
  "wall_distance m =
     (let p = head (sim_snek m) in
      case direction (sim_snek m) of
        Up \<Rightarrow> nat (sint (py p) + 1)
      | Down \<Rightarrow> nat (uint (sim_height m) - sint (py p))
      | Left \<Rightarrow> nat (sint (px p) + 1)
      | Right \<Rightarrow> nat (uint (sim_width m) - sint (px p)))"

definition food_off_course :: "sim \<Rightarrow> bool" where
  "food_off_course m \<longleftrightarrow>
     (let p = head (sim_snek m) in
      case direction (sim_snek m) of
        Up \<Rightarrow> px (sim_food m) \<noteq> px p
      | Down \<Rightarrow> px (sim_food m) \<noteq> px p
      | Left \<Rightarrow> py (sim_food m) \<noteq> py p
      | Right \<Rightarrow> py (sim_food m) \<noteq> py p)"

definition unattended :: "sim \<Rightarrow> bool" where
  "unattended m \<longleftrightarrow>
     body (sim_snek m) \<noteq> [] \<and> \<not> eating (sim_snek m) \<and> \<not> sim_paused m \<and>
     proper_grid (sim_width m) (sim_height m)"

definition coasting :: "sim \<Rightarrow> bool" where
  "coasting m \<longleftrightarrow> unattended m \<and> food_off_course m"

definition coast :: "bool \<Rightarrow> sim \<Rightarrow> sim" where
  "coast quit_pressed m =
     m\<lparr>sim_snek := (sim_snek m)\<lparr>alive := \<not> sim_over quit_pressed m,
        body := tl (body (sim_snek m)) @ [next_head (sim_snek m)]\<rparr>\<rparr>"

section \<open>Facts about the abstraction\<close>

lemma sim_of_sel [simp]:
  "sim_snek (sim_of gm) = snek gm"
  "sim_food (sim_of gm) = food gm"
  "sim_paused (sim_of gm) = paused gm"
  "sim_width (sim_of gm) = width gm"
  "sim_height (sim_of gm) = height gm"
  by (simp_all add: sim_of_def)

lemma sim_of_eq_iff:
  "sim_of gm = m \<longleftrightarrow>
     snek gm = sim_snek m \<and> food gm = sim_food m \<and> paused gm = sim_paused m \<and>
     width gm = sim_width m \<and> height gm = sim_height m"
  by (cases m) (auto simp: sim_of_def)

lemma map_outcome_simps [simp]:
  "map_outcome f diverges = diverges"
  "map_outcome f (panics e) = panics e"
  "map_outcome f (returns v) = returns (f v)"
  by (simp_all add: map_outcome_def)

lemma map_outcome_run_then:
  "map_outcome f (run_then m k) = run_then m (\<lambda>v. map_outcome f (k v))"
  by (simp add: run_then_def split: option.splits sum.splits)

lemma map_outcome_eq_diverges_iff [simp]: "map_outcome f m = diverges \<longleftrightarrow> m = diverges"
  by (simp add: map_outcome_def)

lemma map_outcome_eq_returns_iff:
  "map_outcome f m = returns b \<longleftrightarrow> (\<exists>a. m = returns a \<and> f a = b)"
  by (cases m) (auto simp: map_outcome_def map_sum_def split: sum.splits)

lemma sim_of_same_but_screen: "same_but_screen gm gm' \<Longrightarrow> sim_of gm' = sim_of gm"
  by (simp add: sim_of_def same_but_screen_def)

lemma sim_of_apply_command [simp]:
  "sim_of (apply_command c gm) = sim_command c (sim_of gm)"
  by (cases c) (simp_all add: sim_of_def)

lemma sim_of_judged:
  "sim_of (judged gm) =
     (sim_of gm)\<lparr>sim_snek := (snek gm)\<lparr>alive := \<not> sim_over (quit gm) (sim_of gm)\<rparr>\<rparr>"
  by (simp add: sim_of_def judged_def game_over_def sim_over_def)

lemma sim_of_polled:
  "sim_of (polled gm) = sim_command (command_of (shd (key_events (engine gm)))) (sim_of gm)"
  by (simp add: command_polled) (simp add: sim_of_def)

section \<open>One tick refines one simulation step\<close>

lemma advance_refines:
  "map_outcome (\<lambda>(gm', g'). (sim_of gm', g')) (advance gm g) =
     (let m2 = sim_command (command_of (shd (key_events (engine gm)))) (sim_of gm)
      in if sim_paused m2 then returns (m2, g)
         else run_then
           (slither (sim_snek m2) (sim_food m2) (sim_width m2) (sim_height m2) g)
           (\<lambda>(s, p, g'). returns (m2\<lparr>sim_snek := s, sim_food := p\<rparr>, g')))"
proof -
  let ?m2 = "sim_command (command_of (shd (key_events (engine gm)))) (sim_of gm)"
  have m2: "sim_of (polled gm) = ?m2"
    by (rule sim_of_polled)
  then have sel: "sim_paused ?m2 = paused (polled gm)" "sim_snek ?m2 = snek (polled gm)"
    "sim_food ?m2 = food gm" "sim_width ?m2 = width gm" "sim_height ?m2 = height gm"
    by (simp_all flip: m2)
  have upd: "sim_of ((polled gm)\<lparr>snek := s, food := p\<rparr>) = ?m2\<lparr>sim_snek := s, sim_food := p\<rparr>"
    for s p
    by (simp flip: m2)
  show ?thesis
    unfolding Let_def sel advance_eq
    by (simp add: map_outcome_run_then case_prod_unfold upd m2)
qed

lemma tick_refines:
  "map_outcome (\<lambda>(gm', g'). (sim_of gm', g')) (tick gm g) =
     sim_tick (quit gm) (shd (key_events (engine gm))) (sim_of gm) g"
proof (cases gm g rule: tick_cases)
  case empty
  then show ?thesis
    by (simp add: sim_tick_def)
next
  case (drawn gm1)
  from drawn(3) have "sim_of gm1 = sim_of (judged gm)"
    and "key_events (engine gm1) = key_events (engine gm)"
    by (simp_all add: sim_of_same_but_screen same_but_screen_def)
  with drawn(1,4) show ?thesis
    by (simp add: advance_refines sim_tick_def sim_of_judged Let_def)
qed

lemma tick_of_sim_tick:
  assumes "sim_tick (quit gm) (shd (key_events (engine gm))) (sim_of gm) g = returns (m, g')"
  obtains gm' where "tick gm g = returns (gm', g')" and "sim_of gm' = m"
  using assms by (auto simp: map_outcome_eq_returns_iff simp flip: tick_refines)

text \<open>
  What a tick does to the engine: the dimensions stay, one frame is shown,
  and one frame of input is consumed and becomes the keys of the next tick.
\<close>

lemma tick_engine:
  assumes "tick gm g = returns (gm', g')"
  shows "scr_width (engine gm') = scr_width (engine gm)"
    and "scr_height (engine gm') = scr_height (engine gm)"
    and "length (frames (engine gm')) = Suc (length (frames (engine gm)))"
    and "keys_pressed (engine gm') = shd (key_events (engine gm))"
    and "key_events (engine gm') = stl (key_events (engine gm))"
    and "width gm' = width gm" and "height gm' = height gm"
proof -
  from assms obtain gm1 where same: "same_but_screen (judged gm) gm1"
    and adv: "advance gm1 g = returns (gm', g')"
    by (cases gm g rule: tick_cases) auto
  from adv have "engine gm' = wait_frame (clear_screen (engine_draw (engine gm1)))
      \<and> width gm' = width gm1 \<and> height gm' = height gm1"
    by (auto simp: advance_eq run_then_eq_returns_iff split: if_splits)
  with same show "scr_width (engine gm') = scr_width (engine gm)"
    and "scr_height (engine gm') = scr_height (engine gm)"
    and "length (frames (engine gm')) = Suc (length (frames (engine gm)))"
    and "keys_pressed (engine gm') = shd (key_events (engine gm))"
    and "key_events (engine gm') = stl (key_events (engine gm))"
    and "width gm' = width gm" and "height gm' = height gm"
    by (simp_all add: same_but_screen_def)
qed

lemma tick_quit_next:
  assumes "tick gm g = returns (gm', g')"
  shows "quit gm' \<longleftrightarrow> KeyChar CHR ''q'' \<in> set (shd (key_events (engine gm)))"
  using tick_engine(4) [OF assms] by (simp add: quit_def is_key_pressed_def QUIT_KEY_def)

section \<open>The loop refines the run of the simulation\<close>

lemma ticks_refines:
  "map_outcome (\<lambda>(gm', g'). (sim_of gm', g')) (ticks n gm g) =
     sim_run (stake n (key_events (engine gm))) (quit gm) (sim_of gm) g"
proof (induction n arbitrary: gm g)
  case 0
  show ?case by simp
next
  case (Suc n)
  show ?case
  proof (cases "alive (snek gm)")
    case False
    then show ?thesis by simp
  next
    case True
    note step = tick_refines [of gm g, symmetric]
    show ?thesis
    proof (cases "tick gm g" rule: outcome_cases)
      case diverges
      with True step show ?thesis by simp
    next
      case (panics e)
      with True step show ?thesis by simp
    next
      case (returns c)
      then obtain gm' g' where t: "tick gm g = returns (gm', g')"
        by (cases c) simp
      with step have "sim_tick (quit gm) (shd (key_events (engine gm))) (sim_of gm) g =
          returns (sim_of gm', g')"
        by simp
      with True t Suc.IH [of gm' g'] tick_engine(5) [OF t] tick_quit_next [OF t]
      show ?thesis
        by simp
    qed
  qed
qed

section \<open>From runs of the simulation to results of the loop\<close>

lemma sim_run_stake_Suc:
  "sim_run (stake (Suc n) ks) q m g =
     (if alive (sim_snek m)
      then run_then (sim_tick q (shd ks) m g) (\<lambda>(m', g').
             sim_run (stake n (stl ks)) (KeyChar CHR ''q'' \<in> set (shd ks)) m' g')
      else returns (m, g))"
  by simp

lemma sim_run_not_alive [simp]:
  "\<not> alive (sim_snek m) \<Longrightarrow> sim_run ks q m g = returns (m, g)"
  by (cases ks) simp_all

lemma sim_final_map_sum [simp]:
  "sim_final (map_sum id (\<lambda>(gm, g). (sim_of gm, g)) r) = final r"
  by (cases r) (auto simp: sim_final_def)

text \<open>
  C7 (refinement of the loop). With the engine forgotten, the outcome of the
  frame loop is the outcome of the simulation: the loop ends with a result or
  a panic exactly when the simulation, run over some finite prefix of the
  stream of key frames, ends with that result or panic in a final state; and
  so the loop runs forever exactly when no prefix brings the simulation to a
  final state.
\<close>

theorem loop_refines_simulation:
  "map_outcome (\<lambda>(gm', g'). (sim_of gm', g')) (loop gm g) = Some r \<longleftrightarrow>
     (\<exists>n. sim_run (stake n (key_events (engine gm))) (quit gm) (sim_of gm) g = Some r \<and>
       sim_final r)"
  by (auto simp: map_outcome_def loop_eq_Some_iff simp flip: ticks_refines)

lemma ticks_of_sim_run:
  assumes "sim_run (stake n (key_events (engine gm))) (quit gm) (sim_of gm) g = returns (m, g')"
  obtains gm' where "ticks n gm g = returns (gm', g')" and "sim_of gm' = m"
  using assms by (auto simp: map_outcome_eq_returns_iff simp flip: ticks_refines)

lemma loop_of_sim_run:
  assumes "sim_run (stake n (key_events (engine gm))) (quit gm) (sim_of gm) g = returns (m, g')"
    and "\<not> alive (sim_snek m)"
  obtains gm' where "loop gm g = returns (gm', g')" and "sim_of gm' = m"
proof -
  from assms(1) obtain gm' where run: "ticks n gm g = returns (gm', g')" and m: "sim_of gm' = m"
    by (rule ticks_of_sim_run)
  from assms(2) m have "final (Inr (gm', g'))"
    by auto
  from ticks_final_loop [OF run this] m show ?thesis
    by (rule that)
qed

lemma main_loop_of_sim_run:
  assumes "sim_run (stake n (key_events (engine gm))) (quit gm) (sim_of gm) g = returns (m, g')"
    and "\<not> alive (sim_snek m)"
  obtains gm' where "main_loop gm g = returns (gm', g')" and "sim_of gm' = m"
proof -
  let ?gm = "gm\<lparr>engine := set_title (engine gm) ''SNEK''\<rparr>"
  have "key_events (engine ?gm) = key_events (engine gm)" "quit ?gm = quit gm"
    "sim_of ?gm = sim_of gm"
    by (simp_all add: quit_def sim_of_def is_key_pressed_def)
  with assms(1) have "sim_run (stake n (key_events (engine ?gm))) (quit ?gm) (sim_of ?gm) g =
      returns (m, g')"
    by (simp only:)
  from loop_of_sim_run [OF this assms(2)] obtain gm' where
    "loop ?gm g = returns (gm', g')" and "sim_of gm' = m"
    by blast
  then show ?thesis
    by (intro that [of gm']) (simp_all add: main_loop_def)
qed

text \<open>
  A run of the simulation that never returns is a loop that never returns.
\<close>

lemma main_loop_diverges:
  assumes "sim_run (stake n (key_events (engine gm))) (quit gm) (sim_of gm) g = diverges"
  shows "main_loop gm g = diverges"
proof -
  let ?gm = "gm\<lparr>engine := set_title (engine gm) ''SNEK''\<rparr>"
  have "key_events (engine ?gm) = key_events (engine gm)" "quit ?gm = quit gm"
    "sim_of ?gm = sim_of gm"
    by (simp_all add: quit_def sim_of_def is_key_pressed_def)
  with assms have "sim_run (stake n (key_events (engine ?gm))) (quit ?gm) (sim_of ?gm) g = diverges"
    by (simp only:)
  then have "ticks n ?gm g = diverges"
    by (simp only: flip: ticks_refines) simp
  then show ?thesis
    unfolding main_loop_def by (rule ticks_diverges_loop)
qed

section \<open>An unattended game ends at the wall or hangs placing food\<close>

text \<open>
  Without input a tick of an unattended simulation moves the head one step in
  its direction, whether the snake eats or not, unless the food placement
  hangs; the distance to the wall ahead decreases with every step on the
  grid, and at distance \<open>0\<close> the snake is dead.
\<close>

lemma sim_tick_unattended [consumes 1, case_names hang step]:
  assumes "unattended m"
  obtains (hang) "sim_tick q [] m g = diverges"
    | (step) m' g' where "sim_tick q [] m g = returns (m', g')" and "unattended m'"
      and "alive (sim_snek m') \<longleftrightarrow> \<not> sim_over q m"
      and "direction (sim_snek m') = direction (sim_snek m)"
      and "head (sim_snek m') = next_head (sim_snek m)"
      and "sim_width m' = sim_width m" and "sim_height m' = sim_height m"
proof -
  let ?s = "(sim_snek m)\<lparr>alive := \<not> sim_over q m\<rparr>"
  from assms have tick: "sim_tick q [] m g =
      run_then (slither ?s (sim_food m) (sim_width m) (sim_height m) g)
        (\<lambda>(s, p, g'). returns (m\<lparr>sim_snek := s, sim_food := p\<rparr>, g'))"
    by (simp add: unattended_def sim_tick_def command_of_def Let_def)
  show thesis
  proof (cases ?s "sim_food m" "sim_width m" "sim_height m" g rule: slither_cases)
    case hang
    with tick show ?thesis
      by (intro that(1)) simp
  next
    case move
    with tick have "sim_tick q [] m g =
        returns (m\<lparr>sim_snek := ?s\<lparr>body := tl (body ?s) @ [next_head ?s]\<rparr>\<rparr>, g)"
      by simp
    then show ?thesis
      by (rule that(2)) (use assms in \<open>simp_all add: unattended_def head_def next_head_def\<close>)
  next
    case (grow n)
    with tick have "sim_tick q [] m g =
        returns (m\<lparr>sim_snek := ?s\<lparr>body := body ?s @ [next_head ?s], eating := False\<rparr>,
          sim_food := candidate (sim_width m) (sim_height m) g n\<rparr>, sdrop (2 * Suc n) g)"
      by simp
    then show ?thesis
      by (rule that(2)) (use assms in \<open>simp_all add: unattended_def head_def next_head_def\<close>)
  qed (use assms in \<open>simp_all add: unattended_def\<close>)
qed

lemma wall_distance_next:
  assumes "in_grid (sim_width m) (sim_height m) (head (sim_snek m))"
    and "proper_grid (sim_width m) (sim_height m)"
    and "head (sim_snek m') = next_head (sim_snek m)"
    and "direction (sim_snek m') = direction (sim_snek m)"
    and "sim_width m' = sim_width m" and "sim_height m' = sim_height m"
  shows "wall_distance m' < wall_distance m"
  using coords_next_head [OF assms(1) proper_grid_bounds(1,2) [OF assms(2)]] assms(1,3-6)
  by (cases "direction (sim_snek m)")
    (simp_all add: wall_distance_def coords_def step_vec_def in_grid_def)

lemma unattended_over:
  assumes "unattended m" and "wall_distance m = 0"
  shows "sim_over q m"
proof (rule ccontr)
  assume "\<not> sim_over q m"
  with assms(1) have "in_grid (sim_width m) (sim_height m) (head (sim_snek m))"
    by (simp add: unattended_def sim_over_def dead_proper)
  with assms(2) show False
    by (cases "direction (sim_snek m)") (simp_all add: wall_distance_def in_grid_def)
qed

lemma unattended_ends:
  assumes "unattended m" and "wall_distance m \<le> n"
  shows "sim_run (replicate (Suc n) []) q m g = diverges \<or>
    (\<exists>m' g'. sim_run (replicate (Suc n) []) q m g = returns (m', g') \<and> \<not> alive (sim_snek m'))"
  using assms
proof (induction n arbitrary: m q g)
  case 0
  then have over: "sim_over q m"
    by (simp add: unattended_over)
  from 0(1) show ?case
    by (cases rule: sim_tick_unattended [where q = q and g = g]; cases "alive (sim_snek m)")
      (simp_all add: over)
next
  case (Suc n)
  from Suc.prems(1) show ?case
  proof (cases rule: sim_tick_unattended [where q = q and g = g])
    case hang
    then show ?thesis
      by (cases "alive (sim_snek m)") simp_all
  next
    case (step m' g')
    show ?thesis
    proof (cases "alive (sim_snek m) \<and> \<not> sim_over q m")
      case False
      with step show ?thesis
        by (cases "alive (sim_snek m)") simp_all
    next
      case True
      with Suc.prems(1) have "in_grid (sim_width m) (sim_height m) (head (sim_snek m))"
        by (simp add: unattended_def sim_over_def dead_proper)
      from wall_distance_next [OF this _ step(5,4,6,7)] Suc.prems
      have "wall_distance m' \<le> n"
        by (simp add: unattended_def)
      from Suc.IH [OF step(2) this, of False g'] True step(1) show ?thesis
        by simp
    qed
  qed
qed

lemma loop_unattended:
  assumes "unattended (sim_of gm)" and "key_events (engine gm) = sconst []"
  shows "loop gm g = ticks (Suc (wall_distance (sim_of gm))) gm g \<and>
    (loop gm g = diverges \<or> (\<exists>gm' g'. loop gm g = returns (gm', g') \<and> \<not> alive (snek gm')))"
proof -
  let ?n = "Suc (wall_distance (sim_of gm))"
  from assms(2) have "stake ?n (key_events (engine gm)) = replicate ?n []"
    by (simp only: stake_sconst)
  with ticks_refines [of ?n gm g]
  have run: "map_outcome (\<lambda>(gm', g'). (sim_of gm', g')) (ticks ?n gm g) =
      sim_run (replicate ?n []) (quit gm) (sim_of gm) g"
    by (simp only:)
  from unattended_ends [OF assms(1) order_refl, of "quit gm" g]
  have "ticks ?n gm g = diverges \<or>
      (\<exists>gm' g'. ticks ?n gm g = returns (gm', g') \<and> \<not> alive (snek gm'))"
    unfolding run [symmetric] by (auto simp: map_outcome_eq_returns_iff)
  moreover from this have "loop gm g = ticks ?n gm g"
    by (intro loop_decided) auto
  ultimately show ?thesis
    by simp
qed

section \<open>A game left alone ends\<close>

lemma food_off_course_not_next_head:
  "food_off_course m \<Longrightarrow> next_head (sim_snek m) \<noteq> sim_food m"
  by (cases "direction (sim_snek m)"; cases "head (sim_snek m)"; cases "sim_food m")
    (auto simp: food_off_course_def next_head_def)

lemma sim_tick_coasting:
  assumes "coasting m"
  shows "sim_tick q [] m g = returns (coast q m, g)"
  using assms food_off_course_not_next_head [of m]
  by (simp add: coasting_def unattended_def sim_tick_def command_of_def Let_def slither_eq will_eat_def coast_def)

lemma coasting_coast:
  assumes "coasting m"
  shows "coasting (coast q m)"
  using assms
  by (cases "direction (sim_snek m)"; cases "head (sim_snek m)")
    (auto simp: coasting_def unattended_def coast_def food_off_course_def head_def next_head_def)

lemma coast_sel [simp]:
  "alive (sim_snek (coast q m)) = (\<not> sim_over q m)"
  "direction (sim_snek (coast q m)) = direction (sim_snek m)"
  "start_len (sim_snek (coast q m)) = start_len (sim_snek m)"
  "sim_width (coast q m) = sim_width m"
  "sim_height (coast q m) = sim_height m"
  "sim_food (coast q m) = sim_food m"
  by (simp_all add: coast_def)

lemma length_coast [simp]:
  "coasting m \<Longrightarrow> length (body (sim_snek (coast q m))) = length (body (sim_snek m))"
  by (simp add: coast_def coasting_def unattended_def)

lemma snek_score_coast [simp]:
  "coasting m \<Longrightarrow> snek_score (sim_snek (coast q m)) = snek_score (sim_snek m)"
  by (simp add: snek_score_def)

lemma head_coast [simp]: "head (sim_snek (coast q m)) = next_head (sim_snek m)"
  by (simp add: coast_def head_def)

lemma coasting_not_over:
  assumes "coasting m" and "\<not> sim_over q m"
  shows "in_grid (sim_width m) (sim_height m) (head (sim_snek m))"
  using assms by (simp add: coasting_def unattended_def sim_over_def dead_proper)

lemma wall_distance_coast:
  assumes "coasting m" and "\<not> sim_over q m"
  shows "wall_distance (coast q m) < wall_distance m"
proof -
  note grid = coasting_not_over [OF assms]
  from assms(1) have "proper_grid (sim_width m) (sim_height m)"
    by (simp add: coasting_def unattended_def)
  note coords_next_head [OF grid proper_grid_bounds(1,2) [OF this]]
  with grid show ?thesis
    by (cases "direction (sim_snek m)")
      (simp_all add: wall_distance_def coords_def step_vec_def in_grid_def)
qed

lemma coasting_over:
  assumes "coasting m" and "wall_distance m = 0"
  shows "sim_over q m"
  using assms by (simp add: coasting_def unattended_over)

lemma coasting_ends:
  assumes "coasting m" and "wall_distance m \<le> n"
  shows "\<exists>m'. sim_run (replicate (Suc n) []) q m g = returns (m', g) \<and>
    \<not> alive (sim_snek m') \<and> snek_score (sim_snek m') = snek_score (sim_snek m)"
  using assms
proof (induction n arbitrary: m q)
  case 0
  then have "sim_over q m"
    by (simp add: coasting_over)
  with 0 show ?case
    by (cases "alive (sim_snek m)") (simp_all add: sim_tick_coasting)
next
  case (Suc n)
  show ?case
  proof (cases "alive (sim_snek m) \<and> \<not> sim_over q m")
    case False
    with Suc.prems(1) show ?thesis
      by (cases "alive (sim_snek m)") (simp_all add: sim_tick_coasting)
  next
    case True
    with Suc.prems wall_distance_coast [of m q] have "wall_distance (coast q m) \<le> n"
      by simp
    from Suc.IH [OF coasting_coast [OF Suc.prems(1)] this, of False] True Suc.prems(1)
    show ?thesis
      by (simp add: sim_tick_coasting)
  qed
qed


section \<open>A paused game waits\<close>

lemma sim_tick_paused_idle:
  assumes "sim_paused m" and "body (sim_snek m) \<noteq> []" and "alive (sim_snek m)"
    and "\<not> sim_over q m"
  shows "sim_tick q [] m g = returns (m, g)"
  using assms by (cases m; cases "sim_snek m") (simp add: sim_tick_def Let_def)

lemma sim_run_paused_idle:
  assumes "sim_paused m" and "body (sim_snek m) \<noteq> []" and "alive (sim_snek m)"
    and "\<not> sim_over q m"
  shows "sim_run (replicate n []) q m g = returns (m, g)"
  using assms(4)
proof (induction n arbitrary: q)
  case 0
  show ?case by simp
next
  case (Suc n)
  from Suc.prems have "\<not> sim_over False m"
    by (simp add: sim_over_def)
  with Suc assms(1-3) show ?case
    by (simp add: sim_tick_paused_idle)
qed

text \<open>
  The keys still act on a paused game: an arrow key turns the snake where it
  stands, and the pause key lets it move again, in the direction the last
  arrow key gave it.
\<close>

lemma sim_tick_paused_turn:
  assumes "sim_paused m" and "body (sim_snek m) \<noteq> []" and "alive (sim_snek m)"
    and "\<not> sim_over q m" and "direction (sim_snek m) \<noteq> opposite e"
  shows "sim_tick q [key_of e] m g = returns (m\<lparr>sim_snek := (sim_snek m)\<lparr>direction := e\<rparr>\<rparr>, g)"
  using assms by (simp add: sim_tick_def Let_def change_direction_def)

lemma sim_tick_resume:
  assumes "sim_paused m" and "body (sim_snek m) \<noteq> []" and "alive (sim_snek m)"
    and "\<not> sim_over q m"
  shows "sim_tick q [KeyEsc] m g =
    run_then (slither (sim_snek m) (sim_food m) (sim_width m) (sim_height m) g)
      (\<lambda>(s, p, g'). returns (m\<lparr>sim_paused := False, sim_snek := s, sim_food := p\<rparr>, g'))"
  using assms by (simp add: sim_tick_def Let_def alive_update_True)

end
