(* ===== verification/Fair.thy ===== *)
theory Fair
  imports Simulation
begin

text \<open>
  Fair generators: what the game does when the random numbers are not
  adversarial.

  Section 4.2 of the specification says of the rejection loop of
  \<open>random_point\<close> that it ends with probability one as long as the excluded
  cells do not cover the grid. The model has no probabilities: a generator is
  a stream of draws, and \<open>Rand.rand_point\<close> diverges on the streams whose
  candidates are all excluded. The property of a stream that stands for
  "with probability one" is fairness: every cell of the grid is drawn again
  and again. \<open>fair\<close> states it for the candidates \<open>Rand.candidate\<close> that the
  stream yields on a grid; almost every stream of a uniform generator is
  fair, and \<open>round_robin\<close> is one that can be written down.

  The lemmas show that fairness is what the loops need and that the program
  keeps it: a fair generator makes \<open>rand_point\<close> return exactly when a cell
  is free, the generator that an operation hands back is fair again, so
  \<open>slither\<close>, \<open>sim_tick\<close> and \<open>tick\<close> return as long as the snake leaves two
  cells of the grid free, and the game that nobody plays ends for every fair
  generator, with no assumption on where the food appears.
\<close>

section \<open>The hypothesis\<close>

definition fair :: "u32 \<Rightarrow> u32 \<Rightarrow> rng \<Rightarrow> bool" where
  "fair w h g \<longleftrightarrow> (\<forall>p k. in_grid w h p \<longrightarrow> (\<exists>n\<ge>k. candidate w h g n = p))"

definition round_robin :: "u32 \<Rightarrow> rng" where
  "round_robin w = sinterleave (fromN 0) (smap (\<lambda>n. n div unat w) (fromN 0))"

section \<open>Fairness along the stream\<close>

text \<open>
  An operation consumes an even number of draws, two for each candidate, and
  what is left of a fair stream is fair.
\<close>

lemma candidate_sdrop_even: "candidate w h (sdrop (2 * k) g) n = candidate w h g (n + k)"
  by (simp add: candidate_def sdrop_snth algebra_simps)

lemma fair_sdrop: "fair w h g \<Longrightarrow> fair w h (sdrop (2 * k) g)"
  unfolding fair_def candidate_sdrop_even
proof (intro allI impI)
  fix p j
  assume "\<forall>p k. in_grid w h p \<longrightarrow> (\<exists>n\<ge>k. candidate w h g n = p)" and "in_grid w h p"
  then obtain n where "j + k \<le> n" and "candidate w h g n = p"
    by blast
  then show "\<exists>n\<ge>j. candidate w h g (n + k) = p"
    by (intro exI [of _ "n - k"]) simp
qed

lemma fair_stl2: "fair w h g \<Longrightarrow> fair w h (stl (stl g))"
  using fair_sdrop [of w h g 1] by simp

lemmas fair_later = fair_sdrop fair_stl2 fair_sdrop [OF fair_stl2]

lemma fair_covers:
  assumes "fair w h g" and "\<forall>n. candidate w h g n \<in> set xs"
  shows "\<forall>p. in_grid w h p \<longrightarrow> p \<in> set xs"
  using assms unfolding fair_def by (metis order_refl)

section \<open>A fair generator\<close>

text \<open>
  The stream \<open>0, 0, 1, 0, \<dots>, w - 1, 0, 0, 1, 1, 1, \<dots>\<close> draws the column
  \<open>n mod w\<close> and the row \<open>n div w mod h\<close> for its \<open>n\<close>-th candidate: it sweeps
  the grid row by row, for ever. The hypothesis \<open>fair\<close> is therefore
  satisfiable on every grid with a cell.
\<close>

lemma round_robin_snth:
  "round_robin w !! (2 * n) = n" "stl (round_robin w) !! (2 * n) = n div unat w"
  using sinterleave_snth(2) [of "Suc (2 * n)" "fromN 0" "smap (\<lambda>n. n div unat w) (fromN 0)"]
  by (simp_all add: round_robin_def sinterleave_snth)

lemma candidate_round_robin:
  "candidate w h (round_robin w) n =
     Point (word_of_nat (n mod unat w)) (word_of_nat (n div unat w mod unat h))"
  by (simp add: candidate_def round_robin_snth)

lemma fair_round_robin:
  assumes "proper_grid w h"
  shows "fair w h (round_robin w)"
  unfolding fair_def
proof (intro allI impI)
  fix p k
  assume grid: "in_grid w h p"
  note b = proper_grid_bounds [OF assms]
  let ?x = "nat (sint (px p))" and ?y = "nat (sint (py p))"
  let ?n = "?x + unat w * (?y + unat h * k)"
  from grid have x: "?x < unat w" and y: "?y < unat h"
    by (simp_all add: in_grid_def nat_less_iff)
  from x have "?n mod unat w = ?x" "?n div unat w = ?y + unat h * k"
    by simp_all
  with y have "candidate w h (round_robin w) ?n = Point (word_of_nat ?x) (word_of_nat ?y)"
    by (simp only: candidate_round_robin) simp
  also from grid have "\<dots> = p"
    by (cases p) (simp add: in_grid_def word_of_nat_sint_32)
  finally have "candidate w h (round_robin w) ?n = p" .
  from b(3,4) have "1 \<le> unat w * unat h"
    by (simp add: Suc_leI)
  then have "k * 1 \<le> k * (unat w * unat h)"
    by (rule mult_le_mono2)
  moreover have "?n = ?x + unat w * ?y + k * (unat w * unat h)"
    by (simp add: algebra_simps)
  ultimately have "k \<le> ?n"
    by linarith
  with \<open>candidate w h (round_robin w) ?n = p\<close>
  show "\<exists>n\<ge>k. candidate w h (round_robin w) n = p"
    by blast
qed

lemma proper_grid_program: "proper_grid WIDTH HEIGHT"
  by (simp add: proper_grid_def dim_defs word_sless_alt)

section \<open>The rejection loop returns\<close>

lemma rand_point_fair:
  assumes "proper_grid w h" and "fair w h g" and "in_grid w h q" and "q \<notin> set ex"
  obtains p g' where "rand_point w h ex g = returns (p, g')" and "p \<notin> set ex"
    and "in_grid w h p" and "fair w h g'"
proof (cases w h ex g rule: rand_point_cases)
  case diverge
  with fair_covers [OF assms(2), of ex] assms(3,4) show ?thesis
    by blast
next
  case (return n)
  with fair_sdrop [OF assms(2), of "Suc n"] show ?thesis
    by (intro that [of "candidate w h g n" "sdrop (2 * Suc n) g"])
      (simp_all only: candidate_in_grid not_False_eq_True)
qed (use assms in simp)

text \<open>
  C30 (\<open>rand_point\<close> with a fair generator). On a grid with a cell and with a
  fair generator, \<open>rand_point\<close> returns if some cell of the grid is not
  excluded, with a cell of the grid that is not excluded and a generator
  that is fair again, and runs for ever if every cell is excluded. This is
  the termination with probability one of section 4.2 of the specification,
  with fairness in the place of the probability.
\<close>

theorem rand_point_fair_spec:
  assumes "proper_grid w h" and "fair w h g"
  shows "if \<exists>q. in_grid w h q \<and> q \<notin> set ex
    then \<exists>p g'. rand_point w h ex g = returns (p, g') \<and> in_grid w h p \<and> p \<notin> set ex \<and>
      fair w h g'
    else rand_point w h ex g = diverges"
proof (cases "\<exists>q. in_grid w h q \<and> q \<notin> set ex")
  case True
  then obtain q where "in_grid w h q" and "q \<notin> set ex"
    by blast
  with assms obtain p g' where "rand_point w h ex g = returns (p, g')" and "p \<notin> set ex"
    and "in_grid w h p" and "fair w h g'"
    by (rule rand_point_fair)
  with True show ?thesis
    by auto
next
  case False
  with assms(1) show ?thesis
    by (simp add: rand_point_full_grid)
qed

theorem rand_point_fair_spec_witness:
  "(\<exists>g'. rand_point 2 2 [Point 0 0, Point 1 0, Point 0 1] (round_robin 2) =
      returns (Point 1 1, g') \<and> fair 2 2 g') \<and>
   rand_point 2 1 [Point 0 0, Point 1 0] (round_robin 2) = diverges"
proof -
  have grid: "proper_grid 2 2" "proper_grid 2 1"
    by (simp_all add: proper_grid_def word_sless_alt)
  let ?ex = "[Point 0 0, Point 1 0, Point 0 1]"
  have free: "\<exists>q. in_grid 2 2 q \<and> q \<notin> set ?ex"
    by (intro exI [of _ "Point 1 1"]) (simp add: in_grid_def)
  have full: "\<not> (\<exists>q. in_grid 2 1 q \<and> q \<notin> set [Point 0 0, Point 1 0])"
    by (auto simp: in_grid_iff_grid_cells grid_cells_def upt_conv_Cons)
  have only: "p = Point 1 1" if "in_grid 2 2 p" and "p \<notin> set ?ex" for p
    using that by (auto simp: in_grid_iff_grid_cells grid_cells_def upt_conv_Cons)
  from rand_point_fair_spec [OF grid(1) fair_round_robin [OF grid(1)], of ?ex,
      unfolded if_P [OF free]] only
  have "\<exists>g'. rand_point 2 2 ?ex (round_robin 2) = returns (Point 1 1, g') \<and> fair 2 2 g'"
    by blast
  with rand_point_fair_spec [OF grid(2) fair_round_robin [OF grid(2)],
      of "[Point 0 0, Point 1 0]", unfolded if_not_P [OF full]]
  show ?thesis
    by (intro conjI)
qed

section \<open>The operations return\<close>

text \<open>
  \<open>slither\<close> asks \<open>rand_point\<close> for a cell off the body and the new head. If
  those leave no cell free the list that holds them is as long as the grid is
  large (\<open>Geometry.area_le_length\<close>), so a snake that leaves two cells free
  always finds a place for the food.
\<close>

lemma slither_fair:
  assumes "body s \<noteq> []" and "proper_grid w h" and "fair w h g"
    and "Suc (length (body s)) < unat w * unat h"
  obtains s' p' g' where "slither s p w h g = returns (s', p', g')" and "fair w h g'"
    and "length (body s') \<le> Suc (length (body s))" and "body s' \<noteq> []"
proof (cases s p w h g rule: slither_cases)
  case move
  from move(3) assms(3) show ?thesis
    by (rule that) simp_all
next
  case hang
  from fair_covers [OF assms(3) hang(4)] proper_grid_bounds(1,2) [OF assms(2)]
  have "unat w * unat h \<le> length (body s @ [next_head s])"
    by (intro area_le_length)
  with assms(4) show ?thesis
    by simp
next
  case (grow n)
  from grow(6) fair_sdrop [OF assms(3), of "Suc n"] show ?thesis
    by (rule that) simp_all
qed (use assms in simp_all)

lemma sim_command_sel [simp]:
  "body (sim_snek (sim_command c m)) = body (sim_snek m)"
  "sim_width (sim_command c m) = sim_width m"
  "sim_height (sim_command c m) = sim_height m"
  by (cases c; simp add: change_direction_def)+

lemma sim_tick_fair:
  assumes "body (sim_snek m) \<noteq> []" and "proper_grid (sim_width m) (sim_height m)"
    and "fair (sim_width m) (sim_height m) g"
    and "Suc (length (body (sim_snek m))) < unat (sim_width m) * unat (sim_height m)"
  obtains m' g' where "sim_tick q ks m g = returns (m', g')"
    and "fair (sim_width m) (sim_height m) g'"
    and "length (body (sim_snek m')) \<le> Suc (length (body (sim_snek m)))"
    and "sim_width m' = sim_width m" and "sim_height m' = sim_height m"
    and "body (sim_snek m') \<noteq> []"
proof -
  let ?m2 = "sim_command (command_of ks) (m\<lparr>sim_snek := (sim_snek m)\<lparr>alive := \<not> sim_over q m\<rparr>\<rparr>)"
  show thesis
  proof (cases "sim_paused ?m2")
    case True
    with assms(1) have "sim_tick q ks m g = returns (?m2, g)"
      by (simp add: sim_tick_def Let_def)
    from this assms(3) show ?thesis
      by (rule that) (use assms(1) in simp_all)
  next
    case False
    from assms(1,4) have m2: "body (sim_snek ?m2) \<noteq> []"
      "Suc (length (body (sim_snek ?m2))) < unat (sim_width m) * unat (sim_height m)"
      by simp_all
    from m2(1) assms(2,3) m2(2) obtain s' p' g' where run:
      "slither (sim_snek ?m2) (sim_food ?m2) (sim_width m) (sim_height m) g = returns (s', p', g')"
      and fair: "fair (sim_width m) (sim_height m) g'"
      and len: "length (body s') \<le> Suc (length (body (sim_snek ?m2)))" "body s' \<noteq> []"
      by (rule slither_fair [where p = "sim_food ?m2"])
    from False assms(1) run have "sim_tick q ks m g =
        returns (?m2\<lparr>sim_snek := s', sim_food := p'\<rparr>, g')"
      by (simp add: sim_tick_def Let_def)
    from this fair show ?thesis
      by (rule that) (use len in simp_all)
  qed
qed

lemma tick_fair:
  assumes "body (snek gm) \<noteq> []" and "proper_grid (width gm) (height gm)"
    and "fair (width gm) (height gm) g"
    and "Suc (length (body (snek gm))) < unat (width gm) * unat (height gm)"
  obtains gm' g' where "tick gm g = returns (gm', g')" and "fair (width gm) (height gm) g'"
    and "body (snek gm') \<noteq> []" and "width gm' = width gm" and "height gm' = height gm"
    and "length (body (snek gm')) \<le> Suc (length (body (snek gm)))"
proof -
  from assms obtain m' g'
    where run: "sim_tick (quit gm) (shd (key_events (engine gm))) (sim_of gm) g = returns (m', g')"
      and fair: "fair (width gm) (height gm) g'"
      and m': "length (body (sim_snek m')) \<le> Suc (length (body (snek gm)))"
        "sim_width m' = width gm" "sim_height m' = height gm" "body (sim_snek m') \<noteq> []"
    by (rule sim_tick_fair [of "sim_of gm", simplified])
  from run obtain gm' where tick: "tick gm g = returns (gm', g')" and sim: "sim_of gm' = m'"
    by (rule tick_of_sim_tick)
  from sim have "snek gm' = sim_snek m'" "width gm' = sim_width m'" "height gm' = sim_height m'"
    by (simp_all add: sim_of_eq_iff)
  with tick fair m' show ?thesis
    by (intro that [of gm' g']) simp_all
qed

section \<open>The program keeps the generator fair\<close>

lemma slither_keeps_fair:
  assumes "slither s p w h g = returns (s', p', g')" and "fair w h g"
  shows "fair w h g'" and "body s' \<noteq> []"
proof -
  from assms have "fair w h g' \<and> body s' \<noteq> []"
    by (cases s p w h g rule: slither_cases) (auto intro: fair_later)
  then show "fair w h g'" and "body s' \<noteq> []"
    by simp_all
qed

lemma tick_keeps_fair:
  assumes "tick gm g = returns (gm', g')" and "fair (width gm) (height gm) g"
  shows "fair (width gm) (height gm) g' \<and> body (snek gm') \<noteq> []"
  using assms(1)
proof (cases rule: tick_returns_cases)
  case (held gm1)
  with assms(2) show ?thesis
    by (simp add: same_but_screen_def)
next
  case (moved gm1 s p)
  with slither_keeps_fair [OF moved(4) assms(2)] show ?thesis
    by simp
qed

lemma reachable_keeps_fair:
  assumes "reachable_from start c" and "body (snek (fst start)) \<noteq> []"
    and "fair (width (fst start)) (height (fst start)) (snd start)"
  shows "fair (width (fst start)) (height (fst start)) (snd c) \<and> body (snek (fst c)) \<noteq> []"
  using assms(1)
proof (induction rule: reachable_from.induct)
  case initial
  from assms(2,3) show ?case by simp
next
  case (iterate gm g gm' g')
  from reachable_from_frame(1,2) [OF iterate(1)] iterate(4)
  have "fair (width gm) (height gm) g"
    by simp
  from tick_keeps_fair [OF iterate(3) this] reachable_from_frame(1,2) [OF iterate(1)]
  show ?case by simp
qed

lemma game_new_fair:
  assumes "game_new w h f b t g = returns (gm, g1)" and "fair w h g"
  shows "fair w h g1" and "proper_grid w h"
proof -
  from assms have "fair w h g1 \<and> proper_grid w h"
    by (cases w h f b t g rule: game_new_cases) (auto intro: fair_later)
  then show "fair w h g1" and "proper_grid w h"
    by simp_all
qed

lemma game_new_fair_starts:
  assumes "proper_grid w h" and "fair w h g" and "in_grid w h q" and "q \<notin> set b"
    and "w * 2 + 4 \<le> term_cols t" and "h + 2 \<le> term_rows t"
  obtains n e where "init (w * 2 + 4) (h + 2) f t = Some e"
    and "game_new w h f b t g =
      returns (\<lparr>snek = snek_new b, food = candidate w h g n, paused = False, engine = e,
        width = w, height = h\<rparr>, sdrop (2 * Suc n) g)"
proof (cases w h f b t g rule: game_new_cases)
  case hang
  with fair_covers [OF assms(2), of b] assms(3,4) show ?thesis
    by blast
next
  case (start n e)
  from start(4,5) show ?thesis
    by (rule that)
qed (use assms in \<open>simp_all add: not_less [symmetric]\<close>)

section \<open>The game that nobody plays\<close>

text \<open>
  With a fair generator a run of the simulation returns, whatever keys are
  pressed, when the length of the body and the number of ticks stay below
  the area of the grid: the snake grows by at most one cell a tick and
  leaves two cells free throughout. \<open>Simulation.unattended_ends\<close> says that an
  unattended run that returns ends at the wall; so with a fair generator it
  does end there.
\<close>

lemma sim_run_fair:
  assumes "body (sim_snek m) \<noteq> []" and "proper_grid (sim_width m) (sim_height m)"
    and "fair (sim_width m) (sim_height m) g"
    and "length (body (sim_snek m)) + length ks < unat (sim_width m) * unat (sim_height m)"
  shows "\<exists>m' g'. sim_run ks q m g = returns (m', g')"
  using assms
proof (induction ks arbitrary: m q g)
  case Nil
  show ?case by simp
next
  case (Cons keys rest)
  from Cons.prems have "Suc (length (body (sim_snek m))) <
      unat (sim_width m) * unat (sim_height m)"
    by simp
  with Cons.prems(1-3) obtain m' g' where tick: "sim_tick q keys m g = returns (m', g')"
    and m': "fair (sim_width m) (sim_height m) g'"
      "length (body (sim_snek m')) \<le> Suc (length (body (sim_snek m)))"
      "sim_width m' = sim_width m" "sim_height m' = sim_height m" "body (sim_snek m') \<noteq> []"
    by (rule sim_tick_fair)
  from m' Cons.prems(2,4)
  have "\<exists>m'' g''. sim_run rest (KeyChar CHR ''q'' \<in> set keys) m' g' = returns (m'', g'')"
    by (intro Cons.IH) simp_all
  with tick show ?case
    by simp
qed

lemma unattended_ends_fair:
  assumes "unattended m" and "wall_distance m \<le> n"
    and "fair (sim_width m) (sim_height m) g"
    and "length (body (sim_snek m)) + Suc n < unat (sim_width m) * unat (sim_height m)"
  shows "\<exists>m' g'. sim_run (replicate (Suc n) []) q m g = returns (m', g') \<and>
    \<not> alive (sim_snek m')"
proof -
  from assms(1,3,4) have "\<exists>m' g'. sim_run (replicate (Suc n) []) q m g = returns (m', g')"
    by (intro sim_run_fair) (simp_all add: unattended_def)
  with unattended_ends [OF assms(1,2), of q g] show ?thesis
    by auto
qed

lemma main_loop_unattended_fair:
  assumes "unattended (sim_of gm)" and "key_events (engine gm) = sconst []"
    and "fair (width gm) (height gm) g"
    and "length (body (snek gm)) + Suc (wall_distance (sim_of gm)) < unat (width gm) * unat (height gm)"
  obtains gm' g' where "main_loop gm g = returns (gm', g')" and "\<not> alive (snek gm')"
    and "length (body (snek gm)) \<le> length (body (snek gm'))"
    and "length (body (snek gm')) \<le> length (body (snek gm)) + Suc (wall_distance (sim_of gm))"
    and "start_len (snek gm') = start_len (snek gm)"
proof -
  let ?n = "Suc (wall_distance (sim_of gm))"
  let ?gm = "gm\<lparr>engine := set_title (engine gm) ''SNEK''\<rparr>"
  have sim: "sim_of ?gm = sim_of gm"
    by (simp add: sim_of_def)
  from assms(2) have keys: "stake ?n (key_events (engine gm)) = replicate ?n []"
    by (simp only: stake_sconst)
  from unattended_ends_fair [OF assms(1) order_refl, of g "quit gm"] assms(3,4)
  obtain m' g' where "sim_run (replicate ?n []) (quit gm) (sim_of gm) g = returns (m', g')"
    and dead: "\<not> alive (sim_snek m')"
    by auto
  then have "sim_run (stake ?n (key_events (engine gm))) (quit gm) (sim_of gm) g = returns (m', g')"
    by (simp only: keys)
  from this dead obtain gm' where run: "main_loop gm g = returns (gm', g')"
    and gm': "sim_of gm' = m'"
    by (rule main_loop_of_sim_run)
  from assms(1,2) have "loop ?gm g = ticks ?n ?gm g"
    using loop_unattended [of ?gm g] by (simp add: sim)
  with run have ticks: "ticks ?n ?gm g = returns (gm', g')"
    by (simp add: main_loop_def)
  from ticks_length [OF ticks] reachable_from_frame(3) [OF ticks_reachable [OF ticks]]
    run dead gm' show ?thesis
    by (intro that [of gm' g']) (auto simp: sim_of_eq_iff)
qed

end
