(* ===== verification/Decimal.thy ===== *)
theory Decimal
  imports Snek_Prelude
begin

text \<open>
  Reading back what \<open>to_string\<close> prints. The program prints the score with
  \<^verbatim>\<open>usize::to_string\<close>; \<open>of_string\<close> is the reader a test of the program would
  use on its output: a non-empty string of decimal digits, read from the
  left with an accumulator. The lemmas show that printing yields digits
  only, never a leading zero except for \<open>0\<close> itself, at most \<open>k\<close> of them for a
  number below \<open>10\<^sup>k\<close>, and that reading inverts printing.
\<close>

section \<open>The reader\<close>

definition is_digit :: "char \<Rightarrow> bool" where
  "is_digit c \<longleftrightarrow> 48 \<le> (of_char c :: nat) \<and> (of_char c :: nat) \<le> 57"

definition digit_val :: "char \<Rightarrow> nat option" where
  "digit_val c = (if is_digit c then Some (of_char c - 48) else None)"

fun parse_digits :: "nat \<Rightarrow> string \<Rightarrow> nat option" where
  "parse_digits acc [] = Some acc"
| "parse_digits acc (c # cs) =
     (case digit_val c of None \<Rightarrow> None | Some d \<Rightarrow> parse_digits (10 * acc + d) cs)"

definition of_string :: "string \<Rightarrow> nat option" where
  "of_string s = (if s = [] then None else parse_digits 0 s)"

section \<open>Digits\<close>

lemma digit_val_char_of [simp]:
  fixes d :: nat
  shows "d < 10 \<Longrightarrow> digit_val (char_of (48 + d)) = Some d"
  by (simp add: digit_val_def is_digit_def)

lemma is_digit_char_of [simp]:
  fixes d :: nat
  shows "d < 10 \<Longrightarrow> is_digit (char_of (48 + d))"
  by (simp add: is_digit_def)

lemma char_of_zero_iff:
  fixes d :: nat
  assumes "d < 10"
  shows "char_of (48 + d) = CHR ''0'' \<longleftrightarrow> d = 0"
proof
  assume "char_of (48 + d) = CHR ''0''"
  then have "(of_char (char_of (48 + d)) :: nat) = of_char CHR ''0''"
    by (rule arg_cong)
  with assms show "d = 0"
    by simp
qed (simp add: char_of_def bit_Suc_0_iff)

section \<open>What printing yields\<close>

lemma to_string_digits: "\<forall>c \<in> set (to_string n). is_digit c"
  by (induction n rule: to_string.induct) (subst to_string.simps, simp)

lemma length_to_string_le:
  assumes "n < 10 ^ k" and "0 < k"
  shows "length (to_string n) \<le> k"
  using assms
proof (induction k arbitrary: n)
  case 0
  then show ?case by simp
next
  case (Suc k)
  show ?case
  proof (cases "n < 10")
    case True
    then show ?thesis by simp
  next
    case False
    with Suc.prems have "n div 10 < 10 ^ k" and "0 < k"
      by (auto simp: less_mult_imp_div_less mult.commute intro: gr0I)
    from Suc.IH [OF this] False show ?thesis
      by (subst to_string.simps) simp
  qed
qed

lemma hd_to_string: "hd (to_string n) = CHR ''0'' \<longleftrightarrow> n = 0"
proof (induction n rule: to_string.induct)
  case (1 n)
  show ?case
  proof (cases "n < 10")
    case True
    then show ?thesis
      by (simp add: char_of_zero_iff)
  next
    case False
    with 1 show ?thesis
      by (subst to_string.simps) (simp add: hd_append)
  qed
qed

section \<open>Reading inverts printing\<close>

lemma parse_digits_append:
  "parse_digits acc (xs @ ys) =
     (case parse_digits acc xs of None \<Rightarrow> None | Some a \<Rightarrow> parse_digits a ys)"
  by (induction xs arbitrary: acc) (simp_all split: option.splits)

lemma parse_digits_to_string: "parse_digits 0 (to_string n) = Some n"
proof (induction n rule: to_string.induct)
  case (1 n)
  show ?case
  proof (cases "n < 10")
    case True
    then show ?thesis by simp
  next
    case False
    with 1 show ?thesis
      by (subst to_string.simps) (simp add: parse_digits_append)
  qed
qed

lemma of_string_to_string [simp]: "of_string (to_string n) = Some n"
  by (simp add: of_string_def parse_digits_to_string)

lemma to_string_inject [simp]: "to_string m = to_string n \<longleftrightarrow> m = n"
  by (metis of_string_to_string option.inject)

end
