(* ===== verification/Fixture.thy ===== *)
theory Fixture
  imports Game
begin

text \<open>
  A game to evaluate the theorems on: a terminal of 80 columns and 24 rows
  whose player presses the keys of a given stream, the engine \<open>init\<close> builds on
  that terminal for the grid of the program, and the game \<^verbatim>\<open>Game::new\<close> builds
  there for a given body and food cell. With the generator \<open>sconst 7\<close>, which
  offers the cell \<open>(7, 7)\<close> for ever, \<open>game_new\<close> on the terminal returns that
  game.
\<close>

definition demo_engine :: "keycode list stream \<Rightarrow> engine" where
  "demo_engine ks =
     \<lparr>scr_width = 38, scr_height = 17, target_fps = 8, title = [],
      screen = (\<lambda>_. pxl CHR '' ''), frames = [], keys_pressed = [], key_events = ks\<rparr>"

definition demo_terminal :: "keycode list stream \<Rightarrow> terminal" where
  "demo_terminal ks = \<lparr>term_cols = 80, term_rows = 24, player = ks\<rparr>"

definition demo_game :: "point list \<Rightarrow> point \<Rightarrow> keycode list stream \<Rightarrow> game" where
  "demo_game b p ks =
     \<lparr>snek = snek_new b, food = p, paused = False, engine = demo_engine ks,
      width = WIDTH, height = HEIGHT\<rparr>"

lemma demo_game_sel [simp]:
  "snek (demo_game b p ks) = snek_new b"
  "food (demo_game b p ks) = p"
  "paused (demo_game b p ks) = False"
  "width (demo_game b p ks) = 17"
  "height (demo_game b p ks) = 15"
  "key_events (engine (demo_game b p ks)) = ks"
  "quit (demo_game b p ks) = False"
  by (simp_all add: demo_game_def demo_engine_def quit_def is_key_pressed_def dim_defs)

lemma demo_engine_sel [simp]:
  "scr_width (engine (demo_game b p ks)) = 38"
  "scr_height (engine (demo_game b p ks)) = 17"
  "frames (engine (demo_game b p ks)) = []"
  by (simp_all add: demo_game_def demo_engine_def)

lemma game_new_demo:
  "game_new WIDTH HEIGHT FPS STARTING_BODY (demo_terminal ks) (sconst 7) =
     returns (demo_game STARTING_BODY (Point 7 7) ks, sconst 7)"
  by (simp add: game_new_def demo_game_def demo_engine_def demo_terminal_def init_def snek_eval)

end
