(* ===== verification/Frame.thy ===== *)
theory Frame
  imports Render Decimal Fixture
begin

text \<open>
  What a drawn frame shows. A grid cell \<open>(x, y)\<close> occupies the two screen cells
  \<open>left_cell\<close> and \<open>right_cell\<close>, in the columns \<open>2x + 2\<close> and \<open>2x + 3\<close> of the
  row \<open>y + 1\<close>, and \<open>point_of_cell\<close> maps a screen cell back to its grid cell;
  \<open>screen_for\<close> says that an engine has the screen \<^verbatim>\<open>Game::new\<close> asks for, small
  enough for the \<^verbatim>\<open>i32\<close> arithmetic of the drawing methods not to wrap, and
  \<open>fits\<close> says so of the engine of a game. \<open>frame_pixel\<close> is the pixel the
  specification gives a screen cell: on the cells of a grid cell \<open>cell_pixel\<close>
  (the eye on the head, the snake colour on the other segments, the food
  colour on the food, the map colour elsewhere), in the first and the last
  row the centred status texts, and the border colour around them. The
  lemmas read the frame buffer after each drawing method, in the order
  \<^verbatim>\<open>Game::draw\<close> calls them, at every cell of the screen.
\<close>

section \<open>Specification vocabulary\<close>

definition left_cell :: "point \<Rightarrow> nat \<times> nat" where
  "left_cell p = (nat (2 * sint (px p) + 2), nat (sint (py p) + 1))"

definition right_cell :: "point \<Rightarrow> nat \<times> nat" where
  "right_cell p = (nat (2 * sint (px p) + 3), nat (sint (py p) + 1))"

abbreviation cells :: "point \<Rightarrow> (nat \<times> nat) set" where
  "cells p \<equiv> {left_cell p, right_cell p}"

definition point_of_cell :: "nat \<times> nat \<Rightarrow> point" where
  "point_of_cell cr =
     Point (word_of_int (int (fst cr) div 2 - 1)) (word_of_int (int (snd cr) - 1))"

definition screen_for :: "engine \<Rightarrow> u32 \<Rightarrow> u32 \<Rightarrow> bool" where
  "screen_for e w h \<longleftrightarrow>
     scr_width e = w * 2 + 4 \<and> scr_height e = h + 2 \<and>
     uint w < 2 ^ 30 - 2 \<and> uint h < 2 ^ 30 - 2"

definition fits :: "game \<Rightarrow> bool" where
  "fits gm \<longleftrightarrow> screen_for (engine gm) (width gm) (height gm)"

definition eye_pixel :: "game \<Rightarrow> pixel" where
  "eye_pixel gm =
     pxl_fbg (if alive (snek gm) then EYE_CHAR else DEAD_EYE_CHAR) HEAD_COLOR SNEK_COLOR"

definition cell_pixel :: "game \<Rightarrow> point \<Rightarrow> pixel" where
  "cell_pixel gm p =
     (if p = head (snek gm) then eye_pixel gm
      else if p \<in> set (body (snek gm)) then pxl_bg CHR '' '' SNEK_COLOR
      else if p = food gm then pxl_bg CHR '' '' FOOD_COLOR
      else pxl_bg CHR '' '' MAP_COLOR)"

text \<open>
  The two status lines: \<open>score_text\<close> in the last row and \<open>prompt_text\<close> in the
  first, each centred; \<open>text_cell\<close> is the pixel a centred text leaves in a
  column of its row.
\<close>

definition score_text :: "game \<Rightarrow> string" where
  "score_text gm = SCORE_PROMPT @ to_string (unat (game_score gm))"

definition prompt_text :: "game \<Rightarrow> string" where
  "prompt_text gm = (if paused gm then PAUSE_PROMPT else GAME_PROMPT)"

definition text_cell :: "string \<Rightarrow> u32 \<Rightarrow> nat \<Rightarrow> pixel \<Rightarrow> pixel" where
  "text_cell txt w c old =
     (let mid = uint w + 2 - int (length txt div 2)
      in if mid \<le> int c \<and> int c < mid + int (length txt)
         then pxl_fbg (txt ! nat (int c - mid)) Reset BORDER_COLOR
         else old)"

text \<open>
  The whole frame: a screen cell that belongs to a segment of the snake, to
  the food or to a cell of the grid shows \<open>cell_pixel\<close>; the other cells are
  the border, with the prompt in the first row and the score in the last.
\<close>

definition frame_pixel :: "game \<Rightarrow> nat \<times> nat \<Rightarrow> pixel" where
  "frame_pixel gm cr =
     (let p = point_of_cell cr; border = pxl_bg CHR '' '' BORDER_COLOR
      in if p \<in> set (body (snek gm)) \<or> p = food gm \<or> in_grid (width gm) (height gm) p
         then cell_pixel gm p
         else if snd cr = 0 then text_cell (prompt_text gm) (width gm) (fst cr) border
         else if int (snd cr) = uint (height gm) + 1
           then text_cell (score_text gm) (width gm) (fst cr) border
         else border)"

section \<open>Cells of the grid on the screen\<close>

lemma screen_for_cong:
  "scr_width e' = scr_width e \<Longrightarrow> scr_height e' = scr_height e \<Longrightarrow>
     screen_for e' w h = screen_for e w h"
  by (simp add: screen_for_def)

lemma screen_for_dims:
  assumes "screen_for e w h"
  shows "sint (scr_width e) = 2 * uint w + 4" and "sint (scr_height e) = uint h + 2"
    and "sint (scr_width e - 3) = 2 * uint w + 1" and "sint (scr_height e - 2) = uint h"
    and "sint (scr_height e - 1) = uint h + 1"
proof -
  from assms have e: "scr_width e = w * 2 + 4" "scr_height e = h + 2"
    and w: "uint w < 2 ^ 30 - 2" and h: "uint h < 2 ^ 30 - 2"
    by (simp_all add: screen_for_def)
  show "sint (scr_width e) = 2 * uint w + 4" and "sint (scr_height e) = uint h + 2"
    and "sint (scr_width e - 3) = 2 * uint w + 1" and "sint (scr_height e - 2) = uint h"
    and "sint (scr_height e - 1) = uint h + 1"
    unfolding e by (rule sint_screen_32 [OF w] sint_screen_32 [OF h])+
qed

lemma cell_on_screen:
  assumes "screen_for e w h" and "in_frame w h p"
  shows "on_screen e (sint (px p * 2 + 2)) (sint (py p + 1))"
    and "on_screen e (sint (px p * 2 + 3)) (sint (py p + 1))"
    and "(nat (sint (px p * 2 + 2)), nat (sint (py p + 1))) = left_cell p"
    and "(nat (sint (px p * 2 + 3)), nat (sint (py p + 1))) = right_cell p"
proof -
  from assms have x: "- 1 \<le> sint (px p)" "sint (px p) < 2 ^ 30 - 2"
    and y: "- 1 \<le> sint (py p)" "sint (py p) < 2 ^ 30 - 2"
    by (simp_all add: screen_for_def in_frame_def)
  note cell = sint_cell_32(1,2) [OF x] sint_cell_32(3) [OF y]
  note dims = screen_for_dims(1,2) [OF assms(1)]
  from assms show "on_screen e (sint (px p * 2 + 2)) (sint (py p + 1))"
    and "on_screen e (sint (px p * 2 + 3)) (sint (py p + 1))"
    by (simp_all add: on_screen_def cell dims in_frame_def)
  show "(nat (sint (px p * 2 + 2)), nat (sint (py p + 1))) = left_cell p"
    and "(nat (sint (px p * 2 + 3)), nat (sint (py p + 1))) = right_cell p"
    by (simp_all add: cell left_cell_def right_cell_def)
qed

lemma draw_cell_screen:
  assumes "screen_for e w h" and "in_frame w h p"
  shows "screen (draw_cell e p c) = (screen e)(left_cell p := c, right_cell p := c)"
  using cell_on_screen [OF assms]
  by (simp add: draw_cell_def screen_set_pxl on_screen_cong [of "set_pxl e x y c" e for x y])

lemma cell_coords:
  assumes "in_frame w h p"
  obtains c r where "left_cell p = (c, r)" and "right_cell p = (Suc c, r)"
    and "int c = 2 * sint (px p) + 2" and "int r = sint (py p) + 1"
proof (rule that)
  from assms have x: "- 1 \<le> sint (px p)" and y: "- 1 \<le> sint (py p)"
    by (simp_all add: in_frame_def)
  from x have "nat (2 * sint (px p) + 3) = Suc (nat (2 * sint (px p) + 2))"
    by linarith
  then show "right_cell p = (Suc (nat (2 * sint (px p) + 2)), nat (sint (py p) + 1))"
    by (simp add: right_cell_def)
  from x show "int (nat (2 * sint (px p) + 2)) = 2 * sint (px p) + 2"
    by linarith
  from y show "int (nat (sint (py p) + 1)) = sint (py p) + 1"
    by linarith
qed (simp add: left_cell_def)

text \<open>
  The screen is made of the cells of the points of the frame: every screen
  cell is the left or the right cell of exactly one point, which
  \<open>point_of_cell\<close> computes.
\<close>

lemma point_of_cell_cell:
  assumes "in_frame w h p" and "cr \<in> cells p"
  shows "point_of_cell cr = p"
proof -
  from assms(1) obtain c r where cell: "left_cell p = (c, r)" "right_cell p = (Suc c, r)"
    and c: "int c = 2 * sint (px p) + 2" and r: "int r = sint (py p) + 1"
    by (rule cell_coords)
  from c have "int c div 2 - 1 = sint (px p)" "int (Suc c) div 2 - 1 = sint (px p)"
    by simp_all
  with r have "point_of_cell (c, r) = p" "point_of_cell (Suc c, r) = p"
    by (simp_all only: point_of_cell_def fst_conv snd_conv add_diff_cancel_right') simp_all
  with assms(2) show ?thesis
    by (auto simp: cell)
qed

lemma cells_iff:
  assumes "in_frame w h p" and "in_frame w h q" and "cr \<in> cells p"
  shows "cr \<in> cells q \<longleftrightarrow> p = q"
  using point_of_cell_cell [OF assms(1,3)] point_of_cell_cell [OF assms(2), of cr] assms(3)
  by auto

lemma screen_cell_cases:
  assumes "screen_for e w h" and "on_screen e (int c) (int r)"
  obtains p where "in_frame w h p" and "p = point_of_cell (c, r)"
    and "(c, r) \<in> cells p" and "int r = sint (py p) + 1"
proof -
  note dims = screen_for_dims(1,2) [OF assms(1)]
  from assms(1) have w: "uint w < 1073741822" and h: "uint h < 1073741822"
    by (simp_all add: screen_for_def)
  from assms(2) have c: "0 \<le> int c" "int c < 2 * uint w + 4"
    and r: "0 \<le> int r" "int r < uint h + 2"
    unfolding on_screen_def dims by simp_all
  let ?x = "int c div 2 - 1" and ?y = "int r - 1"
  from c w have x: "- 1 \<le> ?x" "?x \<le> uint w" "- (2 ^ 31) \<le> ?x" "?x < 2 ^ 31"
    by simp_all
  from r h have y: "- 1 \<le> ?y" "?y \<le> uint h" "- (2 ^ 31) \<le> ?y" "?y < 2 ^ 31"
    by simp_all
  let ?p = "point_of_cell (c, r)"
  have sx: "sint (px ?p) = ?x" and sy: "sint (py ?p) = ?y"
    by (simp_all only: point_of_cell_def point.sel fst_conv snd_conv
        sint_of_int_32 [OF x(3,4)] sint_of_int_32 [OF y(3,4)])
  from x y have "in_frame w h ?p"
    by (simp add: in_frame_def sx sy)
  moreover have "int c = 2 * ?x + 2 \<or> int c = 2 * ?x + 3"
    by presburger
  then have "c = nat (2 * ?x + 2) \<or> c = nat (2 * ?x + 3)"
    by linarith
  then have "(c, r) \<in> cells ?p"
    unfolding left_cell_def right_cell_def sx sy by simp
  ultimately show thesis
    by (intro that [of ?p]) (simp_all add: sy)
qed

lemma frame_pixel_cell:
  assumes "in_frame (width gm) (height gm) p" and "cr \<in> cells p"
    and "p \<in> set (body (snek gm)) \<or> p = food gm \<or> in_grid (width gm) (height gm) p"
  shows "frame_pixel gm cr = cell_pixel gm p"
  using assms(3) by (simp add: frame_pixel_def point_of_cell_cell [OF assms(1,2)])

text \<open>Drawing a cell changes the two screen cells of its point and no other.\<close>

lemma draw_cell_at:
  assumes "screen_for e w h" and "in_frame w h q" and "in_frame w h p" and "cr \<in> cells p"
  shows "screen (draw_cell e q c) cr = (if p = q then c else screen e cr)"
  using draw_cell_screen [OF assms(1,2), of c] cells_iff [OF assms(3,2,4)] assms(4)
  by auto

lemma foldl_draw_cell_at:
  assumes "screen_for e w h" and "\<forall>q \<in> set ps. in_frame w h q" and "in_frame w h p"
    and "cr \<in> cells p"
  shows "screen (foldl (\<lambda>e part. draw_cell e part c) e ps) cr =
    (if p \<in> set ps then c else screen e cr)"
  using assms(2)
proof (induction ps rule: rev_induct)
  case Nil
  show ?case by simp
next
  case (snoc q ps)
  let ?e = "foldl (\<lambda>e part. draw_cell e part c) e ps"
  from assms(1) have "screen_for ?e w h"
    by (simp add: screen_for_cong [of ?e e])
  moreover from snoc.prems have "in_frame w h q"
    by simp
  ultimately have "screen (draw_cell ?e q c) cr = (if p = q then c else screen ?e cr)"
    using assms(3,4) by (rule draw_cell_at)
  with snoc show ?case
    by simp
qed

section \<open>The frame buffer after each drawing method\<close>

lemma draw_map_cell:
  assumes "fits gm" and "in_frame (width gm) (height gm) p" and "cr \<in> cells p"
    and "0 < uint (width gm)" and "0 < uint (height gm)"
  shows "screen (engine (draw_map gm)) cr =
    pxl_bg CHR '' '' (if in_grid (width gm) (height gm) p then MAP_COLOR else BORDER_COLOR)"
proof -
  let ?e = "fill (engine gm) (pxl_bg CHR '' '' BORDER_COLOR)"
  from assms(1) have "screen_for ?e (width gm) (height gm)"
    by (simp add: fits_def screen_for_cong [of ?e "engine gm"])
  note dims = screen_for_dims [OF this]
  from assms(2) obtain c r where cell: "left_cell p = (c, r)" "right_cell p = (Suc c, r)"
    and c: "int c = 2 * sint (px p) + 2" and r: "int r = sint (py p) + 1"
    by (rule cell_coords)
  have two: "sint (2 :: i32) = 2" "sint (1 :: i32) = 1"
    by simp_all
  have rect: "sint (2 :: i32) \<le> sint (scr_width ?e - 3)"
    "sint (1 :: i32) \<le> sint (scr_height ?e - 2)"
    unfolding dims two using assms(4,5) by simp_all
  have map: "engine (draw_map gm) =
      fill_rect ?e 2 1 (scr_width ?e - 3) (scr_height ?e - 2) (pxl_bg CHR '' '' MAP_COLOR)"
    by (simp add: draw_map_def Let_def)
  from assms(2) c r have on: "on_screen ?e (int c) (int r)" "on_screen ?e (int (Suc c)) (int r)"
    unfolding on_screen_def dims in_frame_def by simp_all
  from c r have "screen (engine (draw_map gm)) (c, r) =
      pxl_bg CHR '' '' (if in_grid (width gm) (height gm) p then MAP_COLOR else BORDER_COLOR)"
    and "screen (engine (draw_map gm)) (Suc c, r) =
      pxl_bg CHR '' '' (if in_grid (width gm) (height gm) p then MAP_COLOR else BORDER_COLOR)"
    unfolding map screen_fill_rect [OF on(1) rect] screen_fill_rect [OF on(2) rect] dims two
    by (auto simp: in_grid_def screen_fill)
  with assms(3) show ?thesis
    by (auto simp: cell)
qed

lemma length_score_text: "length (score_text gm) < 2 ^ 31"
proof -
  have "unat (game_score gm) < 2 ^ 64"
    using unsigned_less [of "game_score gm", where 'a = nat] by simp
  then have "unat (game_score gm) < 10 ^ 20"
    by simp
  from length_to_string_le [OF this] show ?thesis
    by (simp add: score_text_def SCORE_PROMPT_def)
qed

lemma length_prompt_text: "length (prompt_text gm) < 2 ^ 31"
  by (simp add: prompt_text_def PAUSE_PROMPT_def GAME_PROMPT_def)

lemma engine_draw_prompts:
  "engine (draw_prompts gm) =
     print_fbg
       (print_fbg (engine gm)
          (scr_width (engine gm) div 2 - word_of_nat (length (score_text gm)) div 2)
          (scr_height (engine gm) - 1) (score_text gm) Reset BORDER_COLOR)
       (scr_width (engine gm) div 2 - word_of_nat (length (prompt_text gm)) div 2)
       0 (prompt_text gm) Reset BORDER_COLOR"
  by (simp add: draw_prompts_def Let_def get_width_def get_height_def score_text_def
      prompt_text_def)

lemma sint_prompt_column:
  assumes "fits gm" and "length txt < 2 ^ 31"
  shows "sint (scr_width (engine gm) div 2 - word_of_nat (length txt) div 2) =
    uint (width gm) + 2 - int (length txt div 2)"
proof -
  from assms(1) have w: "scr_width (engine gm) = width gm * 2 + 4" "uint (width gm) < 2 ^ 30 - 2"
    by (simp_all add: fits_def screen_for_def)
  show ?thesis
    unfolding w(1) using w(2) assms(2) by (rule sint_centre_32)
qed

lemma draw_prompts_rows:
  assumes "fits gm" and "int c < 2 * uint (width gm) + 4" and "int r < uint (height gm) + 2"
  shows "screen (engine (draw_prompts gm)) (c, r) =
    (if r = 0 then text_cell (prompt_text gm) (width gm) c (screen (engine gm) (c, r))
     else if int r = uint (height gm) + 1
       then text_cell (score_text gm) (width gm) c (screen (engine gm) (c, r))
     else screen (engine gm) (c, r))"
proof -
  let ?e = "engine gm"
  let ?e1 = "print_fbg ?e
    (scr_width ?e div 2 - word_of_nat (length (score_text gm)) div 2)
    (scr_height ?e - 1) (score_text gm) Reset BORDER_COLOR"
  from assms(1) have "screen_for ?e (width gm) (height gm)"
    by (simp add: fits_def)
  note dims = screen_for_dims(1,2,5) [OF this]
  note x = sint_prompt_column [OF assms(1) length_score_text]
    sint_prompt_column [OF assms(1) length_prompt_text]
  from assms(2,3) dims have on: "on_screen ?e (int c) (int r)" "on_screen ?e1 (int c) (int r)"
    by (simp_all add: on_screen_def)
  have "0 \<le> uint (height gm)"
    by simp
  then have "r = 0 \<Longrightarrow> int r \<noteq> uint (height gm) + 1"
    by linarith
  then show ?thesis
    unfolding engine_draw_prompts screen_print_fbg [OF on(2)] screen_print_fbg [OF on(1)] x dims
    by (auto simp: text_cell_def Let_def)
qed

lemma draw_snek_eq:
  assumes "body (snek gm) \<noteq> []"
  shows "draw_snek gm =
    Inr (gm\<lparr>engine := draw_cell
      (foldl (\<lambda>e part. draw_cell e part (pxl_bg CHR '' '' SNEK_COLOR)) (engine gm) (body (snek gm)))
      (head (snek gm)) (eye_pixel gm)\<rparr>)"
  using assms by (simp add: draw_snek_def Let_def head_def eye_pixel_def)

lemma draw_snek_screen:
  assumes "draw_snek gm = Inr gm'" and "fits gm"
    and "\<forall>q \<in> set (body (snek gm)). in_frame (width gm) (height gm) q"
    and "in_frame (width gm) (height gm) p" and "cr \<in> cells p"
  shows "screen (engine gm') cr =
    (if p = head (snek gm) then eye_pixel gm
     else if p \<in> set (body (snek gm)) then pxl_bg CHR '' '' SNEK_COLOR
     else screen (engine gm) cr)"
proof -
  let ?e = "foldl (\<lambda>e part. draw_cell e part (pxl_bg CHR '' '' SNEK_COLOR)) (engine gm)
    (body (snek gm))"
  from assms(1) have nonempty: "body (snek gm) \<noteq> []"
    by (cases "body (snek gm) = []") simp_all
  with assms(3) have h: "in_frame (width gm) (height gm) (head (snek gm))"
    by (simp add: head_def)
  from assms(2) have for_e: "screen_for (engine gm) (width gm) (height gm)"
    by (simp add: fits_def)
  then have "screen_for ?e (width gm) (height gm)"
    by (simp add: screen_for_cong [of ?e "engine gm"])
  from draw_cell_at [OF this h assms(4,5)] assms(1) nonempty
  have "screen (engine gm') cr = (if p = head (snek gm) then eye_pixel gm else screen ?e cr)"
    by (auto simp: draw_snek_eq)
  with foldl_draw_cell_at [OF for_e assms(3,4,5)] show ?thesis
    by simp
qed

lemma draw_food_screen:
  assumes "fits gm" and "in_frame (width gm) (height gm) (food gm)"
    and "in_frame (width gm) (height gm) p" and "cr \<in> cells p"
  shows "screen (engine (draw_food gm)) cr =
    (if p = food gm then pxl_bg CHR '' '' FOOD_COLOR else screen (engine gm) cr)"
proof -
  from assms(1) have "screen_for (engine gm) (width gm) (height gm)"
    by (simp add: fits_def)
  from draw_cell_at [OF this assms(2,3,4)] show ?thesis
    by (simp add: draw_food_def)
qed

section \<open>The frame buffer after a whole frame\<close>

lemma same_but_screen_sel:
  assumes "same_but_screen gm gm'"
  shows "snek gm' = snek gm" and "food gm' = food gm" and "width gm' = width gm"
    and "height gm' = height gm" and "fits gm' = fits gm" and "eye_pixel gm' = eye_pixel gm"
    and "prompt_text gm' = prompt_text gm" and "score_text gm' = score_text gm"
  using assms
  by (simp_all add: same_but_screen_def fits_def screen_for_def eye_pixel_def prompt_text_def
      score_text_def game_score_def)

lemmas draw_stage_sel [simp] =
  same_but_screen_sel [OF draw_map_same] same_but_screen_sel [OF draw_prompts_same]
  same_but_screen_sel [OF draw_food_same]

lemma draw_layers:
  assumes "draw gm = Inr gm'" and "fits gm"
    and "\<forall>q \<in> set (body (snek gm)). in_frame (width gm) (height gm) q"
    and "in_frame (width gm) (height gm) (food gm)"
    and "in_frame (width gm) (height gm) p" and "cr \<in> cells p"
  shows "screen (engine gm') cr =
    (if p = head (snek gm) then eye_pixel gm
     else if p \<in> set (body (snek gm)) then pxl_bg CHR '' '' SNEK_COLOR
     else if p = food gm then pxl_bg CHR '' '' FOOD_COLOR
     else screen (engine (draw_prompts (draw_map gm))) cr)"
proof -
  let ?g2 = "draw_prompts (draw_map gm)"
  from assms(1) have "draw_snek (draw_food ?g2) = Inr gm'"
    by (simp add: draw_def)
  from draw_snek_screen [OF this, of p cr] draw_food_screen [of ?g2 p cr] assms(2-6)
  show ?thesis
    by simp
qed

lemma draw_screen:
  assumes "draw gm = Inr gm'" and "fits gm"
    and "\<forall>q \<in> set (body (snek gm)). in_frame (width gm) (height gm) q"
    and "in_grid (width gm) (height gm) (food gm)"
    and "int c < 2 * uint (width gm) + 4" and "int r < uint (height gm) + 2"
  shows "screen (engine gm') (c, r) = frame_pixel gm (c, r)"
proof -
  let ?g1 = "draw_map gm"
  from assms(2) have for_e: "screen_for (engine gm) (width gm) (height gm)"
    by (simp add: fits_def)
  with assms(5,6) have "on_screen (engine gm) (int c) (int r)"
    by (simp add: on_screen_def screen_for_dims)
  with for_e obtain p where p: "in_frame (width gm) (height gm) p" "p = point_of_cell (c, r)"
    and cell: "(c, r) \<in> cells p" and r: "int r = sint (py p) + 1"
    by (rule screen_cell_cases)
  note layers = draw_layers [OF assms(1-3) in_grid_in_frame [OF assms(4)] p(1) cell]
  from draw_prompts_rows [of ?g1 c r] assms(2,5,6)
  have prompts: "screen (engine (draw_prompts ?g1)) (c, r) =
      (if r = 0 then text_cell (prompt_text gm) (width gm) c (screen (engine ?g1) (c, r))
       else if int r = uint (height gm) + 1
         then text_cell (score_text gm) (width gm) c (screen (engine ?g1) (c, r))
       else screen (engine ?g1) (c, r))"
    by simp
  from assms(4) have "0 < uint (width gm)" "0 < uint (height gm)"
    by (simp_all add: in_grid_def)
  note map = draw_map_cell [OF assms(2) p(1) cell this]
  from assms(1) have hd: "head (snek gm) \<in> set (body (snek gm))"
    by (cases gm rule: draw_cases) (simp_all add: head_def)
  from r have "\<not> in_grid (width gm) (height gm) p" if "r = 0 \<or> int r = uint (height gm) + 1"
    using that by (auto simp: in_grid_def)
  with hd show ?thesis
    unfolding layers prompts map frame_pixel_def cell_pixel_def p(2) [symmetric] Let_def
    by auto
qed

section \<open>The frame of the game at its start\<close>

lemma fits_demo [simp]: "fits (demo_game b p ks)"
  by (simp add: fits_def screen_for_def)

lemma frame_pixel_demo:
  "frame_pixel (demo_game STARTING_BODY (Point 7 7) ks) (8, 1) = pxl_fbg CHR ''^'' Black Blue"
  "frame_pixel (demo_game STARTING_BODY (Point 7 7) ks) (9, 1) = pxl_fbg CHR ''^'' Black Blue"
  "frame_pixel (demo_game STARTING_BODY (Point 7 7) ks) (2, 1) = pxl_bg CHR '' '' Blue"
  "frame_pixel (demo_game STARTING_BODY (Point 7 7) ks) (16, 8) = pxl_bg CHR '' '' Red"
  "frame_pixel (demo_game STARTING_BODY (Point 7 7) ks) (10, 1) = pxl_bg CHR '' '' Green"
  "frame_pixel (demo_game STARTING_BODY (Point 7 7) ks) (0, 3) = pxl_bg CHR '' '' Black"
  "frame_pixel (demo_game STARTING_BODY (Point 7 7) ks) (17, 0) = pxl_fbg CHR ''S'' Reset Black"
  "frame_pixel (demo_game STARTING_BODY (Point 7 7) ks) (22, 16) = pxl_fbg CHR ''0'' Reset Black"
  by (simp_all add: frame_pixel_def point_of_cell_def cell_pixel_def eye_pixel_def text_cell_def
      prompt_text_def score_text_def game_score_def head_def snek_new_def STARTING_BODY_def
      in_grid_def render_consts to_string_eval snek_score_def)

section \<open>Properties\<close>

text \<open>
  C13 (what a frame shows). After \<open>draw\<close>, on a screen of the size \<^verbatim>\<open>Game::new\<close>
  asks for, with the food on the grid and every segment of the snake on the
  grid or one step outside it, every cell of the screen shows the pixel of
  the specification \<open>frame_pixel\<close>: on both screen cells of a grid cell the eye
  on the head (the dead eye when the snake is not alive), the snake colour on
  every other segment, the food colour on the food and the map colour
  elsewhere; around the grid the border colour, with the prompt centred in
  the first row and the score in the last, and with the head where it has
  left the grid.
\<close>

theorem draw_shows_frame:
  assumes "draw gm = Inr gm'" and "fits gm"
    and "\<forall>q \<in> set (body (snek gm)). in_frame (width gm) (height gm) q"
    and "in_grid (width gm) (height gm) (food gm)"
    and "int c < 2 * uint (width gm) + 4" and "int r < uint (height gm) + 2"
  shows "screen (engine gm') (c, r) = frame_pixel gm (c, r)"
  using assms by (rule draw_screen)

theorem draw_shows_frame_witness:
  "\<exists>gm'. draw (demo_game STARTING_BODY (Point 7 7) (sconst [])) = Inr gm' \<and>
     screen (engine gm') (8, 1) = pxl_fbg CHR ''^'' Black Blue \<and>
     screen (engine gm') (2, 1) = pxl_bg CHR '' '' Blue \<and>
     screen (engine gm') (16, 8) = pxl_bg CHR '' '' Red \<and>
     screen (engine gm') (10, 1) = pxl_bg CHR '' '' Green \<and>
     screen (engine gm') (0, 3) = pxl_bg CHR '' '' Black \<and>
     screen (engine gm') (17, 0) = pxl_fbg CHR ''S'' Reset Black \<and>
     screen (engine gm') (22, 16) = pxl_fbg CHR ''0'' Reset Black"
proof -
  let ?gm = "demo_game STARTING_BODY (Point 7 7) (sconst [])"
  obtain gm' where run: "draw ?gm = Inr gm'"
    by (cases ?gm rule: draw_cases) (simp_all add: snek_new_def STARTING_BODY_def)
  have body: "\<forall>q \<in> set (body (snek ?gm)). in_frame (width ?gm) (height ?gm) q"
    and food: "in_grid (width ?gm) (height ?gm) (food ?gm)"
    by (simp_all add: snek_new_def STARTING_BODY_def in_frame_def in_grid_def)
  note shown = draw_shows_frame [OF run fits_demo body food]
  from shown [of 8 1] shown [of 2 1] shown [of 16 8] shown [of 10 1] shown [of 0 3]
    shown [of 17 0] shown [of 22 16] run
  show ?thesis
    by (simp add: frame_pixel_demo del: One_nat_def)
qed

text \<open>
  C14 (the status lines). \<open>draw_prompts\<close> writes two rows of the screen and no
  other: the first row shows the prompt (the name of the game, or the pause
  prompt while the game is paused) and the last row the score, each starting
  at the column \<open>w + 2 - n div 2\<close> for a text of \<open>n\<close> characters on a grid of width
  \<open>w\<close>, in the default foreground on the border colour. The column is computed
  in \<^verbatim>\<open>u32\<close> and cast to \<^verbatim>\<open>i32\<close>; when the text is wider than the screen the
  subtraction wraps and the cast yields the negative column, so that the text
  is clipped on both sides.
\<close>

theorem draw_prompts_spec:
  assumes "fits gm" and "int c < 2 * uint (width gm) + 4" and "int r < uint (height gm) + 2"
  shows "screen (engine (draw_prompts gm)) (c, r) =
    (if r = 0 then text_cell (prompt_text gm) (width gm) c (screen (engine gm) (c, r))
     else if int r = uint (height gm) + 1
       then text_cell (score_text gm) (width gm) c (screen (engine gm) (c, r))
     else screen (engine gm) (c, r))"
  using assms by (rule draw_prompts_rows)

theorem draw_prompts_spec_witness:
  "screen (engine (draw_prompts (demo_game STARTING_BODY (Point 7 7) (sconst [])))) (17, 0) =
     pxl_fbg CHR ''S'' Reset Black \<and>
   screen (engine (draw_prompts (demo_game STARTING_BODY (Point 7 7) (sconst [])))) (20, 0) =
     pxl_fbg CHR ''K'' Reset Black \<and>
   screen (engine (draw_prompts (demo_game STARTING_BODY (Point 7 7) (sconst [])))) (21, 0) =
     pxl CHR '' '' \<and>
   screen (engine (draw_prompts (demo_game STARTING_BODY (Point 7 7) (sconst [])))) (15, 16) =
     pxl_fbg CHR ''S'' Reset Black \<and>
   screen (engine (draw_prompts (demo_game STARTING_BODY (Point 7 7) (sconst [])))) (22, 16) =
     pxl_fbg CHR ''0'' Reset Black \<and>
   screen (engine (draw_prompts (demo_game STARTING_BODY (Point 7 7) (sconst [])))) (15, 15) =
     pxl CHR '' ''"
proof -
  let ?gm = "demo_game STARTING_BODY (Point 7 7) (sconst [])"
  have texts: "prompt_text ?gm = ''SNEK''" "score_text ?gm = ''SCORE: 0''"
    by (simp_all add: prompt_text_def score_text_def game_score_def render_consts
        to_string_eval snek_score_def snek_new_def STARTING_BODY_def)
  have blank: "screen (engine ?gm) = (\<lambda>_. pxl CHR '' '')"
    by (simp add: demo_game_def demo_engine_def)
  note shown = draw_prompts_spec [of ?gm, OF fits_demo]
  from shown [of 17 0] shown [of 20 0] shown [of 21 0] shown [of 15 16] shown [of 22 16]
    shown [of 15 15]
  show ?thesis
    by (simp add: texts blank text_cell_def render_consts)
qed

end
