(* ===== verification/Reachable.thy ===== *)
theory Reachable
  imports Simulation Frame
begin

text \<open>
  The states the loop reaches from a game built by \<open>game_new\<close>.

  \<open>Main_Loop.reachable_from\<close> collects the states at the head of the loop.
  The lemmas of this theory say what holds in all of them when the start is
  the result of \<open>Game::new\<close> on a starting body that lies on the grid: the
  invariant \<open>game_inv\<close>, the dimensions and the start length of the start;
  the screen that fits the grid; and, while the snake is alive, a body that
  lies within \<open>in_frame\<close>, the grid and the ring of cells around it, because a
  live snake has made at most one step since its head was last found on the
  grid. With these facts the lemma \<open>draw_screen\<close> of theory \<open>Frame\<close> applies to
  every frame the loop draws.
\<close>

section \<open>The invariant and the dimensions\<close>

lemma reachable_new:
  assumes "game_new w h f b t g = returns start" and "b \<noteq> []"
    and "distinct (butlast b)" and "\<forall>p \<in> set (butlast b). in_grid w h p"
    and "reachable_from start (gm, g')"
  shows "game_inv gm" and "width gm = w" and "height gm = h"
    and "start_len (snek gm) = word_of_nat (length b)"
proof -
  obtain gm0 g0 where start: "start = (gm0, g0)"
    by (cases start)
  note new = game_new_sel [OF assms(1) [unfolded start]]
  from assms(1-4) have "game_inv gm0"
    unfolding start by (rule game_inv_new)
  with assms(5) show "game_inv gm"
    using reachable_from_game_inv [of start "(gm, g')"] by (simp add: start)
  from reachable_from_frame [OF assms(5)] new
  show "width gm = w" and "height gm = h" and "start_len (snek gm) = word_of_nat (length b)"
    by (simp_all add: start)
qed

section \<open>The screen and the head\<close>

lemma reachable_fits:
  assumes "reachable_from start c" and "fits (fst start)"
  shows "fits (fst c)"
  using assms
proof (induction rule: reachable_from.induct)
  case initial
  then show ?case by simp
next
  case (iterate gm g gm' g')
  with tick_engine(1,2,6,7) [OF iterate(3)] show ?case
    by (simp add: fits_def screen_for_def)
qed

lemma reachable_head_in_frame:
  assumes "reachable_from start (gm, g)" and "game_inv (fst start)"
    and "in_frame (width (fst start)) (height (fst start)) (head (snek (fst start)))"
    and "alive (snek gm)"
  shows "in_frame (width gm) (height gm) (head (snek gm))"
  using assms(1)
proof (cases rule: reachable_from.cases)
  case initial
  with assms(3) show ?thesis by auto
next
  case (iterate gm0 g0)
  from reachable_from_game_inv [OF iterate(1) assms(2)] have inv: "game_inv gm0"
    by simp
  then have proper: "proper_grid (width gm0) (height gm0)" and nonempty: "body (snek gm0) \<noteq> []"
    by (simp_all add: game_inv_def snek_inv_def)
  from assms(4) tick_alive [OF iterate(3)] have "\<not> game_over gm0"
    by simp
  from not_game_over_head(2) [OF this nonempty proper]
  have h: "in_grid (width gm0) (height gm0) (head (snek gm0))" .
  note step_in_frame [OF h proper_grid_bounds(1,2) [OF proper]] in_grid_in_frame [OF h]
  with tick_head [OF iterate(3)] tick_frame(1,2) [OF iterate(3)] show ?thesis
    by auto
qed

lemma reachable_new_frame:
  assumes "game_new w h f b t g = returns start" and "b \<noteq> []" and "distinct (butlast b)"
    and "\<forall>p \<in> set b. in_grid w h p" and "uint w < 2 ^ 30 - 2" and "uint h < 2 ^ 30 - 2"
    and "reachable_from start (gm, g1)" and "alive (snek gm)"
  shows "fits gm" and "\<forall>q \<in> set (body (snek gm)). in_frame w h q"
    and "game_inv gm" and "width gm = w" and "height gm = h"
proof -
  obtain gm0 g0 where start: "start = (gm0, g0)"
    by (cases start)
  note new0 = assms(1) [unfolded start]
  from assms(4) set_butlast_last [OF assms(2)] have front: "\<forall>p \<in> set (butlast b). in_grid w h p"
    by auto
  note new = reachable_new(1-3) [OF assms(1,2,3) front assms(7)]
  from new show "game_inv gm" and dims: "width gm = w" "height gm = h" .
  from new0 assms(5,6) have "fits gm0"
    by (cases w h f b t g rule: game_new_cases)
      (auto simp: fits_def screen_for_def init_eq_Some_iff)
  with reachable_fits [OF assms(7)] show "fits gm"
    by (simp add: start)
  from game_inv_new [OF new0 assms(2,3) front] game_new_sel(1-3) [OF new0] assms(2,4)
  have "game_inv (fst start)"
    "in_frame (width (fst start)) (height (fst start)) (head (snek (fst start)))"
    by (simp_all add: start head_def in_grid_in_frame)
  from reachable_head_in_frame [OF assms(7) this assms(8)] new(1) assms(8)
    set_butlast_last [of "body (snek gm)"]
  show "\<forall>q \<in> set (body (snek gm)). in_frame w h q"
    by (auto simp: dims game_inv_def snek_inv_def head_def in_grid_in_frame)
qed

text \<open>
  The screen drawn in an iteration that begins in such a state shows, in
  every cell, the pixel the specification gives the judged game.
\<close>

lemma reachable_draw_screen:
  assumes "game_new w h f b t g = returns start" and "b \<noteq> []" and "distinct (butlast b)"
    and "\<forall>p \<in> set b. in_grid w h p" and "uint w < 2 ^ 30 - 2" and "uint h < 2 ^ 30 - 2"
    and "reachable_from start (gm, g1)" and "alive (snek gm)"
    and "draw (judged gm) = Inr gm1" and "int c < 2 * uint w + 4" and "int r < uint h + 2"
  shows "screen (engine gm1) (c, r) = frame_pixel (judged gm) (c, r)"
proof -
  note state = reachable_new_frame [OF assms(1-8)]
  from state have fits: "fits (judged gm)"
    and body: "\<forall>q \<in> set (body (snek (judged gm))). in_frame (width (judged gm)) (height (judged gm)) q"
    and food: "in_grid (width (judged gm)) (height (judged gm)) (food (judged gm))"
    by (simp_all add: fits_def game_inv_def)
  from assms(10,11) state(4,5) show ?thesis
    by (intro draw_screen [OF assms(9) fits body food]) simp_all
qed

end
