(* ===== verification/Profile.thy ===== *)
theory Profile
  imports Reachable
begin

text \<open>
  The program in the two build profiles of Rust.

  An arithmetic operator of Rust wraps around in a release build and panics
  on overflow in a debug build. The theories of the components model the
  release build. This theory models both: \<open>profile\<close> names the build, the
  operators \<open>sadd\<close>, \<open>ssub\<close>, \<open>smul\<close> (on \<^verbatim>\<open>i32\<close>) and \<open>uadd\<close>, \<open>usub\<close>, \<open>umul\<close> (on
  \<^verbatim>\<open>u32\<close> and \<^verbatim>\<open>usize\<close>) return the wrapped result or, in the profile \<open>Debug\<close>, the
  panic \<open>Overflow\<close> when the result is not the exact one, and every function of
  \<^verbatim>\<open>src/main.rs\<close> that computes with them is defined once more over the profile,
  operator for operator in the order of evaluation of the source, with the
  suffix \<open>_in\<close>: \<open>slither_in\<close> for \<^verbatim>\<open>Snek::slither\<close>, \<open>dead_in\<close> for \<^verbatim>\<open>Snek::dead\<close> with
  its short-circuit disjunction, \<open>draw_prompts_in\<close> for \<^verbatim>\<open>Game::draw_prompts\<close>, up
  to \<open>loop_in\<close>, a partial function as \<open>loop\<close> is, and \<open>main_in\<close>. Casts with
  \<^verbatim>\<open>as\<close> are not checked in either profile. The subtraction \<^verbatim>\<open>len() - 1\<close> of
  \<^verbatim>\<open>Snek::dead\<close> follows an \<^verbatim>\<open>unwrap\<close> of the last element, so the length is not
  zero, and it is left as a subtraction of naturals.

  The lemmas show three things. In the profile \<open>Release\<close> every function is
  the function of the component theories: the two models are the same code.
  In any profile a function agrees with its release model when its operands
  are in the range the lemma states; for an iteration of the loop that range
  is \<open>overflow_free\<close>: a screen that fits the grid, a body and a food cell
  within one cell of the grid, a body not shorter than at the start, and a
  score line that is not wider than the screen. And \<open>overflow_free\<close> holds in
  every state the loop reaches with a live snake, so the loops of the two
  profiles are equal there, divergence included.
\<close>

section \<open>Arithmetic in a build profile\<close>

text \<open>
  \<open>checked p exact v\<close> is the result \<open>v\<close> of an operator whose mathematical
  result is exact when \<open>exact\<close> holds. The signed operators compare the signed
  value of the wrapped result with the result in the integers, the unsigned
  ones the unsigned value; an unsigned subtraction is exact when the
  subtrahend is not the larger operand.
\<close>

datatype profile = Release | Debug

definition checked :: "profile \<Rightarrow> bool \<Rightarrow> 'a \<Rightarrow> 'a result" where
  "checked p exact v = (if p = Debug \<and> \<not> exact then Inl Overflow else Inr v)"

definition sadd :: "profile \<Rightarrow> 'a::len word \<Rightarrow> 'a word \<Rightarrow> 'a word result" where
  "sadd p a b = checked p (sint (a + b) = sint a + sint b) (a + b)"

definition ssub :: "profile \<Rightarrow> 'a::len word \<Rightarrow> 'a word \<Rightarrow> 'a word result" where
  "ssub p a b = checked p (sint (a - b) = sint a - sint b) (a - b)"

definition smul :: "profile \<Rightarrow> 'a::len word \<Rightarrow> 'a word \<Rightarrow> 'a word result" where
  "smul p a b = checked p (sint (a * b) = sint a * sint b) (a * b)"

definition uadd :: "profile \<Rightarrow> 'a::len word \<Rightarrow> 'a word \<Rightarrow> 'a word result" where
  "uadd p a b = checked p (uint (a + b) = uint a + uint b) (a + b)"

definition usub :: "profile \<Rightarrow> 'a::len word \<Rightarrow> 'a word \<Rightarrow> 'a word result" where
  "usub p a b = checked p (b \<le> a) (a - b)"

definition umul :: "profile \<Rightarrow> 'a::len word \<Rightarrow> 'a word \<Rightarrow> 'a word result" where
  "umul p a b = checked p (uint (a * b) = uint a * uint b) (a * b)"

section \<open>The snake\<close>

text \<open>
  \<open>point_add_in\<close> is the sum of a point and a vector, first coordinate first.
  In \<open>dead_in\<close> the wall tests are evaluated from left to right and only as
  far as needed, so \<^verbatim>\<open>width as i32 - 1\<close> is not computed for a head that has
  bitten the body or has a negative coordinate.
\<close>

definition point_add_in :: "profile \<Rightarrow> point \<Rightarrow> vector \<Rightarrow> point result" where
  "point_add_in p pt v =
     and_then (sadd p (px pt) (vx v)) (\<lambda>x.
     and_then (sadd p (py pt) (vy v)) (\<lambda>y.
     Inr (Point x y)))"

definition slither_in ::
  "profile \<Rightarrow> snek \<Rightarrow> point \<Rightarrow> u32 \<Rightarrow> u32 \<Rightarrow> rng \<Rightarrow> (snek \<times> point \<times> rng) outcome" where
  "slither_in p s fd w h g =
     run_then (Some (unwrap (slice_last (body s)))) (\<lambda>head.
     run_then (Some (point_add_in p head (to_vector (direction s)))) (\<lambda>new.
     let s1 = s\<lparr>body := body s @ [new]\<rparr> in
     run_then (Some (eat s1 fd)) (\<lambda>s2.
     if \<not> eating s2 then returns (s2\<lparr>body := tl (body s2)\<rparr>, fd, g)
     else let s3 = s2\<lparr>eating := False\<rparr> in
       run_then (rand_point w h (body s3) g) (\<lambda>(fd', g').
       returns (s3, fd', g')))))"

definition dead_in :: "profile \<Rightarrow> snek \<Rightarrow> u32 \<Rightarrow> u32 \<Rightarrow> bool result" where
  "dead_in p s w h =
     and_then (unwrap (slice_last (body s))) (\<lambda>head.
     if head \<in> set (take (length (body s) - 1) (body s)) \<or> px head <s 0 \<or> py head <s 0
     then Inr True
     else and_then (ssub p w 1) (\<lambda>w1.
       if w1 <s px head then Inr True
       else and_then (ssub p h 1) (\<lambda>h1.
         Inr (h1 <s py head))))"

definition snek_score_in :: "profile \<Rightarrow> snek \<Rightarrow> usize result" where
  "snek_score_in p s = usub p (word_of_nat (length (body s))) (start_len s)"

section \<open>The game\<close>

definition game_new_in ::
  "profile \<Rightarrow> u32 \<Rightarrow> u32 \<Rightarrow> u32 \<Rightarrow> point list \<Rightarrow> terminal \<Rightarrow> rng \<Rightarrow> (game \<times> rng) outcome" where
  "game_new_in p w h f starting_body t g =
     run_then (rand_point w h starting_body g) (\<lambda>(fd, g').
     run_then (Some (and_then (umul p w 2) (\<lambda>w2. uadd p w2 4))) (\<lambda>cols.
     run_then (Some (uadd p h 2)) (\<lambda>rows.
     run_then (Some (expect (init cols rows f t))) (\<lambda>e.
     returns (\<lparr>snek = snek_new starting_body, food = fd, paused = False, engine = e,
       width = w, height = h\<rparr>, g')))))"

definition game_score_in :: "profile \<Rightarrow> game \<Rightarrow> usize result" where
  "game_score_in p gm = snek_score_in p (snek gm)"

section \<open>Drawing\<close>

text \<open>
  \<open>cell_at p pt k\<close> is the pair of arguments \<^verbatim>\<open>x * 2 + k, y + 1\<close> of a call of
  \<^verbatim>\<open>set_pxl\<close>; \<open>draw_parts_in\<close> is the \<^verbatim>\<open>for\<close> loop of \<^verbatim>\<open>Game::draw_snek\<close>, which
  stops at the first segment whose coordinates overflow.
\<close>

definition draw_map_in :: "profile \<Rightarrow> game \<Rightarrow> game result" where
  "draw_map_in p gm =
     (let e1 = fill (engine gm) (pxl_bg CHR '' '' BORDER_COLOR) in
      and_then (ssub p (get_width e1) 3) (\<lambda>w.
      and_then (ssub p (get_height e1) 2) (\<lambda>h.
      Inr (gm\<lparr>engine := fill_rect e1 2 1 w h (pxl_bg CHR '' '' MAP_COLOR)\<rparr>))))"

definition draw_prompts_in :: "profile \<Rightarrow> game \<Rightarrow> game result" where
  "draw_prompts_in p gm =
     and_then (game_score_in p gm) (\<lambda>n.
     let score = SCORE_PROMPT @ to_string (unat n) in
     and_then (usub p (get_width (engine gm) div 2) (word_of_nat (length score) div 2)) (\<lambda>mid.
     and_then (ssub p (get_height (engine gm)) 1) (\<lambda>row.
     let e1 = print_fbg (engine gm) mid row score Reset BORDER_COLOR;
         prompt = (if paused gm then PAUSE_PROMPT else GAME_PROMPT) in
     and_then (usub p (get_width e1 div 2) (word_of_nat (length prompt) div 2)) (\<lambda>mid'.
     Inr (gm\<lparr>engine := print_fbg e1 mid' 0 prompt Reset BORDER_COLOR\<rparr>)))))"

definition cell_at :: "profile \<Rightarrow> point \<Rightarrow> i32 \<Rightarrow> (i32 \<times> i32) result" where
  "cell_at p pt k =
     and_then (smul p (px pt) 2) (\<lambda>x2.
     and_then (sadd p x2 k) (\<lambda>x.
     and_then (sadd p (py pt) 1) (\<lambda>y.
     Inr (x, y))))"

definition draw_cell_in :: "profile \<Rightarrow> engine \<Rightarrow> point \<Rightarrow> pixel \<Rightarrow> engine result" where
  "draw_cell_in p e pt c =
     and_then (cell_at p pt 2) (\<lambda>(x, y).
     let e1 = set_pxl e x y c in
     and_then (cell_at p pt 3) (\<lambda>(x', y').
     Inr (set_pxl e1 x' y' c)))"

definition draw_food_in :: "profile \<Rightarrow> game \<Rightarrow> game result" where
  "draw_food_in p gm =
     and_then (draw_cell_in p (engine gm) (food gm) (pxl_bg CHR '' '' FOOD_COLOR)) (\<lambda>e.
     Inr (gm\<lparr>engine := e\<rparr>))"

fun draw_parts_in :: "profile \<Rightarrow> engine \<Rightarrow> point list \<Rightarrow> engine result" where
  "draw_parts_in p e [] = Inr e"
| "draw_parts_in p e (part # parts) =
     and_then (draw_cell_in p e part (pxl_bg CHR '' '' SNEK_COLOR)) (\<lambda>e'.
     draw_parts_in p e' parts)"

definition draw_snek_in :: "profile \<Rightarrow> game \<Rightarrow> game result" where
  "draw_snek_in p gm =
     and_then (draw_parts_in p (engine gm) (body (snek gm))) (\<lambda>e1.
     and_then (unwrap (slice_last (body (snek gm)))) (\<lambda>head.
     let eye = (if alive (snek gm) then EYE_CHAR else DEAD_EYE_CHAR) in
     and_then (draw_cell_in p e1 head (pxl_fbg eye HEAD_COLOR SNEK_COLOR)) (\<lambda>e2.
     Inr (gm\<lparr>engine := e2\<rparr>))))"

definition draw_in :: "profile \<Rightarrow> game \<Rightarrow> game result" where
  "draw_in p gm =
     and_then (draw_map_in p gm) (\<lambda>gm1.
     and_then (draw_prompts_in p gm1) (\<lambda>gm2.
     and_then (draw_food_in p gm2) (\<lambda>gm3.
     draw_snek_in p gm3)))"

section \<open>The loop\<close>

definition judge_in :: "profile \<Rightarrow> game \<Rightarrow> game result" where
  "judge_in p gm =
     and_then (if quit gm then Inr True else dead_in p (snek gm) (width gm) (height gm)) (\<lambda>over.
     Inr (gm\<lparr>snek := (snek gm)\<lparr>alive := \<not> over\<rparr>\<rparr>))"

definition advance_in :: "profile \<Rightarrow> game \<Rightarrow> rng \<Rightarrow> (game \<times> rng) outcome" where
  "advance_in p gm g =
     (let gm1 = gm\<lparr>engine := wait_frame (clear_screen (engine_draw (engine gm)))\<rparr>;
          gm2 = input gm1
      in if \<not> paused gm2
         then run_then (slither_in p (snek gm2) (food gm2) (width gm2) (height gm2) g)
                (\<lambda>(s, fd, g'). returns (gm2\<lparr>snek := s, food := fd\<rparr>, g'))
         else returns (gm2, g))"

definition tick_in :: "profile \<Rightarrow> game \<Rightarrow> rng \<Rightarrow> (game \<times> rng) outcome" where
  "tick_in p gm g =
     run_then (Some (judge_in p gm)) (\<lambda>gm1.
     run_then (Some (draw_in p gm1)) (\<lambda>gm2.
     advance_in p gm2 g))"

partial_function (option) loop_in :: "profile \<Rightarrow> game \<Rightarrow> rng \<Rightarrow> (game \<times> rng) outcome" where
  "loop_in p gm g =
     (if alive (snek gm)
      then (case tick_in p gm g of
              None \<Rightarrow> diverges
            | Some (Inl e) \<Rightarrow> panics e
            | Some (Inr (gm', g')) \<Rightarrow> loop_in p gm' g')
      else returns (gm, g))"

definition main_loop_in :: "profile \<Rightarrow> game \<Rightarrow> rng \<Rightarrow> (game \<times> rng) outcome" where
  "main_loop_in p gm g = loop_in p (gm\<lparr>engine := set_title (engine gm) ''SNEK''\<rparr>) g"

definition main_in :: "profile \<Rightarrow> terminal \<Rightarrow> rng \<Rightarrow> string outcome" where
  "main_in p t g =
     run_then (game_new_in p WIDTH HEIGHT FPS STARTING_BODY t g) (\<lambda>(gm, g1).
     run_then (main_loop_in p gm g1) (\<lambda>(gm', g2).
     run_then (Some (game_score_in p gm')) (\<lambda>score.
     returns (END_MESSAGE @ to_string (unat score)))))"

section \<open>Specification vocabulary\<close>

text \<open>
  The states in which no operator of an iteration overflows.
\<close>

definition overflow_free :: "game \<Rightarrow> bool" where
  "overflow_free gm \<longleftrightarrow>
     fits gm \<and>
     (\<forall>q \<in> set (body (snek gm)). in_frame (width gm) (height gm) q) \<and>
     in_frame (width gm) (height gm) (food gm) \<and>
     unat (start_len (snek gm)) \<le> length (body (snek gm)) \<and>
     length (body (snek gm)) < 2 ^ 64 \<and>
     int (length (score_text gm) div 2) \<le> uint (width gm) + 2"

section \<open>Exact arithmetic\<close>

lemma checked_exact [simp]: "exact \<Longrightarrow> checked p exact v = Inr v"
  by (simp add: checked_def)

lemma checked_Release [simp]: "checked Release exact v = Inr v"
  by (simp add: checked_def)

lemma checked_Debug: "checked Debug exact v = (if exact then Inr v else Inl Overflow)"
  by (simp add: checked_def)

lemmas arith_defs = sadd_def ssub_def smul_def uadd_def usub_def umul_def

lemma arith_Release [simp]:
  "sadd Release a b = Inr (a + b)" "ssub Release a b = Inr (a - b)"
  "smul Release a b = Inr (a * b)" "uadd Release a b = Inr (a + b)"
  "usub Release a b = Inr (a - b)" "umul Release a b = Inr (a * b)"
  by (simp_all add: arith_defs)

section \<open>The release profile is the wrapping model\<close>

lemma point_add_in_Release [simp]: "point_add_in Release pt v = Inr (point_add pt v)"
  by (simp add: point_add_in_def point_add_def)

lemma slither_in_Release [simp]: "slither_in Release = slither"
  by (simp add: slither_in_def slither_def fun_eq_iff Let_def)

lemma dead_in_Release [simp]: "dead_in Release = dead"
  by (auto simp: dead_in_def dead_def fun_eq_iff intro!: arg_cong2 [where f = and_then])

lemma snek_score_in_Release [simp]: "snek_score_in Release s = Inr (snek_score s)"
  by (simp add: snek_score_in_def snek_score_def)

lemma game_score_in_Release [simp]: "game_score_in Release gm = Inr (game_score gm)"
  by (simp add: game_score_in_def game_score_def)

lemma game_new_in_Release [simp]: "game_new_in Release = game_new"
  by (simp add: game_new_in_def game_new_def fun_eq_iff)

lemma draw_map_in_Release [simp]: "draw_map_in Release gm = Inr (draw_map gm)"
  by (simp add: draw_map_in_def draw_map_def Let_def)

lemma draw_prompts_in_Release [simp]: "draw_prompts_in Release gm = Inr (draw_prompts gm)"
  by (simp add: draw_prompts_in_def draw_prompts_def Let_def)

lemma cell_at_Release [simp]: "cell_at Release pt k = Inr (px pt * 2 + k, py pt + 1)"
  by (simp add: cell_at_def)

lemma draw_cell_in_Release [simp]: "draw_cell_in Release e pt c = Inr (draw_cell e pt c)"
  by (simp add: draw_cell_in_def draw_cell_def)

lemma draw_food_in_Release [simp]: "draw_food_in Release gm = Inr (draw_food gm)"
  by (simp add: draw_food_in_def draw_food_def)

lemma draw_parts_in_Release [simp]:
  "draw_parts_in Release e parts =
     Inr (foldl (\<lambda>e part. draw_cell e part (pxl_bg CHR '' '' SNEK_COLOR)) e parts)"
  by (induction parts arbitrary: e) simp_all

lemma draw_snek_in_Release [simp]: "draw_snek_in Release = draw_snek"
  by (simp add: draw_snek_in_def draw_snek_def fun_eq_iff Let_def)

lemma draw_in_Release [simp]: "draw_in Release = draw"
  by (simp add: draw_in_def draw_def fun_eq_iff)

lemma judge_in_Release [simp]: "judge_in Release = judge"
  by (simp add: judge_in_def judge_def fun_eq_iff)

lemma advance_in_Release [simp]: "advance_in Release = advance"
  by (simp add: advance_in_def advance_def fun_eq_iff Let_def)

lemma tick_in_Release [simp]: "tick_in Release = tick"
  by (simp add: tick_in_def tick_def fun_eq_iff)

section \<open>Arithmetic that does not overflow\<close>

lemma sint_exact_32:
  fixes a b :: "32 word"
  shows "- (2 ^ 31) \<le> sint a + sint b \<Longrightarrow> sint a + sint b < 2 ^ 31 \<Longrightarrow>
      sint (a + b) = sint a + sint b"
    and "- (2 ^ 31) \<le> sint a - sint b \<Longrightarrow> sint a - sint b < 2 ^ 31 \<Longrightarrow>
      sint (a - b) = sint a - sint b"
    and "- (2 ^ 31) \<le> sint a * sint b \<Longrightarrow> sint a * sint b < 2 ^ 31 \<Longrightarrow>
      sint (a * b) = sint a * sint b"
  by (simp_all add: sint_word_ariths signed_take_bit_int_eq_self)

lemma signed_exact_32:
  fixes a b :: "32 word"
  shows "- (2 ^ 31) \<le> sint a + sint b \<Longrightarrow> sint a + sint b < 2 ^ 31 \<Longrightarrow>
      sadd p a b = Inr (a + b)"
    and "- (2 ^ 31) \<le> sint a - sint b \<Longrightarrow> sint a - sint b < 2 ^ 31 \<Longrightarrow>
      ssub p a b = Inr (a - b)"
    and "- (2 ^ 31) \<le> sint a * sint b \<Longrightarrow> sint a * sint b < 2 ^ 31 \<Longrightarrow>
      smul p a b = Inr (a * b)"
  by (simp_all add: arith_defs sint_exact_32)

lemma usub_exact: "b \<le> a \<Longrightarrow> usub p a b = Inr (a - b)"
  by (simp add: usub_def)

lemma usub_Debug: "usub Debug a b = (if b \<le> a then Inr (a - b) else Inl Overflow)"
  by (simp add: usub_def checked_Debug)

section \<open>The operations without overflow\<close>

text \<open>
  Each function over a profile is its release model when the operands are in
  range, whatever the profile. A step from a point whose coordinates are not
  at the ends of the \<^verbatim>\<open>i32\<close> range, the wall tests on a grid with dimensions
  below \<open>2\<^sup>3\<^sup>1\<close>, the score of a body not shorter than at the start, and the
  drawing methods on a screen that fits the grid.
\<close>

lemma point_add_in_step:
  assumes "- (2 ^ 31) < sint (px pt)" and "sint (px pt) < 2 ^ 31 - 1"
    and "- (2 ^ 31) < sint (py pt)" and "sint (py pt) < 2 ^ 31 - 1"
  shows "point_add_in p pt (to_vector d) = Inr (point_add pt (to_vector d))"
  using assms by (cases d) (simp_all add: point_add_in_def point_add_def signed_exact_32)

lemma slither_in_eq:
  assumes "\<forall>q \<in> set (body s). in_frame w' h' q"
    and "uint w' < 2 ^ 31 - 1" and "uint h' < 2 ^ 31 - 1"
  shows "slither_in p s fd w h g = slither s fd w h g"
proof (cases "body s = []")
  case True
  then show ?thesis
    by (simp add: slither_in_def slither_def)
next
  case False
  with assms(1) have "in_frame w' h' (last (body s))"
    by simp
  with assms(2,3) have "point_add_in p (last (body s)) (to_vector (direction s)) =
      Inr (point_add (last (body s)) (to_vector (direction s)))"
    by (intro point_add_in_step) (simp_all add: in_frame_def)
  with False show ?thesis
    by (simp add: slither_in_def slither_def Let_def)
qed

lemma dead_in_exact:
  assumes "ssub p w 1 = Inr (w - 1)" and "ssub p h 1 = Inr (h - 1)"
  shows "dead_in p s w h = dead s w h"
  using assms by (auto simp: dead_in_def dead_def intro!: arg_cong2 [where f = and_then])

lemma dead_in_eq:
  assumes "uint w < 2 ^ 31" and "uint h < 2 ^ 31"
  shows "dead_in p s w h = dead s w h"
proof (rule dead_in_exact)
  from assms have "0 \<le> sint w" "0 \<le> sint h"
    by (simp_all add: sint_eq_uint_32)
  moreover have "sint w < 2 ^ 31" "sint h < 2 ^ 31"
    using sint_lt [of w] sint_lt [of h] by simp_all
  ultimately show "ssub p w 1 = Inr (w - 1)" and "ssub p h 1 = Inr (h - 1)"
    by (simp_all add: signed_exact_32)
qed

lemma snek_score_in_eq:
  assumes "unat (start_len s) \<le> length (body s)" and "length (body s) < 2 ^ 64"
  shows "snek_score_in p s = Inr (snek_score s)"
proof -
  from assms have "start_len s \<le> word_of_nat (length (body s))"
    by (simp add: word_le_nat_alt unat_length_usize)
  then show ?thesis
    by (simp add: snek_score_in_def snek_score_def usub_exact)
qed

lemma game_score_in_eq:
  assumes "unat (start_len (snek gm)) \<le> length (body (snek gm))"
    and "length (body (snek gm)) < 2 ^ 64"
  shows "game_score_in p gm = Inr (game_score gm)"
  using assms by (simp add: game_score_in_def game_score_def snek_score_in_eq)

lemma draw_map_in_eq:
  assumes "fits gm"
  shows "draw_map_in p gm = Inr (draw_map gm)"
proof -
  from assms have "screen_for (engine gm) (width gm) (height gm)"
    by (simp add: fits_def)
  note dims = screen_for_dims [OF this]
  have "ssub p (scr_width (engine gm)) 3 = Inr (scr_width (engine gm) - 3)"
    "ssub p (scr_height (engine gm)) 2 = Inr (scr_height (engine gm) - 2)"
    by (simp_all add: ssub_def dims)
  then show ?thesis
    by (simp add: draw_map_in_def draw_map_def Let_def)
qed

lemma centre_exact:
  assumes "fits gm" and "int (n div 2) \<le> uint (width gm) + 2" and "n < 2 ^ 32"
  shows "usub p (scr_width (engine gm) div 2) (word_of_nat n div 2) =
    Inr (scr_width (engine gm) div 2 - word_of_nat n div 2)"
proof -
  from assms(1) have w: "scr_width (engine gm) = width gm * 2 + 4"
    "uint (width gm) < 2 ^ 30 - 2"
    by (simp_all add: fits_def screen_for_def)
  from assms(2) uint_half_screen_32 [OF w(2)] uint_half_length_32 [OF assms(3)]
  have "word_of_nat n div 2 \<le> scr_width (engine gm) div 2"
    by (simp add: word_le_def w(1))
  then show ?thesis
    by (rule usub_exact)
qed

lemma length_score_text_ge: "8 \<le> length (score_text gm)"
  using length_to_string_pos [of "unat (game_score gm)"]
  by (simp add: score_text_def SCORE_PROMPT_def Suc_le_eq)

lemma draw_prompts_in_wide:
  assumes fits: "fits gm" and score: "game_score_in p gm = Inr (game_score gm)"
    and wide: "int (length (score_text gm) div 2) \<le> uint (width gm) + 2"
  shows "draw_prompts_in p gm = Inr (draw_prompts gm)"
proof -
  from fits have "screen_for (engine gm) (width gm) (height gm)"
    by (simp add: fits_def)
  note dims = screen_for_dims [OF this]
  from length_score_text [of gm] have small: "length (score_text gm) < 2 ^ 32"
    by simp
  note mid = centre_exact [OF fits wide small]
  from wide length_score_text_ge [of gm] have "2 \<le> uint (width gm)"
    by linarith
  then have "int (length (prompt_text gm) div 2) \<le> uint (width gm) + 2"
    by (simp add: prompt_text_def PAUSE_PROMPT_def GAME_PROMPT_def)
  from centre_exact [OF fits this] have mid':
    "usub p (scr_width (engine gm) div 2) (word_of_nat (length (prompt_text gm)) div 2) =
      Inr (scr_width (engine gm) div 2 - word_of_nat (length (prompt_text gm)) div 2)"
    by (simp add: prompt_text_def PAUSE_PROMPT_def GAME_PROMPT_def)
  have row: "ssub p (scr_height (engine gm)) 1 = Inr (scr_height (engine gm) - 1)"
    by (simp add: ssub_def dims)
  from score mid mid' row show ?thesis
    by (simp add: draw_prompts_in_def draw_prompts_def Let_def score_text_def prompt_text_def)
qed

lemma draw_prompts_in_narrow:
  assumes fits: "fits gm" and score: "game_score_in Debug gm = Inr (game_score gm)"
    and narrow: "uint (width gm) + 2 < int (length (score_text gm) div 2)"
  shows "draw_prompts_in Debug gm = Inl Overflow"
proof -
  from fits have w: "scr_width (engine gm) = width gm * 2 + 4"
    "uint (width gm) < 2 ^ 30 - 2"
    by (simp_all add: fits_def screen_for_def)
  from length_score_text [of gm] have "length (score_text gm) < 2 ^ 32"
    by simp
  from narrow uint_half_screen_32 [OF w(2)] uint_half_length_32 [OF this]
  have "\<not> word_of_nat (length (score_text gm)) div 2 \<le> scr_width (engine gm) div 2"
    by (simp add: word_le_def w(1))
  with score show ?thesis
    by (simp add: draw_prompts_in_def usub_Debug score_text_def)
qed

lemma draw_prompts_in_eq:
  assumes "overflow_free gm"
  shows "draw_prompts_in p gm = Inr (draw_prompts gm)"
  using assms by (intro draw_prompts_in_wide) (simp_all add: overflow_free_def game_score_in_eq)

lemma cell_at_eq:
  assumes "in_frame w h pt" and "uint w < 2 ^ 30 - 2" and "uint h < 2 ^ 30 - 2"
    and "k = 2 \<or> k = 3"
  shows "cell_at p pt k = Inr (px pt * 2 + k, py pt + 1)"
proof -
  from assms(1-3) have x: "- 1 \<le> sint (px pt)" "sint (px pt) < 2 ^ 30 - 2"
    and y: "- 1 \<le> sint (py pt)" "sint (py pt) < 2 ^ 30 - 2"
    by (simp_all add: in_frame_def)
  from x have "smul p (px pt) 2 = Inr (px pt * 2)" and x2: "sint (px pt * 2) = sint (px pt) * 2"
    by (simp_all add: signed_exact_32 sint_exact_32)
  moreover from x x2 assms(4) have "sadd p (px pt * 2) k = Inr (px pt * 2 + k)"
    by (auto simp: signed_exact_32)
  moreover from y have "sadd p (py pt) 1 = Inr (py pt + 1)"
    by (simp add: signed_exact_32)
  ultimately show ?thesis
    by (simp add: cell_at_def)
qed

lemma draw_cell_in_eq:
  assumes "in_frame w h pt" and "uint w < 2 ^ 30 - 2" and "uint h < 2 ^ 30 - 2"
  shows "draw_cell_in p e pt c = Inr (draw_cell e pt c)"
  using cell_at_eq [OF assms, of 2 p] cell_at_eq [OF assms, of 3 p]
  by (simp add: draw_cell_in_def draw_cell_def)

lemma draw_parts_in_eq:
  assumes "\<forall>pt \<in> set parts. in_frame w h pt" and "uint w < 2 ^ 30 - 2" and "uint h < 2 ^ 30 - 2"
  shows "draw_parts_in p e parts =
    Inr (foldl (\<lambda>e part. draw_cell e part (pxl_bg CHR '' '' SNEK_COLOR)) e parts)"
  using assms(1)
  by (induction parts arbitrary: e) (simp_all add: draw_cell_in_eq [OF _ assms(2,3)])

lemma draw_in_eq:
  assumes "overflow_free gm"
  shows "draw_in p gm = draw gm"
proof -
  let ?gm2 = "draw_prompts (draw_map gm)"
  from assms have fits: "fits gm"
    and parts: "\<forall>q \<in> set (body (snek gm)). in_frame (width gm) (height gm) q"
    and fd: "in_frame (width gm) (height gm) (food gm)"
    by (simp_all add: overflow_free_def)
  from fits have w: "uint (width gm) < 2 ^ 30 - 2" and h: "uint (height gm) < 2 ^ 30 - 2"
    by (simp_all add: fits_def screen_for_def)
  from assms have "overflow_free (draw_map gm)"
    by (simp add: overflow_free_def)
  then have prompts: "draw_prompts_in p (draw_map gm) = Inr ?gm2"
    by (rule draw_prompts_in_eq)
  from fd have food: "draw_food_in p ?gm2 = Inr (draw_food ?gm2)"
    by (simp add: draw_food_in_def draw_food_def draw_cell_in_eq [OF _ w h])
  have snek: "draw_snek_in p (draw_food ?gm2) = draw_snek (draw_food ?gm2)"
  proof (cases "body (snek gm) = []")
    case True
    then show ?thesis
      by (simp add: draw_snek_in_def draw_snek_def)
  next
    case False
    with parts have "in_frame (width gm) (height gm) (last (body (snek gm)))"
      by simp
    with False parts show ?thesis
      by (simp add: draw_snek_in_def draw_snek_def Let_def draw_parts_in_eq [OF _ w h]
          draw_cell_in_eq [OF _ w h])
  qed
  from draw_map_in_eq [OF fits] prompts food snek show ?thesis
    by (simp add: draw_in_def draw_def)
qed

section \<open>An iteration without overflow\<close>

lemma overflow_free_alive [simp]:
  "overflow_free (gm\<lparr>snek := (snek gm)\<lparr>alive := a\<rparr>\<rparr>) = overflow_free gm"
  by (simp add: overflow_free_def fits_def score_text_def game_score_def snek_score_def)

lemma overflow_free_dims:
  assumes "overflow_free gm"
  shows "uint (width gm) < 2 ^ 30 - 2" and "uint (height gm) < 2 ^ 30 - 2"
  using assms by (simp_all add: overflow_free_def fits_def screen_for_def)

lemma judge_in_eq:
  assumes "uint (width gm) < 2 ^ 31" and "uint (height gm) < 2 ^ 31"
  shows "judge_in p gm = judge gm"
  using assms by (simp add: judge_in_def judge_def dead_in_eq)

lemma advance_in_eq:
  assumes "\<forall>q \<in> set (body (snek gm)). in_frame (width gm) (height gm) q"
    and "uint (width gm) < 2 ^ 31 - 1" and "uint (height gm) < 2 ^ 31 - 1"
  shows "advance_in p gm g = advance gm g"
proof -
  let ?gm2 = "input (gm\<lparr>engine := wait_frame (clear_screen (engine_draw (engine gm)))\<rparr>)"
  from assms have "\<forall>q \<in> set (body (snek ?gm2)). in_frame (width gm) (height gm) q"
    by simp
  from slither_in_eq [OF this assms(2,3)] show ?thesis
    by (simp add: advance_in_def advance_def Let_def)
qed

lemma tick_in_eq:
  assumes "overflow_free gm"
  shows "tick_in p gm g = tick gm g"
proof -
  note dims = overflow_free_dims [OF assms]
  from dims have judge: "judge_in p gm = judge gm"
    by (intro judge_in_eq) simp_all
  show ?thesis
  proof (cases "judge gm")
    case (Inl e)
    with judge show ?thesis
      by (simp add: tick_in_def tick_def)
  next
    case (Inr gm1)
    then obtain a where gm1: "gm1 = gm\<lparr>snek := (snek gm)\<lparr>alive := a\<rparr>\<rparr>"
      by (auto simp: judge_def and_then_eq_Inr_iff)
    with assms have free: "overflow_free gm1"
      by simp
    then have draw: "draw_in p gm1 = draw gm1"
      by (rule draw_in_eq)
    show ?thesis
    proof (cases gm1 rule: draw_cases)
      case empty
      with judge Inr draw show ?thesis
        by (simp add: tick_in_def tick_def)
    next
      case (drawn gm2)
      from free drawn(3) dims
      have "\<forall>q \<in> set (body (snek gm2)). in_frame (width gm2) (height gm2) q"
        "uint (width gm2) < 2 ^ 31 - 1" "uint (height gm2) < 2 ^ 31 - 1"
        by (simp_all add: overflow_free_def same_but_screen_def gm1)
      then have "advance_in p gm2 g = advance gm2 g"
        by (rule advance_in_eq)
      with judge Inr draw drawn(2) show ?thesis
        by (simp add: tick_in_def tick_def)
    qed
  qed
qed

section \<open>The loops of the two profiles\<close>

text \<open>
  The loops of the two models are partial functions; they are equal from a
  state on when the iterations agree in every state reached from it. Each
  direction is a fixed point induction: a result of one loop is a result of
  the other, so neither returns or panics where the other diverges.
\<close>

lemma loop_in_not_alive [simp]: "\<not> alive (snek gm) \<Longrightarrow> loop_in p gm g = returns (gm, g)"
  by (subst loop_in.simps) simp

lemma loop_in_alive:
  assumes "alive (snek gm)"
  shows "loop_in p gm g = run_then (tick_in p gm g) (\<lambda>(gm', g'). loop_in p gm' g')"
  using assms by (subst loop_in.simps) (cases "tick_in p gm g" rule: outcome_cases; auto)

lemma loop_body_cases [consumes 1, case_names stop panic step]:
  assumes "(if alive (snek gm)
       then (case m of
               None \<Rightarrow> diverges
             | Some (Inl e) \<Rightarrow> panics e
             | Some (Inr (gm', g')) \<Rightarrow> f gm' g')
       else returns (gm, g)) = Some r"
  obtains "\<not> alive (snek gm)" "r = Inr (gm, g)"
    | e where "alive (snek gm)" "m = panics e" "r = Inl e"
    | gm' g' where "alive (snek gm)" "m = returns (gm', g')" "f gm' g' = Some r"
  using assms by (cases m rule: outcome_cases) (auto split: if_splits)

lemma loop_in_of_loop:
  assumes "loop gm g = Some r" and "reachable_from start (gm, g)"
    and agree: "\<And>gm g. reachable_from start (gm, g) \<Longrightarrow> alive (snek gm) \<Longrightarrow>
      tick_in p gm g = tick gm g"
  shows "loop_in p gm g = Some r"
proof -
  have "reachable_from start (gm, g) \<longrightarrow> loop_in p gm g = Some r"
  proof (rule loop.raw_induct [where P = "\<lambda>gm g r. reachable_from start (gm, g) \<longrightarrow>
      loop_in p gm g = Some r", OF _ assms(1)], rule impI)
    fix f gm g and r :: "(game \<times> rng) result"
    assume IH: "\<And>gm g r. f gm g = Some r \<Longrightarrow>
        reachable_from start (gm, g) \<longrightarrow> loop_in p gm g = Some r"
      and reach: "reachable_from start (gm, g)"
    assume "(if alive (snek gm)
       then (case tick gm g of
               None \<Rightarrow> diverges
             | Some (Inl e) \<Rightarrow> panics e
             | Some (Inr (gm', g')) \<Rightarrow> f gm' g')
       else returns (gm, g)) = Some r"
    then show "loop_in p gm g = Some r"
    proof (cases rule: loop_body_cases)
      case (step gm' g')
      from reach step(1,2) have "reachable_from start (gm', g')"
        by (rule reachable_from.iterate)
      with IH step(3) have "loop_in p gm' g' = Some r"
        by blast
      with step(1,2) agree [OF reach] show ?thesis
        by (simp add: loop_in_alive)
    qed (use agree [OF reach] in \<open>simp_all add: loop_in_alive\<close>)
  qed
  with assms(2) show ?thesis
    by simp
qed

lemma loop_of_loop_in:
  assumes "loop_in p gm g = Some r" and "reachable_from start (gm, g)"
    and agree: "\<And>gm g. reachable_from start (gm, g) \<Longrightarrow> alive (snek gm) \<Longrightarrow>
      tick_in p gm g = tick gm g"
  shows "loop gm g = Some r"
proof -
  have "p = p \<longrightarrow> reachable_from start (gm, g) \<longrightarrow> loop gm g = Some r"
  proof (rule loop_in.raw_induct [where P = "\<lambda>q gm g r. q = p \<longrightarrow>
      reachable_from start (gm, g) \<longrightarrow> loop gm g = Some r", OF _ assms(1)], intro impI)
    fix f q gm g and r :: "(game \<times> rng) result"
    assume IH: "\<And>q gm g r. f q gm g = Some r \<Longrightarrow>
        q = p \<longrightarrow> reachable_from start (gm, g) \<longrightarrow> loop gm g = Some r"
      and q: "q = p" and reach: "reachable_from start (gm, g)"
    assume "(if alive (snek gm)
       then (case tick_in q gm g of
               None \<Rightarrow> diverges
             | Some (Inl e) \<Rightarrow> panics e
             | Some (Inr (gm', g')) \<Rightarrow> f q gm' g')
       else returns (gm, g)) = Some r"
    then show "loop gm g = Some r"
    proof (cases rule: loop_body_cases)
      case (step gm' g')
      with agree [OF reach] q have tick: "tick gm g = returns (gm', g')"
        by simp
      with reach step(1) have "reachable_from start (gm', g')"
        by (rule reachable_from.iterate)
      with IH step(3) q have "loop gm' g' = Some r"
        by blast
      with step(1) tick show ?thesis
        by (simp add: loop_alive)
    qed (use agree [OF reach] q in \<open>simp_all add: loop_alive\<close>)
  qed
  with assms(2) show ?thesis
    by simp
qed

lemma loop_in_eq_loop:
  assumes "reachable_from start (gm, g)"
    and "\<And>gm g. reachable_from start (gm, g) \<Longrightarrow> alive (snek gm) \<Longrightarrow>
      tick_in p gm g = tick gm g"
  shows "loop_in p gm g = loop gm g"
proof (cases "loop gm g")
  case None
  with loop_of_loop_in [OF _ assms] show ?thesis
    by (cases "loop_in p gm g") auto
next
  case (Some r)
  with loop_in_of_loop [OF _ assms] show ?thesis
    by simp
qed

lemma loop_in_Release [simp]: "loop_in Release gm g = loop gm g"
  by (rule loop_in_eq_loop [OF reachable_from.initial]) simp

lemma main_loop_in_Release [simp]: "main_loop_in Release gm g = main_loop gm g"
  by (simp add: main_loop_in_def main_loop_def)

lemma main_in_Release [simp]: "main_in Release t g = main t g"
  by (simp add: main_in_def main_def)

section \<open>The states the loop reaches\<close>

text \<open>
  A body grows by at most one segment in an iteration, and the body of a live
  snake has at most one segment more than the grid has cells: the length of
  a body the loop reaches is far below \<open>2\<^sup>6\<^sup>4\<close>, so the score is computed
  exactly also after the last iteration. The score line has seven characters
  and the digits of the score; it fits when the number of cells has at most
  \<open>2 * width - 2\<close> digits.
\<close>

lemma area_less_usize:
  assumes "proper_grid w h"
  shows "Suc (Suc (unat w * unat h)) < 2 ^ 64"
proof -
  from proper_grid_bounds(1,2) [OF assms] have "unat w < 2 ^ 31" "unat h < 2 ^ 31"
    by (simp_all only: unat_less_pow31_iff)
  then have "unat w * unat h < 2 ^ 31 * 2 ^ 31"
    by (intro mult_strict_mono) simp_all
  then show ?thesis
    by simp
qed

lemma reachable_length:
  assumes "reachable_from start (gm, g)" and "game_inv (fst start)" and "alive (snek (fst start))"
  shows "length (body (snek gm)) \<le> Suc (Suc (unat (width gm) * unat (height gm)))"
  using assms(1)
proof (cases rule: reachable_from.cases)
  case initial
  with game_inv_length [OF assms(2,3)] show ?thesis
    by auto
next
  case (iterate gm0 g0)
  from reachable_from_game_inv [OF iterate(1) assms(2)] iterate(2)
  have "length (body (snek gm0)) \<le> Suc (unat (width gm0) * unat (height gm0))"
    by (intro game_inv_length) simp_all
  with tick_length(2) [OF iterate(3)] tick_frame(1,2) [OF iterate(3)] show ?thesis
    by simp
qed

lemma reachable_score_exact:
  assumes "reachable_from start (gm, g)" and "game_inv (fst start)" and "alive (snek (fst start))"
  shows "game_score_in p gm = Inr (game_score gm)"
proof -
  from reachable_from_game_inv [OF assms(1,2)] have inv: "game_inv gm"
    by simp
  then have "proper_grid (width gm) (height gm)"
    by (simp add: game_inv_def)
  from reachable_length [OF assms] area_less_usize [OF this]
  have "length (body (snek gm)) < 2 ^ 64"
    by (rule le_less_trans)
  with inv show ?thesis
    by (intro game_score_in_eq) (simp_all add: game_inv_def snek_inv_def)
qed

lemma score_text_fits:
  assumes "n \<le> a" and "Suc a < 10 ^ (2 * w - 2)"
  shows "(7 + length (to_string n)) div 2 \<le> w + 2"
proof -
  from assms(2) have "0 < 2 * w - 2"
    by (cases "2 * w - 2") simp_all
  moreover from assms have "n < 10 ^ (2 * w - 2)"
    by simp
  ultimately have "length (to_string n) \<le> 2 * w - 2"
    by (intro length_to_string_le)
  with \<open>0 < 2 * w - 2\<close> show ?thesis
    by simp
qed

lemma game_inv_overflow_free:
  assumes inv: "game_inv gm" and alive: "alive (snek gm)" and fits: "fits gm"
    and hd: "in_frame (width gm) (height gm) (head (snek gm))"
    and "Suc (Suc (unat (width gm) * unat (height gm))) < 10 ^ (2 * unat (width gm) - 2)"
  shows "overflow_free gm"
proof -
  from inv have proper: "proper_grid (width gm) (height gm)"
    by (simp add: game_inv_def)
  note len = game_inv_length [OF inv alive]
  with area_less_usize [OF proper] have small: "length (body (snek gm)) < 2 ^ 64"
    by simp
  from inv have le: "unat (start_len (snek gm)) \<le> length (body (snek gm))"
    by (simp add: game_inv_def snek_inv_def)
  from hd inv alive set_butlast_last [of "body (snek gm)"]
  have parts: "\<forall>q \<in> set (body (snek gm)). in_frame (width gm) (height gm) q"
    by (auto simp: game_inv_def snek_inv_def head_def in_grid_in_frame)
  from inv have fd: "in_frame (width gm) (height gm) (food gm)"
    by (simp add: game_inv_def in_grid_in_frame)
  from unat_snek_score [OF le small] have "unat (game_score gm) \<le> length (body (snek gm))"
    by (simp add: game_score_def)
  with len have "unat (game_score gm) \<le> Suc (unat (width gm) * unat (height gm))"
    by simp
  from score_text_fits [OF this assms(5)]
  have "int (length (score_text gm) div 2) \<le> int (unat (width gm) + 2)"
    unfolding of_nat_le_iff by (simp add: score_text_def SCORE_PROMPT_def)
  then have "int (length (score_text gm) div 2) \<le> uint (width gm) + 2"
    by simp
  with fits parts fd le small show ?thesis
    by (simp add: overflow_free_def)
qed

lemma reachable_overflow_free:
  assumes "reachable_from start (gm, g)" and "alive (snek gm)"
    and "game_inv (fst start)" and "alive (snek (fst start))" and "fits (fst start)"
    and "in_frame (width (fst start)) (height (fst start)) (head (snek (fst start)))"
    and "Suc (Suc (unat (width gm) * unat (height gm))) < 10 ^ (2 * unat (width gm) - 2)"
  shows "overflow_free gm"
proof (rule game_inv_overflow_free [OF _ assms(2) _ _ assms(7)])
  from reachable_from_game_inv [OF assms(1,3)] show "game_inv gm"
    by simp
  from reachable_fits [OF assms(1,5)] show "fits gm"
    by simp
  from assms(1,3,6,2) show "in_frame (width gm) (height gm) (head (snek gm))"
    by (rule reachable_head_in_frame)
qed

section \<open>The game and the program\<close>

lemma game_new_in_eq:
  assumes "uint w < 2 ^ 30 - 2" and "uint h < 2 ^ 30 - 2"
  shows "game_new_in p w h f b t g = game_new w h f b t g"
proof -
  from assms(1) have "uint w * uint (2 :: u32) < 2 ^ LENGTH(32)"
    by simp
  then have w2: "uint (w * 2) = uint w * uint (2 :: u32)"
    by (simp only: uint_mult_lem)
  with assms(1) have "uint (w * 2) + uint (4 :: u32) < 2 ^ LENGTH(32)"
    by simp
  then have w4: "uint (w * 2 + 4) = uint (w * 2) + uint (4 :: u32)"
    by (simp only: uint_add_lem)
  from assms(2) have "uint h + uint (2 :: u32) < 2 ^ LENGTH(32)"
    by simp
  then have "uint (h + 2) = uint h + uint (2 :: u32)"
    by (simp only: uint_add_lem)
  with w2 w4 show ?thesis
    by (simp add: game_new_in_def game_new_def umul_def uadd_def)
qed

lemma main_loop_in_eq:
  assumes "game_inv gm" and "alive (snek gm)" and "fits gm"
    and "in_frame (width gm) (height gm) (head (snek gm))"
    and "Suc (Suc (unat (width gm) * unat (height gm))) < 10 ^ (2 * unat (width gm) - 2)"
  shows "main_loop_in p gm g = main_loop gm g"
    and "main_loop gm g = returns (gm', g') \<Longrightarrow> game_score_in p gm' = Inr (game_score gm')"
proof -
  let ?st = "(gm\<lparr>engine := set_title (engine gm) ''SNEK''\<rparr>, g)"
  from assms have st: "game_inv (fst ?st)" "alive (snek (fst ?st))" "fits (fst ?st)"
    "in_frame (width (fst ?st)) (height (fst ?st)) (head (snek (fst ?st)))"
    by (simp_all add: game_inv_def fits_def screen_for_def set_title_def)
  have agree: "tick_in p gm1 g1 = tick gm1 g1"
    if "reachable_from ?st (gm1, g1)" and "alive (snek gm1)" for gm1 g1
  proof (rule tick_in_eq, rule reachable_overflow_free [OF that st])
    from reachable_from_frame(1,2) [OF that(1)] assms(5)
    show "Suc (Suc (unat (width gm1) * unat (height gm1))) < 10 ^ (2 * unat (width gm1) - 2)"
      by simp
  qed
  from loop_in_eq_loop [OF reachable_from.initial [of ?st], where p = p] agree
  show "main_loop_in p gm g = main_loop gm g"
    by (simp add: main_loop_in_def main_loop_def)
  assume "main_loop gm g = returns (gm', g')"
  then obtain n where "ticks n (fst ?st) (snd ?st) = returns (gm', g')"
    by (auto simp: main_loop_def loop_eq_Some_iff)
  then have "reachable_from ?st (gm', g')"
    by (simp add: ticks_reachable)
  from reachable_score_exact [OF this st(1,2)]
  show "game_score_in p gm' = Inr (game_score gm')" .
qed

text \<open>
  C34 (the status line in a debug build). On a screen that fits the grid and
  for a body not shorter than at the start, \<open>draw_prompts\<close> compiled with
  overflow checks panics exactly when half the length of the score line
  exceeds the width of the grid plus two, half the width of the screen: the
  \<^verbatim>\<open>u32\<close> subtraction that centres the text overflows. Otherwise it draws
  what the release build draws. The score line has eight characters or
  more, so a debug build cannot draw a grid of width one.
\<close>

theorem draw_prompts_overflow:
  assumes "fits gm" and "unat (start_len (snek gm)) \<le> length (body (snek gm))"
    and "length (body (snek gm)) < 2 ^ 64"
  shows "draw_prompts_in Debug gm =
    (if int (length (score_text gm) div 2) \<le> uint (width gm) + 2
     then Inr (draw_prompts gm) else Inl Overflow)"
  using assms
  by (simp add: draw_prompts_in_wide draw_prompts_in_narrow game_score_in_eq not_le)

theorem draw_prompts_overflow_witness:
  "draw_prompts_in Debug
     \<lparr>snek = snek_new [Point 0 0], food = Point 0 1, paused = False,
      engine = \<lparr>scr_width = 6, scr_height = 5, target_fps = 8, title = [],
        screen = (\<lambda>_. pxl CHR '' ''), frames = [], keys_pressed = [], key_events = sconst []\<rparr>,
      width = 1, height = 3\<rparr> = Inl Overflow \<and>
   draw_prompts_in Debug (demo_game STARTING_BODY (Point 7 7) (sconst [])) =
     Inr (draw_prompts (demo_game STARTING_BODY (Point 7 7) (sconst [])))"
  using draw_prompts_overflow [of "\<lparr>snek = snek_new [Point 0 0], food = Point 0 1, paused = False,
      engine = \<lparr>scr_width = 6, scr_height = 5, target_fps = 8, title = [],
        screen = (\<lambda>_. pxl CHR '' ''), frames = [], keys_pressed = [], key_events = sconst []\<rparr>,
      width = 1, height = 3\<rparr>"]
    draw_prompts_overflow [of "demo_game STARTING_BODY (Point 7 7) (sconst [])"]
  by (simp add: fits_def screen_for_def score_text_def game_score_def snek_score_def snek_new_def
      SCORE_PROMPT_def STARTING_BODY_def to_string.simps)

end
