(* ===== verification/Sweep.thy ===== *)
theory Sweep
  imports Fair
begin

text \<open>
  A game played to the end: the run of \<^verbatim>\<open>main\<close> in which the snake fills the
  grid, and what the program does then.

  The specification says of the rejection loop of \<^verbatim>\<open>rand_point\<close> that it has no
  bound when the snake fills the grid, and that this state is not reached
  before a collision ends the game. This theory constructs the run that
  reaches it. The snake sweeps the grid row by row, the even rows to the
  right and the odd rows to the left, stepping down at the end of a row;
  \<open>sweep_cell w i\<close> is the \<open>i\<close>-th cell of that path on a grid \<open>w\<close> cells wide
  and \<open>sweep_dir w i\<close> the direction that leads from it to the next. The
  starting body of the program is the first four cells of the path. The
  player \<open>sweep_keys\<close> presses in every frame the arrow key of the direction the
  head has to take, and the stream \<open>sweep_rng\<close> holds the raw values that make
  \<^verbatim>\<open>fastrand::i32\<close> place each food on the cell just ahead of the head. So the
  snake eats in every iteration, never runs into a wall or into itself, and
  after \<open>width * height - 5\<close> iterations covers every cell but the one of the
  food. The next iteration eats that food and never returns.

  The random values of the sweep are fair in the sense of theory \<open>Fair\<close>:
  they go on over the rows of the grid for ever and offer every cell again
  and again. The hang is therefore not one of a generator that withholds a
  free cell; there is no free cell. It also shows that the results of theory
  \<open>Fair\<close> cannot do with less than two free cells.

  The definitions are the vocabulary of the result and model no code of the
  program; the run is computed on the simulation of theory \<open>Simulation\<close> and
  carried to \<open>ticks\<close>, \<open>main_loop\<close> and \<open>main\<close> by the refinement lemmas.
\<close>

section \<open>The path, the player and the random values\<close>

definition sweep_column :: "nat \<Rightarrow> nat \<Rightarrow> nat" where
  "sweep_column w i = (if even (i div w) then i mod w else w - 1 - i mod w)"

definition sweep_cell :: "nat \<Rightarrow> nat \<Rightarrow> point" where
  "sweep_cell w i = Point (word_of_nat (sweep_column w i)) (word_of_nat (i div w))"

definition sweep_dir :: "nat \<Rightarrow> nat \<Rightarrow> direction" where
  "sweep_dir w i =
     (if Suc (i mod w) = w then Down else if even (i div w) then Right else Left)"

definition sweep_keys :: "nat \<Rightarrow> nat \<Rightarrow> keycode list stream" where
  "sweep_keys w i = smap (\<lambda>i. [key_of (sweep_dir w i)]) (fromN i)"

definition sweep_rng :: "nat \<Rightarrow> nat \<Rightarrow> rng" where
  "sweep_rng w i = sinterleave (smap (sweep_column w) (fromN i)) (smap (\<lambda>i. i div w) (fromN i))"

text \<open>
  The state after the snake has eaten \<open>i - 2\<close> foods: the body is the path up
  to the cell \<open>i + 1\<close>, the food is the cell after it, and the direction is
  the one the head took two cells back (the one it had when the last key was
  read).
\<close>

definition sweep_snek :: "nat \<Rightarrow> nat \<Rightarrow> snek" where
  "sweep_snek w i =
     \<lparr>body = map (sweep_cell w) [0..<Suc (Suc i)], start_len = 4,
      direction = sweep_dir w i, eating = False, alive = True\<rparr>"

definition sweep_sim :: "u32 \<Rightarrow> u32 \<Rightarrow> nat \<Rightarrow> sim" where
  "sweep_sim w h i =
     \<lparr>sim_snek = sweep_snek (unat w) i, sim_food = sweep_cell (unat w) (Suc (Suc i)),
      sim_paused = False, sim_width = w, sim_height = h\<rparr>"

section \<open>The path stays on the grid and visits every cell once\<close>

lemma sweep_column_less: "0 < w \<Longrightarrow> sweep_column w i < w"
  by (simp add: sweep_column_def less_imp_diff_less)

lemma sweep_column_Suc:
  assumes "0 < w"
  shows "sweep_column w (Suc i) =
    (if Suc (i mod w) = w then sweep_column w i
     else if even (i div w) then Suc (sweep_column w i) else sweep_column w i - 1)"
  using assms by (auto simp: sweep_column_def div_Suc mod_Suc)

lemma sweep_row_Suc:
  "Suc i div w = (if Suc (i mod w) = w then Suc (i div w) else i div w)"
  by (simp add: div_Suc mod_Suc)

lemma sweep_column_pos:
  assumes "0 < w" and "Suc (i mod w) \<noteq> w" and "odd (i div w)"
  shows "0 < sweep_column w i"
proof -
  from assms(1) have "i mod w < w"
    by simp
  with assms(2,3) show ?thesis
    by (simp add: sweep_column_def)
qed

text \<open>
  A step in the direction of a cell leads to the next cell of the path, and
  no direction of the path is the opposite of the one before it: the guard of
  \<open>change_direction\<close> never refuses a key of the player.
\<close>

lemma sweep_step:
  assumes "0 < w"
  shows "point_add (sweep_cell w i) (to_vector (sweep_dir w i)) = sweep_cell w (Suc i)"
  using assms sweep_column_pos [of w i]
  by (auto simp: sweep_cell_def sweep_dir_def sweep_column_Suc sweep_row_Suc
      word_of_nat_pred)

lemma sweep_turn: "sweep_dir w i \<noteq> opposite (sweep_dir w (Suc i))"
  by (auto simp: sweep_dir_def div_Suc mod_Suc split: if_splits)

lemma sweep_cell_in_grid:
  assumes "proper_grid w h" and "i < unat w * unat h"
  shows "in_grid w h (sweep_cell (unat w) i)"
proof -
  note bounds = proper_grid_bounds [OF assms(1)]
  from bounds(3) have col: "sweep_column (unat w) i < unat w"
    by (rule sweep_column_less)
  from assms(2) have row: "i div unat w < unat h"
    by (simp add: less_mult_imp_div_less mult.commute)
  from bounds(1,2) have "unat w < 2 ^ 31" and "unat h < 2 ^ 31"
    by (simp_all only: unat_less_pow31_iff)
  with col row have "sweep_column (unat w) i < 2 ^ 31" and "i div unat w < 2 ^ 31"
    by simp_all
  with col row show ?thesis
    by (simp add: sweep_cell_def in_grid_Point sint_of_nat_32 int_less_uint)
qed

lemma sweep_column_inj:
  assumes "0 < w" and "sweep_column w i = sweep_column w j" and "i div w = j div w"
  shows "i = j"
proof -
  have "w - 1 - a = w - 1 - b \<longleftrightarrow> a = b" if "a < w" and "b < w" for a b :: nat
    using that by arith
  with assms have "i mod w = j mod w"
    by (simp add: sweep_column_def split: if_splits)
  with assms(3) show ?thesis
    by (metis div_mult_mod_eq)
qed

lemma sweep_cell_inj:
  assumes "proper_grid w h" and "i < unat w * unat h" and "j < unat w * unat h"
    and "sweep_cell (unat w) i = sweep_cell (unat w) j"
  shows "i = j"
proof -
  note bounds = proper_grid_bounds [OF assms(1)]
  have less: "k < 2 ^ 32" if "k < unat w" for k
    using that unat_less_pow32 [of w] by simp
  from assms(2,3) have "i div unat w < unat h" and "j div unat w < unat h"
    by (simp_all add: less_mult_imp_div_less mult.commute)
  then have "i div unat w < 2 ^ 32" and "j div unat w < 2 ^ 32"
    using unat_less_pow32 [of h] by simp_all
  with assms(4) have row: "i div unat w = j div unat w"
    by (auto simp: sweep_cell_def dest: word_of_nat_inj_32 [rotated 2])
  from assms(4) bounds(3) have "sweep_column (unat w) i = sweep_column (unat w) j"
    by (auto simp: sweep_cell_def
        intro: word_of_nat_inj_32 less [OF sweep_column_less])
  with bounds(3) show ?thesis
    using row by (rule sweep_column_inj)
qed

lemma sweep_cell_inj_on:
  assumes "proper_grid w h" and "n \<le> unat w * unat h"
  shows "inj_on (sweep_cell (unat w)) {0..<n}"
proof (rule inj_onI)
  fix i j
  assume "i \<in> {0..<n}" and "j \<in> {0..<n}" and "sweep_cell (unat w) i = sweep_cell (unat w) j"
  with assms(2) show "i = j"
    by (auto elim!: sweep_cell_inj [OF assms(1), rotated 2])
qed

lemma sweep_distinct:
  assumes "proper_grid w h" and "n \<le> unat w * unat h"
  shows "distinct (map (sweep_cell (unat w)) [0..<n])"
  using sweep_cell_inj_on [OF assms] by (simp add: distinct_map)

lemma sweep_fresh:
  assumes "proper_grid w h" and "n < unat w * unat h"
  shows "sweep_cell (unat w) n \<notin> set (map (sweep_cell (unat w)) [0..<n])"
  using assms by (auto dest: sweep_cell_inj [OF assms(1), rotated 2])

text \<open>
  The path of \<open>width * height\<close> cells is a list of that many distinct cells of
  the grid, and the grid has no more: the path covers it.
\<close>

lemma sweep_covers:
  assumes "proper_grid w h" and "in_grid w h p"
  shows "p \<in> set (map (sweep_cell (unat w)) [0..<unat w * unat h])"
proof -
  let ?path = "map (sweep_cell (unat w)) [0..<unat w * unat h]"
  note bounds = proper_grid_bounds [OF assms(1)]
  have "set ?path \<subseteq> set (grid_cells w h)"
    using sweep_cell_in_grid [OF assms(1)]
    by (auto simp: in_grid_iff_grid_cells [OF bounds(1,2), symmetric])
  moreover have "card (set ?path) = card (set (grid_cells w h))"
    using sweep_distinct [OF assms(1) order_refl] distinct_grid_cells [of w h]
    by (simp only: distinct_card length_map length_upt length_grid_cells diff_zero)
  ultimately have "set ?path = set (grid_cells w h)"
    by (intro card_subset_eq) simp_all
  with assms(2) show ?thesis
    by (simp only: in_grid_iff_grid_cells [OF bounds(1,2)])
qed

lemma in_grid_iff_sweep:
  assumes "proper_grid w h"
  shows "in_grid w h p \<longleftrightarrow> p \<in> set (map (sweep_cell (unat w)) [0..<unat w * unat h])"
  using sweep_covers [OF assms, of p] sweep_cell_in_grid [OF assms] by auto

section \<open>The keys and the random values\<close>

text \<open>
  The first point the generator offers from position \<open>i\<close> on is the cell \<open>i\<close>
  of the path. With the path before that cell excluded, \<open>rand_point\<close> returns
  it after one draw; with the whole path excluded it never returns.
\<close>

lemma sweep_keys_sel [simp]:
  "shd (sweep_keys w i) = [key_of (sweep_dir w i)]"
  "stl (sweep_keys w i) = sweep_keys w (Suc i)"
  by (simp_all add: sweep_keys_def)

lemma sweep_rng_sel [simp]:
  "shd (sweep_rng w i) = sweep_column w i"
  "shd (stl (sweep_rng w i)) = i div w"
  "stl (stl (sweep_rng w i)) = sweep_rng w (Suc i)"
  by (simp_all add: sweep_rng_def)

lemma candidate_sweep_rng:
  assumes "proper_grid w h" and "i < unat w * unat h"
  shows "candidate w h (sweep_rng (unat w) i) 0 = sweep_cell (unat w) i"
proof -
  note bounds = proper_grid_bounds [OF assms(1)]
  from assms(2) have "i div unat w < unat h"
    by (simp add: less_mult_imp_div_less mult.commute)
  with sweep_column_less [OF bounds(3), of i] show ?thesis
    by (simp add: candidate_def sweep_cell_def)
qed

lemma rand_point_sweep:
  assumes "proper_grid w h" and "i < unat w * unat h"
  shows "rand_point w h (map (sweep_cell (unat w)) [0..<i]) (sweep_rng (unat w) i) =
    returns (sweep_cell (unat w) i, sweep_rng (unat w) (Suc i))"
  using assms sweep_fresh [OF assms]
  by (simp add: rand_point_unfold candidate_sweep_rng)

lemma rand_point_swept:
  assumes "proper_grid w h"
  shows "rand_point w h (map (sweep_cell (unat w)) [0..<unat w * unat h]) g = diverges"
  using assms sweep_covers [OF assms] by (intro rand_point_full_grid) simp_all

text \<open>
  The values are fair: the cell \<open>(x, y)\<close> is offered in every row \<open>r\<close> of the
  path with \<open>r mod height = y\<close> and the parity of \<open>y\<close>, and there are such rows
  as far along the stream as one likes.
\<close>

lemma sdrop_sweep_rng: "sdrop (2 * n) (sweep_rng w i) = sweep_rng w (i + n)"
  by (induction n arbitrary: i) simp_all

lemma candidate_sweep_rng_later:
  "candidate w h (sweep_rng (unat w) i) n =
     Point (word_of_nat (sweep_column (unat w) (i + n) mod unat w))
       (word_of_nat ((i + n) div unat w mod unat h))"
  using candidate_sdrop_even [of w h n "sweep_rng (unat w) i" 0]
  by (simp add: sdrop_sweep_rng candidate_def del: sdrop.simps)

lemma sweep_column_row:
  assumes "c < w"
  shows "sweep_column w (r * w + c) = (if even r then c else w - 1 - c)"
  using assms by (simp add: sweep_column_def)

lemma fair_sweep_rng:
  assumes "proper_grid w h"
  shows "fair w h (sweep_rng (unat w) i)"
  unfolding fair_def
proof (intro allI impI)
  fix p k
  assume grid: "in_grid w h p"
  note b = proper_grid_bounds [OF assms]
  let ?x = "nat (sint (px p))" and ?y = "nat (sint (py p))"
  let ?r = "?y + unat h * (2 * (i + k))"
  let ?c = "if even ?y then ?x else unat w - 1 - ?x"
  let ?j = "?r * unat w + ?c"
  from grid have x: "?x < unat w" and y: "?y < unat h"
    by (simp_all add: in_grid_def nat_less_iff)
  then have c: "?c < unat w"
    by simp
  from b(4) have "i + k \<le> unat h * (2 * (i + k))"
    by (cases "unat h") simp_all
  moreover from b(3) have "?r \<le> ?r * unat w"
    by (cases "unat w") simp_all
  ultimately have "i + k \<le> ?r * unat w"
    by linarith
  then have later: "k \<le> ?j - i" and j: "i + (?j - i) = ?j"
    by simp_all
  from c have "?j div unat w = ?r" and "even ?r \<longleftrightarrow> even ?y"
    by simp_all
  with x y c have "sweep_column (unat w) ?j mod unat w = ?x" and "?j div unat w mod unat h = ?y"
    by (simp_all add: sweep_column_row)
  then have "candidate w h (sweep_rng (unat w) i) (?j - i) =
      Point (word_of_nat ?x) (word_of_nat ?y)"
    by (simp only: candidate_sweep_rng_later j)
  also from grid have "\<dots> = p"
    by (cases p) (simp add: in_grid_def word_of_nat_sint_32)
  finally show "\<exists>n\<ge>k. candidate w h (sweep_rng (unat w) i) n = p"
    using later by blast
qed

section \<open>One tick of the sweep\<close>

text \<open>
  A tick of the simulation in a state of the sweep, with the key of the
  player: the snake is not dead, the key turns it towards the food, the snake
  eats, and what is left is the search for a free cell off the grown body.
\<close>

lemma sweep_snek_sel [simp]:
  "body (sweep_snek w i) = map (sweep_cell w) [0..<Suc (Suc i)]"
  "start_len (sweep_snek w i) = 4"
  "direction (sweep_snek w i) = sweep_dir w i"
  "eating (sweep_snek w i) = False"
  "alive (sweep_snek w i) = True"
  by (simp_all add: sweep_snek_def)

lemma sweep_sim_sel [simp]:
  "sim_snek (sweep_sim w h i) = sweep_snek (unat w) i"
  "sim_food (sweep_sim w h i) = sweep_cell (unat w) (Suc (Suc i))"
  "sim_paused (sweep_sim w h i) = False"
  "sim_width (sweep_sim w h i) = w"
  "sim_height (sweep_sim w h i) = h"
  by (simp_all add: sweep_sim_def)

lemma sweep_snek_alive [simp]: "(sweep_snek w i)\<lparr>alive := True\<rparr> = sweep_snek w i"
  by (simp add: sweep_snek_def)

lemma sweep_head [simp]: "head (sweep_snek w i) = sweep_cell w (Suc i)"
  by (simp add: head_def)

lemma sweep_not_dead:
  assumes "proper_grid w h" and "Suc i < unat w * unat h"
  shows "dead (sweep_snek (unat w) i) w h = Inr False"
  using assms sweep_fresh [OF assms] sweep_cell_in_grid [OF assms]
  by (simp add: dead_proper butlast_append)

lemma sweep_turns:
  "change_direction (sweep_snek w i) (sweep_dir w (Suc i)) =
     (sweep_snek w i)\<lparr>direction := sweep_dir w (Suc i)\<rparr>"
  using sweep_turn [of w i] by (simp add: change_direction_def)

lemma sweep_slither:
  assumes "0 < w"
  shows "slither ((sweep_snek w i)\<lparr>direction := sweep_dir w (Suc i)\<rparr>)
      (sweep_cell w (Suc (Suc i))) wd ht g =
    run_then (rand_point wd ht (map (sweep_cell w) [0..<Suc (Suc (Suc i))]) g)
      (\<lambda>(food', g'). returns (sweep_snek w (Suc i), food', g'))"
  using sweep_step [OF assms, of "Suc i"]
  by (simp add: slither_eq will_eat_def next_head_def head_def sweep_snek_def)

lemma sweep_tick_eq:
  assumes "proper_grid w h" and "Suc i < unat w * unat h"
  shows "sim_tick False [key_of (sweep_dir (unat w) (Suc i))] (sweep_sim w h i) g =
    run_then (rand_point w h (map (sweep_cell (unat w)) [0..<Suc (Suc (Suc i))]) g)
      (\<lambda>(food', g'). returns ((sweep_sim w h (Suc i))\<lparr>sim_food := food'\<rparr>, g'))"
  using proper_grid_bounds(3) [OF assms(1)]
  by (simp add: sim_tick_def sim_over_def sweep_not_dead [OF assms] sweep_turns sweep_slither
      run_then_assoc split_def sweep_sim_def del: upt_Suc)

lemma sweep_tick:
  assumes "proper_grid w h" and "Suc (Suc (Suc i)) < unat w * unat h"
  shows "sim_tick False [key_of (sweep_dir (unat w) (Suc i))] (sweep_sim w h i)
      (sweep_rng (unat w) (Suc (Suc (Suc i)))) =
    returns (sweep_sim w h (Suc i), sweep_rng (unat w) (Suc (Suc (Suc (Suc i)))))"
proof -
  from assms(2) have "Suc i < unat w * unat h"
    by simp
  from sweep_tick_eq [OF assms(1) this] rand_point_sweep [OF assms] show ?thesis
    by (simp add: sweep_sim_def)
qed

lemma sweep_hang:
  assumes "proper_grid w h" and "Suc (Suc (Suc i)) = unat w * unat h"
  shows "sim_tick False [key_of (sweep_dir (unat w) (Suc i))] (sweep_sim w h i) g = diverges"
proof -
  from assms(2) have "Suc i < unat w * unat h"
    by simp
  from sweep_tick_eq [OF assms(1) this] rand_point_swept [OF assms(1)] show ?thesis
    by (simp only: assms(2) run_then_simps)
qed

section \<open>The run of the sweep\<close>

text \<open>
  By induction on the number of ticks: as long as a cell is left for the
  food the run goes from one state of the sweep to the next, and the tick
  that grows the snake onto the last cell makes the run diverge.
\<close>

lemma sweep_run:
  assumes "proper_grid w h" and "Suc (Suc (i + k)) < unat w * unat h"
  shows "sim_run (stake k (sweep_keys (unat w) (Suc i))) False (sweep_sim w h i)
      (sweep_rng (unat w) (Suc (Suc (Suc i)))) =
    returns (sweep_sim w h (i + k), sweep_rng (unat w) (Suc (Suc (Suc (i + k)))))"
  using assms(2)
proof (induction k arbitrary: i)
  case 0
  show ?case by simp
next
  case (Suc k)
  from Suc.prems have "Suc (Suc (Suc i)) < unat w * unat h" and "Suc (Suc (Suc i + k)) < unat w * unat h"
    by simp_all
  from sweep_tick [OF assms(1) this(1)] Suc.IH [OF this(2)] show ?case
    by (simp add: sim_run_stake_Suc del: stake.simps sim_run.simps)
qed

lemma sweep_run_hangs:
  assumes "proper_grid w h" and "Suc (Suc (Suc (i + k))) = unat w * unat h"
  shows "sim_run (stake (Suc k) (sweep_keys (unat w) (Suc i))) False (sweep_sim w h i)
      (sweep_rng (unat w) (Suc (Suc (Suc i)))) = diverges"
  using assms(2)
proof (induction k arbitrary: i)
  case 0
  with sweep_hang [OF assms(1), of i] show ?case
    by (simp add: sim_run_stake_Suc del: stake.simps sim_run.simps)
next
  case (Suc k)
  from Suc.prems have "Suc (Suc (Suc i)) < unat w * unat h"
    and "Suc (Suc (Suc (Suc i + k))) = unat w * unat h"
    by simp_all
  from sweep_tick [OF assms(1) this(1)] Suc.IH [OF this(2)] show ?case
    by (simp add: sim_run_stake_Suc [of "Suc k"] del: stake.simps sim_run.simps)
qed

section \<open>The game of the sweep\<close>

text \<open>
  \<open>Game::new\<close> over the starting body, with the random values of the sweep
  from position 4 on, starts the sweep at its state 2; the refinement lemmas
  of theory \<open>Simulation\<close> carry the run of the simulation to the loop.
\<close>

lemma sweep_starting_body:
  assumes "4 \<le> w"
  shows "map (sweep_cell w) [0..<4] = STARTING_BODY"
  using assms by (simp add: upt_conv_Cons sweep_cell_def sweep_column_def STARTING_BODY_def)

lemma sweep_snek_new:
  assumes "4 \<le> w"
  shows "snek_new STARTING_BODY = sweep_snek w 2"
  using assms sweep_starting_body [OF assms]
  by (simp add: snek_new_def sweep_snek_def sweep_dir_def STARTING_BODY_def
      del: upt_Suc)

lemma sweep_game_new:
  assumes "proper_grid w h" and "4 \<le> unat w" and "4 < unat w * unat h"
    and "w * 2 + 4 \<le> term_cols t" and "h + 2 \<le> term_rows t"
  obtains gm where
    "game_new w h f STARTING_BODY t (sweep_rng (unat w) 4) = returns (gm, sweep_rng (unat w) 5)"
    and "sim_of gm = sweep_sim w h 2" and "key_events (engine gm) = player t" and "\<not> quit gm"
proof -
  from rand_point_sweep [OF assms(1,3)] assms(2)
  have "rand_point w h STARTING_BODY (sweep_rng (unat w) 4) =
      returns (sweep_cell (unat w) 4, sweep_rng (unat w) 5)"
    by (simp only: sweep_starting_body) simp
  moreover from assms(4,5) obtain e where "init (w * 2 + 4) (h + 2) f t = Some e"
    and "key_events e = player t" and "keys_pressed e = []"
    by (simp add: init_eq_Some_iff)
  ultimately show ?thesis
    using assms(2)
    by (intro that [of "\<lparr>snek = snek_new STARTING_BODY, food = sweep_cell (unat w) 4,
          paused = False, engine = e, width = w, height = h\<rparr>"])
      (simp_all add: game_new_def expect_def sim_of_eq_iff sweep_snek_new quit_def
        is_key_pressed_def)
qed

lemma sweep_ticks:
  assumes "proper_grid w h" and "sim_of gm = sweep_sim w h i"
    and "key_events (engine gm) = sweep_keys (unat w) (Suc i)" and "\<not> quit gm"
    and "Suc (Suc (i + k)) < unat w * unat h"
  obtains gm' where
    "ticks k gm (sweep_rng (unat w) (Suc (Suc (Suc i)))) =
       returns (gm', sweep_rng (unat w) (Suc (Suc (Suc (i + k)))))"
    and "sim_of gm' = sweep_sim w h (i + k)"
proof -
  from sweep_run [OF assms(1,5)] assms(2-4)
  have "sim_run (stake k (key_events (engine gm))) (quit gm) (sim_of gm)
      (sweep_rng (unat w) (Suc (Suc (Suc i)))) =
    returns (sweep_sim w h (i + k), sweep_rng (unat w) (Suc (Suc (Suc (i + k)))))"
    by simp
  then show ?thesis
    by (rule ticks_of_sim_run) (rule that)
qed

lemma sweep_ticks_hang:
  assumes "proper_grid w h" and "sim_of gm = sweep_sim w h i"
    and "key_events (engine gm) = sweep_keys (unat w) (Suc i)" and "\<not> quit gm"
    and "Suc (Suc (Suc (i + k))) = unat w * unat h"
  shows "ticks (Suc k) gm (sweep_rng (unat w) (Suc (Suc (Suc i)))) = diverges"
proof -
  from sweep_run_hangs [OF assms(1,5)] assms(2-4)
  have "sim_run (stake (Suc k) (key_events (engine gm))) (quit gm) (sim_of gm)
      (sweep_rng (unat w) (Suc (Suc (Suc i)))) = diverges"
    by (simp del: stake.simps sim_run.simps)
  then show ?thesis
    by (simp only: flip: ticks_refines) simp
qed

lemma sweep_game:
  assumes "proper_grid w h" and "4 \<le> unat w" and "4 < unat w * unat h"
    and "w * 2 + 4 \<le> term_cols t" and "h + 2 \<le> term_rows t"
    and "player t = sweep_keys (unat w) 3"
  obtains start gm where
    "game_new w h f STARTING_BODY t (sweep_rng (unat w) 4) = returns (start, sweep_rng (unat w) 5)"
    and "ticks (unat w * unat h - 5) start (sweep_rng (unat w) 5) =
      returns (gm, sweep_rng (unat w) (unat w * unat h))"
    and "sim_of gm = sweep_sim w h (unat w * unat h - 3)"
    and "tick gm (sweep_rng (unat w) (unat w * unat h)) = diverges"
    and "main_loop start (sweep_rng (unat w) 5) = diverges"
proof -
  let ?n = "unat w * unat h"
  from assms(1-5) obtain start
    where new: "game_new w h f STARTING_BODY t (sweep_rng (unat w) 4) =
        returns (start, sweep_rng (unat w) 5)"
      and start: "sim_of start = sweep_sim w h 2" "\<not> quit start"
      and player: "key_events (engine start) = player t"
    by (rule sweep_game_new)
  from player assms(6) have keys: "key_events (engine start) = sweep_keys (unat w) (Suc 2)"
    by simp
  from assms(3) have less: "Suc (Suc (2 + (?n - 5))) < ?n"
    and full: "Suc (Suc (Suc (2 + (?n - 5)))) = ?n"
    by simp_all
  from assms(3) have five: "Suc (Suc (Suc 2)) = 5" and last: "2 + (?n - 5) = ?n - 3"
    and all: "Suc (Suc (Suc (?n - 3))) = ?n"
    by simp_all
  obtain gm
    where "ticks (?n - 5) start (sweep_rng (unat w) (Suc (Suc (Suc 2)))) =
        returns (gm, sweep_rng (unat w) (Suc (Suc (Suc (2 + (?n - 5))))))"
      and "sim_of gm = sweep_sim w h (2 + (?n - 5))"
    by (rule sweep_ticks [OF assms(1) start(1) keys start(2) less])
  then have run: "ticks (?n - 5) start (sweep_rng (unat w) 5) =
      returns (gm, sweep_rng (unat w) ?n)"
    and gm: "sim_of gm = sweep_sim w h (?n - 3)"
    by (simp_all only: five last all)
  from sweep_ticks_hang [OF assms(1) start(1) keys start(2) full]
  have "ticks (Suc (?n - 5)) start (sweep_rng (unat w) 5) = diverges"
    unfolding five .
  from ticks_last_diverges [OF run this] have hang: "tick gm (sweep_rng (unat w) ?n) = diverges"
    by (rule conjunct2)
  from sweep_run_hangs [OF assms(1) full] start keys
  have "sim_run (stake (Suc (?n - 5)) (key_events (engine start))) (quit start) (sim_of start)
      (sweep_rng (unat w) 5) = diverges"
    unfolding five by (simp only:)
  then have "main_loop start (sweep_rng (unat w) 5) = diverges"
    by (rule main_loop_diverges)
  with new run gm hang show ?thesis
    by (rule that)
qed

section \<open>A game played to the end\<close>

text \<open>
  C19 (the grid can be filled). On every proper grid at least four cells wide
  and of more than four cells, with a terminal that holds the screen, there
  are a player and a stream of raw random values with which the game started
  over the starting body of the program runs \<open>width * height - 5\<close> iterations
  and is then alive and not paused, with a body of distinct segments that
  covers every cell of the grid but the one of the food. The iteration after
  that never returns: the snake eats the food and \<open>rand_point\<close> looks for a
  free cell on a grid that has none. The random values are fair, so the
  iterations of a game with a fair generator return as long as two cells are
  free and no longer.
\<close>

theorem perfect_game_fills_grid:
  assumes "proper_grid w h" and "4 \<le> unat w" and "4 < unat w * unat h"
    and "w * 2 + 4 \<le> term_cols t" and "h + 2 \<le> term_rows t"
    and "player t = sweep_keys (unat w) 3"
  shows "fair w h (sweep_rng (unat w) 4) \<and> (\<exists>start g0 gm g.
    game_new w h f STARTING_BODY t (sweep_rng (unat w) 4) = returns (start, g0) \<and>
    ticks (unat w * unat h - 5) start g0 = returns (gm, g) \<and>
    alive (snek gm) \<and> \<not> paused gm \<and> distinct (body (snek gm)) \<and>
    length (body (snek gm)) = unat w * unat h - 1 \<and>
    (\<forall>p. in_grid w h p \<longleftrightarrow> p \<in> set (body (snek gm)) \<or> p = food gm) \<and>
    tick gm g = diverges)"
proof -
  let ?n = "unat w * unat h"
  from assms obtain start gm
    where new: "game_new w h f STARTING_BODY t (sweep_rng (unat w) 4) =
        returns (start, sweep_rng (unat w) 5)"
      and run: "ticks (?n - 5) start (sweep_rng (unat w) 5) = returns (gm, sweep_rng (unat w) ?n)"
      and gm: "sim_of gm = sweep_sim w h (?n - 3)"
      and hang: "tick gm (sweep_rng (unat w) ?n) = diverges"
    by (rule sweep_game)
  from assms(3) have n: "Suc (Suc (?n - 3)) = ?n - 1" "Suc (?n - 1) = ?n"
    by simp_all
  from gm have snek: "snek gm = sweep_snek (unat w) (?n - 3)"
    and food: "food gm = sweep_cell (unat w) (?n - 1)" and play: "\<not> paused gm"
    by (simp_all add: sim_of_eq_iff n)
  have body: "body (snek gm) = map (sweep_cell (unat w)) [0..<?n - 1]"
    by (simp only: snek sweep_snek_sel n)
  have "distinct (body (snek gm))"
    unfolding body by (rule sweep_distinct [OF assms(1)]) simp
  moreover have "in_grid w h p \<longleftrightarrow> p \<in> set (body (snek gm)) \<or> p = food gm" for p
  proof -
    have "set (map (sweep_cell (unat w)) [0..<?n]) = insert (food gm) (set (body (snek gm)))"
      unfolding body food by (subst n(2) [symmetric]) (simp del: n)
    then show ?thesis
      by (simp only: in_grid_iff_sweep [OF assms(1)] insert_iff disj_commute)
  qed
  moreover have "alive (snek gm)"
    by (simp add: snek)
  moreover have "length (body (snek gm)) = ?n - 1"
    unfolding body by simp
  ultimately have "\<exists>start g0 gm g.
    game_new w h f STARTING_BODY t (sweep_rng (unat w) 4) = returns (start, g0) \<and>
    ticks (unat w * unat h - 5) start g0 = returns (gm, g) \<and>
    alive (snek gm) \<and> \<not> paused gm \<and> distinct (body (snek gm)) \<and>
    length (body (snek gm)) = unat w * unat h - 1 \<and>
    (\<forall>p. in_grid w h p \<longleftrightarrow> p \<in> set (body (snek gm)) \<or> p = food gm) \<and>
    tick gm g = diverges"
    using new run hang play by blast
  with fair_sweep_rng [OF assms(1)] show ?thesis
    by (rule conjI)
qed

theorem perfect_game_fills_grid_witness:
  "fair WIDTH HEIGHT (sweep_rng 17 4) \<and> (\<exists>start g0 gm g.
    game_new WIDTH HEIGHT FPS STARTING_BODY
      \<lparr>term_cols = 38, term_rows = 17, player = sweep_keys 17 3\<rparr> (sweep_rng 17 4) =
        returns (start, g0) \<and>
    ticks 250 start g0 = returns (gm, g) \<and> alive (snek gm) \<and> \<not> paused gm \<and>
    length (body (snek gm)) = 254 \<and> tick gm g = diverges)"
proof -
  have "proper_grid WIDTH HEIGHT" and "unat WIDTH = 17" and "unat HEIGHT = 15"
    by (simp_all add: dim_defs proper_grid_def word_sless_alt)
  with perfect_game_fills_grid [of WIDTH HEIGHT
      "\<lparr>term_cols = 38, term_rows = 17, player = sweep_keys 17 3\<rparr>" FPS]
  show ?thesis
    by (simp add: dim_defs) blast
qed

text \<open>
  C18 (the program hangs on a game that is won). With the dimensions of the
  program, a terminal that holds the screen, the player who steers the snake
  along the rows of the grid and the random values that put each food just
  ahead of the snake, \<open>main\<close> never returns: after 250 foods the snake covers
  254 of the 255 cells, it eats the last food, and the search for a free cell
  does not end. No key of this player is the pause key or the quit key, and
  the random values are fair: the same values make the program that nobody
  plays return.
\<close>

theorem perfect_game_hangs:
  assumes "player t = sweep_keys 17 3" and "38 \<le> term_cols t" and "17 \<le> term_rows t"
  shows "fair WIDTH HEIGHT (sweep_rng 17 4) \<and> main t (sweep_rng 17 4) = diverges"
proof -
  have grid: "proper_grid WIDTH HEIGHT" and "4 \<le> unat WIDTH" and "4 < unat WIDTH * unat HEIGHT"
    and "WIDTH * 2 + 4 \<le> term_cols t" and "HEIGHT + 2 \<le> term_rows t"
    and "player t = sweep_keys (unat WIDTH) 3"
    using assms by (simp_all add: dim_defs proper_grid_def word_sless_alt)
  then obtain start gm
    where "game_new WIDTH HEIGHT FPS STARTING_BODY t (sweep_rng (unat WIDTH) 4) =
        returns (start, sweep_rng (unat WIDTH) 5)"
      and "ticks (unat WIDTH * unat HEIGHT - 5) start (sweep_rng (unat WIDTH) 5) =
        returns (gm, sweep_rng (unat WIDTH) (unat WIDTH * unat HEIGHT))"
      and "sim_of gm = sweep_sim WIDTH HEIGHT (unat WIDTH * unat HEIGHT - 3)"
      and "tick gm (sweep_rng (unat WIDTH) (unat WIDTH * unat HEIGHT)) = diverges"
      and "main_loop start (sweep_rng (unat WIDTH) 5) = diverges"
    by (rule sweep_game)
  from this(1,5) fair_sweep_rng [OF grid, of 4] show ?thesis
    by (simp add: main_def dim_defs)
qed

theorem perfect_game_hangs_witness:
  "fair WIDTH HEIGHT (sweep_rng 17 4) \<and>
   main \<lparr>term_cols = 38, term_rows = 17, player = sweep_keys 17 3\<rparr> (sweep_rng 17 4) = diverges"
  using perfect_game_hangs [of "\<lparr>term_cols = 38, term_rows = 17, player = sweep_keys 17 3\<rparr>"]
  by simp

end
