(* ===== verification/Spec2Isabelle.thy ===== *)
theory Spec2Isabelle
  imports Fair Profile Sweep
begin

text \<open>
  A verification development for \<^verbatim>\<open>snek\<close>, the terminal Snake game of
  \<^verbatim>\<open>src/main.rs\<close>.

  \<^bold>\<open>The program.\<close> One Rust file holds the whole game. \<^verbatim>\<open>main\<close> builds a \<^verbatim>\<open>Game\<close>
  (a snake, a food cell, a pause flag, the console engine and the dimensions
  of the grid), runs \<^verbatim>\<open>Game::main_loop\<close> and prints the end message with the
  score. Every iteration of the loop recomputes the \<^verbatim>\<open>alive\<close> flag from the
  quit key and \<^verbatim>\<open>Snek::dead\<close>, draws the frame, flushes it, waits for the next
  frame, polls the keyboard and, unless the game is paused, moves the snake
  with \<^verbatim>\<open>Snek::slither\<close>, which draws a new food cell with \<^verbatim>\<open>rand_point\<close>
  when the snake eats. The program depends on two crates that are not part of
  the repository: \<^verbatim>\<open>console_engine\<close> (screen and keyboard) and \<^verbatim>\<open>fastrand\<close>
  (random numbers).

  \<^bold>\<open>The theories\<close>, in the order of their imports, and the code each models:

  \<^item> \<open>Snek_Prelude\<close>: the types of the model and the facts every component
    uses. \<^verbatim>\<open>i32\<close> and \<^verbatim>\<open>u32\<close> are 32-bit words and \<^verbatim>\<open>usize\<close> a 64-bit word, with
    the wrapping arithmetic of a release build; signed comparisons are
    \<open><s\<close> and \<open>sint\<close>. A panic is a value (a failed \<^verbatim>\<open>unwrap\<close> or \<^verbatim>\<open>expect\<close>, an
    empty range handed to the generator, an arithmetic overflow in a debug
    build): \<open>'a result\<close> is \<open>panic + 'a\<close>, and
    \<open>'a outcome\<close> adds divergence (\<open>None\<close>) for the code that may loop forever.
    \<open>slice_last\<close>, \<open>unwrap\<close>, \<open>expect\<close> and \<open>to_string\<close> model the functions of
    the Rust standard library the program calls. The lemmas \<open>sint_cell_32\<close>,
    \<open>sint_screen_32\<close> and \<open>sint_centre_32\<close> are the no-wrap facts of the casts
    and sums the drawing methods compute.
  \<^item> \<open>Decimal\<close>: the numerals \<open>to_string\<close> prints and the bound on their
    length, which the column arithmetic of the score line needs; the reader
    \<open>of_string\<close> inverts \<open>to_string\<close>.
  \<^item> \<open>Geometry\<close>: \<^verbatim>\<open>Point\<close>, \<^verbatim>\<open>Vector\<close>, their sum and \<^verbatim>\<open>STARTING_BODY\<close>; the
    grid \<open>in_grid\<close> and the list \<open>grid_cells\<close> of its cells, with the bound of
    a duplicate-free list of cells by the area.
  \<^item> \<open>Direction\<close>: \<^verbatim>\<open>enum Direction\<close>, \<^verbatim>\<open>opposite\<close> and \<^verbatim>\<open>to_vector\<close>, a
    bijection onto the unit vectors; a step from a grid cell stays within
    \<open>in_frame\<close>, the grid and the cells one step around it.
  \<^item> \<open>Rand\<close>: \<^verbatim>\<open>rand_point\<close>. The generator is a stream of raw values, two
    consumed per point and reduced to the range as \<open>fastrand_i32\<close> does; the
    rejection loop \<open>rand_loop\<close> has no bound in the code and is a
    \<^theory_text>\<open>partial_function\<close> in the option monad. The lemmas characterise all
    three outcomes: the panic of an empty range, the first free point
    offered, and divergence when no offered point is free.
  \<^item> \<open>Snek\<close>: \<^verbatim>\<open>struct Snek\<close> and its methods \<^verbatim>\<open>new\<close>, \<^verbatim>\<open>slither\<close>, \<^verbatim>\<open>dead\<close>,
    \<^verbatim>\<open>change_direction\<close>, \<^verbatim>\<open>score\<close> and \<^verbatim>\<open>eat\<close>, with the invariant \<open>snek_inv\<close>,
    the case analysis \<open>slither_cases\<close> of a move and the functional
    behaviour of every method, panics included.
  \<^item> \<open>Engine\<close>: the part of \<^verbatim>\<open>console_engine\<close> the game calls, modelled from
    its documented behaviour: a frame buffer (a function from screen cells to
    pixels), the list of frames shown, and the keyboard as a stream with one
    list of pressed keys per frame, produced by the player. The lemmas read
    the frame buffer after \<open>set_pxl\<close>, \<open>fill_rect\<close> and \<open>print_fbg\<close>.
  \<^item> \<open>Game\<close>: \<^verbatim>\<open>struct Game\<close>, the constants, and \<^verbatim>\<open>Game::new\<close>, \<^verbatim>\<open>score\<close>, \<^verbatim>\<open>quit\<close>
    and \<^verbatim>\<open>input\<close>; the priority order of the keys is the function
    \<open>command_of\<close>.
  \<^item> \<open>Fixture\<close>: a terminal, an engine and a game for the grid of the program,
    on which the theorems are evaluated.
  \<^item> \<open>Render\<close>: \<^verbatim>\<open>draw\<close>, \<^verbatim>\<open>draw_map\<close>, \<^verbatim>\<open>draw_prompts\<close>, \<^verbatim>\<open>draw_food\<close> and
    \<^verbatim>\<open>draw_snek\<close>, with the lemma that drawing changes the frame buffer and
    nothing else.
  \<^item> \<open>Frame\<close>: what a drawn frame shows. A grid cell \<open>(x, y)\<close> is the pair of
    screen cells \<open>left_cell\<close> and \<open>right_cell\<close> in the columns \<open>2x + 2\<close> and
    \<open>2x + 3\<close> of the row \<open>y + 1\<close>, and every cell of the screen belongs to
    exactly one point of the grid or of the ring of cells around it
    (\<open>point_of_cell\<close>). \<open>frame_pixel\<close> is the pixel the specification gives a
    screen cell. The lemmas follow \<^verbatim>\<open>Game::draw\<close> call by call: the map, the
    two status lines with their centred texts, the food and the snake, whose
    head is drawn last; \<open>draw_screen\<close> composes them into the whole frame.
  \<^item> \<open>Main_Loop\<close>: one iteration of \<^verbatim>\<open>Game::main_loop\<close> as \<open>tick\<close> (composed of
    \<open>judge\<close>, \<open>draw\<close> and \<open>advance\<close>), the loop as the partial function
    \<open>loop\<close>, \<^verbatim>\<open>main_loop\<close> and \<^verbatim>\<open>main\<close>; \<open>ticks\<close> is the loop cut off after a
    number of iterations. The invariant \<open>game_inv\<close> of the loop, the states
    \<open>reachable_from\<close> a start, which are the results of \<open>ticks\<close>, and the
    equivalence of \<open>loop\<close> and \<open>ticks\<close>. Every iteration shows one frame, the
    frame of the judged game; \<open>shown\<close> lists the judged games of a run, and
    the frames of the run are the screens drawn from them, in that order.
  \<^item> \<open>Simulation\<close>: the abstract specification, a game without an engine
    (\<open>sim\<close>, \<open>sim_tick\<close>, \<open>sim_run\<close>), and the refinement: \<open>tick\<close>, \<open>ticks\<close> and
    \<open>loop\<close> commute with the abstraction \<open>sim_of\<close>, outcome for outcome.
    Termination of a game left alone and the bound on the iterations of an
    unattended game are proved on the simulation.
  \<^item> \<open>Reachable\<close>: what holds in every state the loop reaches from a game
    built by \<^verbatim>\<open>Game::new\<close>: the invariant, the screen that fits the grid, and
    a body within one cell of the grid while the snake is alive.
  \<^item> \<open>Profile\<close>: the program in the two build profiles. The operators \<open>sadd\<close>,
    \<open>ssub\<close>, \<open>smul\<close>, \<open>uadd\<close>, \<open>usub\<close> and \<open>umul\<close> wrap in the profile \<open>Release\<close>
    and panic with \<open>Overflow\<close> in the profile \<open>Debug\<close> when the result is not
    exact; every function of the program that computes with them is defined
    over the profile (\<open>slither_in\<close>, \<open>dead_in\<close>, \<open>game_new_in\<close>, the drawing
    methods, \<open>tick_in\<close>, \<open>loop_in\<close>, \<open>main_in\<close>). In the release profile these
    are the functions of the component theories; in the states
    \<open>overflow_free\<close>, which include every state the loop reaches with a live
    snake, they are so in both profiles.
  \<^item> \<open>Fair\<close>: the generators that offer every cell of the grid again and
    again (\<open>fair\<close>), in the place of the distribution of the random numbers,
    with the stream \<open>round_robin\<close> as an instance. With a fair generator
    \<open>rand_point\<close> returns whenever a cell is free; the generator an operation
    hands back is fair again; \<open>slither\<close>, \<open>sim_tick\<close> and \<open>tick\<close> return as
    long as the snake leaves two cells free.
  \<^item> \<open>Sweep\<close>: the game played to the end. \<open>sweep_cell\<close> is the path that runs
    over the grid row by row, \<open>sweep_keys\<close> the player who steers the snake
    along it, and \<open>sweep_rng\<close> the random values that place each food on the
    cell ahead of the head. The run is computed on the simulation, one tick
    per food, and carried to \<open>ticks\<close>, \<open>main_loop\<close> and \<open>main\<close>: the snake fills
    the grid, and the iteration that eats the last food never returns.
  \<^item> this theory: the properties of the whole program, each proved from the
    lemmas of the components and stated for every game, player and generator
    that meets its hypotheses; the runs on the game of theory \<open>Fixture\<close> are
    the witnesses that the hypotheses can be met.

  \<^bold>\<open>What is proved.\<close> For the snake: the move, the growth, the collision test
  and the guard against reversal, as the specification states them, and the
  invariant of a non-empty body. For the food: a returned cell is on the grid
  and off the excluded list, and the draw ends as soon as the generator
  offers such a cell. For the loop: the invariant \<open>game_inv\<close> (the food is a
  grid cell off the snake; while the snake is alive its body without the head
  is duplicate-free and on the grid) holds in every reachable state; no
  iteration panics; the score does not wrap and the body never exceeds the
  area of the grid by more than the head; a game nobody plays is decided
  within one iteration more than the distance of its head to the wall, and
  ends there when the food is off its course; a paused game does not end;
  the program panics only when the terminal is too small. With a fair
  generator no iteration hangs while the snake leaves two cells of the grid
  free, and the program that nobody plays returns and prints its score. The
  program has the same outcome with and without overflow checks, on every
  terminal and for every generator; on other grids the checks do not fire in
  a reachable state as long as the score line is not wider than the screen,
  and a debug build panics in the first frame when it is. The refinement
  carries every statement about the simulation over to the loop. For the
  game that is won: on every grid at least four cells wide there is a run in
  which the snake comes to cover every cell but the one of the food, and the
  program hangs in the iteration after it. For the screen: the frames of a
  run are the pictures of the games its iterations judged, in their order
  (\<open>shown\<close>), and every cell of every frame is the pixel \<open>frame_pixel\<close> gives
  it: on the two screen cells of each grid
  cell the eye on the head, the snake on the other segments, the food on the
  food cell and the map elsewhere, with the head drawn also where it has left
  the grid; the border around the grid, whose first and last row carry the
  prompt and the score, centred. For the output: the line the program prints
  is the end message followed by the number of segments the snake has gained,
  between 0 and 253, and the subtraction that computes it has not wrapped.

  \<^bold>\<open>Where the code and the specification part.\<close> The loop moves the snake
  in the iteration in which it finds it dead or the quit key pressed
  (\<open>tick_moves_after_game_over\<close>), so the final score counts a food cell that
  lay ahead of the head when the game was over
  (\<open>game_over_scores_the_food_ahead\<close>). The keyboard is polled while the game
  is paused, so two turns made during a pause reverse the snake, which the
  guard of \<open>change_direction\<close> is there to prevent
  (\<open>pause_defeats_reversal_guard\<close>); when the game resumes the snake steps
  onto its own neck and the game is over (\<open>reversal_through_pause_kills\<close>).
  The rejection loop of \<open>rand_point\<close> does not end once the snake fills the
  grid, and the specification takes that state for one no game reaches: the
  game of theory \<open>Sweep\<close> reaches it on the grid of the program after 250
  foods, without a collision, and \<^verbatim>\<open>main\<close> hangs where the game is won
  (\<open>perfect_game_hangs\<close>). A debug build cannot draw the score line on a grid
  one cell wide (\<open>draw_prompts_overflow\<close> in theory \<open>Profile\<close>).

  \<^bold>\<open>Bounds and fuel.\<close> Nothing is bounded by fuel in the definitions of the
  code: the two unbounded loops are partial functions, and a theorem that
  says a loop returns proves that it does. \<open>ticks n\<close> and \<open>first_free\<close> are
  the bounded counterparts used to compute: \<open>n\<close> iterations suffice for a
  run exactly when the state after them is not alive, which the witnesses
  establish by evaluation. For an unattended game the number of
  iterations is bounded by \<open>wall_distance\<close>, the steps from the head to the
  first cell beyond the wall ahead, plus one for the iteration that finds
  the snake dead: \<open>main_loop\<close> equals \<open>ticks\<close> with that fuel. With a fair
  generator these iterations all return when the length of the body, the
  distance to the wall and one cell more stay below the area of the grid;
  for the program that is \<open>4 + 14 + 1 < 17 * 15\<close>. The game of theory
  \<open>Sweep\<close> runs \<open>width * height - 5\<close> iterations before the one that hangs:
  the starting body has four cells, the first food is the fifth, and every
  iteration adds one cell; nothing in it is evaluated frame by frame, the
  run is an induction over the path. The no-wrap results assume grid
  dimensions below \<open>2\<^sup>3\<^sup>1\<close>, which the range check of the generator enforces
  for every game that has placed a food cell. The results about the screen
  assume dimensions below \<open>2\<^sup>3\<^sup>0 - 2\<close>: the width of the screen is
  \<open>2 * width + 4\<close> in \<^verbatim>\<open>u32\<close> and is cast to \<^verbatim>\<open>i32\<close>, and below that bound
  neither the product nor the cast wraps. The grid of the program is 17 by
  15.

  \<^bold>\<open>Not modelled.\<close> Timing (the frame rate only paces the loop), the
  terminal escape sequences behind the frame buffer, the arithmetic inside
  the two crates the program calls, and the distribution of the random
  numbers: the generator is any stream of values, and the results that need
  more than that assume it fair. The component theories model the release
  build, where the arithmetic wraps; the overflow checks of a debug build
  are in theory \<open>Profile\<close>. The title of the window is stored
  and never read. The frame buffer is a function on all pairs of naturals;
  the theorems speak of the cells on the screen only. Screens for grids of
  \<open>2\<^sup>3\<^sup>0 - 2\<close> cells or more in a dimension, where the arithmetic of the
  drawing methods wraps, are left out of the results about frames.
\<close>

section \<open>A game to run\<close>

text \<open>
  The abstraction of the game of theory \<open>Fixture\<close>, on which the theorems are
  evaluated.
\<close>

definition demo_sim :: "point list \<Rightarrow> point \<Rightarrow> sim" where
  "demo_sim b p =
     \<lparr>sim_snek = snek_new b, sim_food = p, sim_paused = False,
      sim_width = WIDTH, sim_height = HEIGHT\<rparr>"

lemma sim_of_demo_game [simp]: "sim_of (demo_game b p ks) = demo_sim b p"
  by (simp add: sim_of_def demo_sim_def dim_defs)

lemma tick_demo_game:
  assumes "sim_tick False (shd ks) (demo_sim b p) g = returns (m, g')"
  obtains gm' where "tick (demo_game b p ks) g = returns (gm', g')"
    and "snek gm' = sim_snek m" and "food gm' = sim_food m" and "paused gm' = sim_paused m"
proof -
  from assms obtain gm' where "tick (demo_game b p ks) g = returns (gm', g')"
    and "sim_of gm' = m"
    by (rule tick_of_sim_tick [of "demo_game b p ks", simplified])
  then show ?thesis
    by (intro that [of gm']) (simp_all add: sim_of_eq_iff)
qed

lemma game_inv_demo: "game_inv (demo_game STARTING_BODY (Point 7 7) ks)"
  by (simp add: game_inv_def snek_eval in_grid_def)

lemmas sim_eval = sim_tick_def sim_over_def Let_def demo_sim_def dim_defs command_of_def
  dead_nonempty off_grid_iff

lemma tick_demo:
  obtains gm' where
    "tick (demo_game STARTING_BODY (Point 7 7) (sconst [])) (sconst 7) = returns (gm', sconst 7)"
    and "snek gm' = (snek_new STARTING_BODY)\<lparr>body := [Point 1 0, Point 2 0, Point 3 0, Point 4 0]\<rparr>"
    and "food gm' = Point 7 7"
proof -
  have "sim_tick False (shd (sconst [])) (demo_sim STARTING_BODY (Point 7 7)) (sconst 7) =
    returns ((demo_sim STARTING_BODY (Point 7 7))\<lparr>sim_snek := (snek_new STARTING_BODY)
      \<lparr>body := [Point 1 0, Point 2 0, Point 3 0, Point 4 0]\<rparr>\<rparr>, sconst 7)"
    by (simp add: sim_eval snek_eval)
  then show ?thesis
    by (rule tick_demo_game) (rule that; simp add: demo_sim_def)
qed

section \<open>The invariant of the loop\<close>

text \<open>
  C5 (the loop invariant). An iteration of the loop that starts from a game
  in which the invariant \<open>game_inv\<close> holds and the snake is alive, and that
  returns, ends in a game in which the invariant holds again, with the same
  dimensions: the body is not empty, the eating flag is clear, the food is a
  grid cell off the snake, and while the snake is alive its body without the
  head is duplicate-free and on the grid.
\<close>

theorem tick_preserves_game_inv:
  assumes "game_inv gm" and "alive (snek gm)" and "tick gm g = returns (gm', g')"
  shows "game_inv gm' \<and> width gm' = width gm \<and> height gm' = height gm"
  using assms by (simp add: game_inv_tick [of gm g gm' g'] tick_frame)

theorem tick_preserves_game_inv_witness:
  "\<exists>gm'. tick (demo_game STARTING_BODY (Point 7 7) (sconst [])) (sconst 7) = returns (gm', sconst 7) \<and>
     game_inv gm' \<and> width gm' = 17 \<and> height gm' = 15"
proof -
  obtain gm' where
    run: "tick (demo_game STARTING_BODY (Point 7 7) (sconst [])) (sconst 7) = returns (gm', sconst 7)"
    by (rule tick_demo)
  from tick_preserves_game_inv [OF game_inv_demo _ run] run show ?thesis
    by (auto simp: snek_new_def)
qed

text \<open>
  C6 (safety of every reachable state). In every state the loop reaches from
  a game built by \<open>game_new\<close> over a non-empty starting body whose segments
  before the head are distinct cells of the grid, the food is a cell of the
  grid that is not a segment of the snake, the body is not empty and the
  eating flag is clear.
\<close>

theorem food_never_on_snake:
  assumes "game_new w h f b t g = returns start" and "b \<noteq> []"
    and "distinct (butlast b)" and "\<forall>p \<in> set (butlast b). in_grid w h p"
    and "reachable_from start (gm, g')"
  shows "food gm \<notin> set (body (snek gm)) \<and> in_grid w h (food gm) \<and>
    body (snek gm) \<noteq> [] \<and> \<not> eating (snek gm)"
  using reachable_new(1-3) [OF assms] by (simp add: game_inv_def snek_inv_def)

theorem food_never_on_snake_witness:
  "\<exists>gm. reachable_from (demo_game STARTING_BODY (Point 7 7) (sconst []), sconst 7) (gm, sconst 7) \<and>
     body (snek gm) = [Point 1 0, Point 2 0, Point 3 0, Point 4 0] \<and>
     food gm \<notin> set (body (snek gm)) \<and> in_grid 17 15 (food gm)"
proof -
  let ?start = "(demo_game STARTING_BODY (Point 7 7) (sconst []), sconst 7)"
  obtain gm where run: "tick (fst ?start) (snd ?start) = returns (gm, sconst 7)"
    and gm: "snek gm = (snek_new STARTING_BODY)\<lparr>body := [Point 1 0, Point 2 0, Point 3 0, Point 4 0]\<rparr>"
    using tick_demo by auto
  have "reachable_from ?start (gm, sconst 7)"
    by (rule reachable_from.iterate [OF reachable_from.initial _ run [simplified]])
      (simp add: snek_new_def)
  from food_never_on_snake [OF game_new_demo _ _ _ this]
  have "food gm \<notin> set (body (snek gm)) \<and> in_grid WIDTH HEIGHT (food gm)"
    by (simp add: STARTING_BODY_def in_grid_def dim_defs)
  with \<open>reachable_from ?start (gm, sconst 7)\<close> gm show ?thesis
    by (intro exI [of _ gm]) (simp add: dim_defs)
qed

text \<open>
  C22 (bounds of the body and the score). In every reachable state in which
  the snake is alive the body has at most one segment more than the grid has
  cells, and the \<^verbatim>\<open>usize\<close> subtraction of the score does not wrap: the score
  is the number of segments gained since the start.
\<close>

theorem score_bounded:
  assumes "game_new w h f b t g = returns start" and "b \<noteq> []"
    and "distinct (butlast b)" and "\<forall>p \<in> set (butlast b). in_grid w h p"
    and "reachable_from start (gm, g')" and "alive (snek gm)"
  shows "length (body (snek gm)) \<le> Suc (unat w * unat h) \<and>
    unat (game_score gm) = length (body (snek gm)) - length b"
proof -
  note facts = reachable_new [OF assms(1-5)]
  from game_inv_length [OF facts(1) assms(6)] facts(2,3)
  have len: "length (body (snek gm)) \<le> Suc (unat w * unat h)"
    by simp
  from facts(1-3) have "proper_grid w h"
    by (auto simp: game_inv_def)
  from proper_grid_bounds(1,2) [OF this] have "unat w < 2 ^ 31" "unat h < 2 ^ 31"
    by (simp_all only: unat_less_pow31_iff)
  then have "unat w * unat h < 2 ^ 31 * 2 ^ 31"
    by (intro mult_strict_mono) simp_all
  with len have small: "length (body (snek gm)) < 2 ^ 64"
    by simp
  from facts(1) have le: "unat (start_len (snek gm)) \<le> length (body (snek gm))"
    by (simp add: game_inv_def snek_inv_def)
  have "length b \<le> Suc (length (butlast b))"
    by simp
  also from assms(3,4) \<open>proper_grid w h\<close> have "length (butlast b) \<le> unat w * unat h"
    by (intro length_le_area proper_grid_bounds)
  finally have "length b < 2 ^ 64"
    using \<open>unat w * unat h < 2 ^ 31 * 2 ^ 31\<close> by simp
  with facts(4) have "unat (start_len (snek gm)) = length b"
    by (simp add: unat_length_usize)
  with unat_snek_score [OF le small] len show ?thesis
    by (simp add: game_score_def)
qed

theorem score_bounded_witness:
  "\<exists>gm. reachable_from (demo_game STARTING_BODY (Point 7 7) (sconst []), sconst 7) (gm, sconst 7) \<and>
     length (body (snek gm)) \<le> 256 \<and> game_score gm = 0"
proof -
  let ?start = "(demo_game STARTING_BODY (Point 7 7) (sconst []), sconst 7)"
  obtain gm where run: "tick (fst ?start) (snd ?start) = returns (gm, sconst 7)"
    and gm: "snek gm = (snek_new STARTING_BODY)\<lparr>body := [Point 1 0, Point 2 0, Point 3 0, Point 4 0]\<rparr>"
    using tick_demo by auto
  have reach: "reachable_from ?start (gm, sconst 7)"
    by (rule reachable_from.iterate [OF reachable_from.initial _ run [simplified]])
      (simp add: snek_new_def)
  from score_bounded [OF game_new_demo _ _ _ reach]
  have "length (body (snek gm)) \<le> 256"
    by (simp add: STARTING_BODY_def in_grid_def dim_defs gm snek_new_def)
  with reach gm show ?thesis
    by (intro exI [of _ gm]) (simp add: game_score_def snek_score_def snek_new_def STARTING_BODY_def)
qed

section \<open>Panics\<close>

text \<open>
  C9 (no panic in the loop). An iteration from a reachable state does not
  panic: the \<^verbatim>\<open>unwrap\<close> calls of \<open>dead\<close>, \<open>slither\<close>, \<open>eat\<close> and \<open>draw_snek\<close> find
  a head, and the range of the generator is never empty.
\<close>

theorem reachable_never_panics:
  assumes "game_new w h f b t g = returns start" and "b \<noteq> []"
    and "distinct (butlast b)" and "\<forall>p \<in> set (butlast b). in_grid w h p"
    and "reachable_from start (gm, g')"
  shows "tick gm g' \<noteq> panics e"
  using reachable_new(1) [OF assms] by (rule tick_no_panic)

theorem reachable_never_panics_witness:
  "\<forall>e. tick (demo_game STARTING_BODY (Point 7 7) (sconst [])) (sconst 7) \<noteq> panics e"
  using reachable_never_panics [OF game_new_demo _ _ _ reachable_from.initial]
  by (simp add: STARTING_BODY_def in_grid_def dim_defs)

text \<open>
  C10 (the panics of the program). The program panics in one case only: the
  food cell has been placed and the terminal has fewer than 38 columns or
  fewer than 17 rows, and then with the failed \<^verbatim>\<open>expect\<close> of the
  initialisation of the engine. In every other case it returns the end
  message or runs forever.
\<close>

theorem main_panics_iff:
  "main t g = panics e \<longleftrightarrow>
     e = ExpectFailed \<and> (\<exists>n. candidate WIDTH HEIGHT g n \<notin> set STARTING_BODY) \<and>
     (term_cols t < 38 \<or> term_rows t < 17)"
proof (cases WIDTH HEIGHT FPS STARTING_BODY t g rule: game_new_cases)
  case no_grid
  then show ?thesis
    by (simp add: proper_grid_def dim_defs word_sless_alt)
next
  case hang
  then show ?thesis
    by (simp add: main_def)
next
  case no_terminal
  then show ?thesis
    by (auto simp: main_def dim_defs)
next
  case (start n en)
  let ?gm = "\<lparr>snek = snek_new STARTING_BODY, food = candidate WIDTH HEIGHT g n, paused = False,
    engine = en, width = WIDTH, height = HEIGHT\<rparr>"
  from start(5) have "game_inv ?gm"
    by (rule game_inv_new) (simp_all add: STARTING_BODY_def in_grid_def dim_defs)
  then have "game_inv (?gm\<lparr>engine := set_title en ''SNEK''\<rparr>)"
    by (simp add: game_inv_def)
  from loop_no_panic [OF this] have "main_loop ?gm (sdrop (2 * Suc n) g) \<noteq> panics e"
    by (simp add: main_loop_def)
  with start(4,5) show ?thesis
    by (auto simp: main_def run_then_eq_panics_iff init_eq_Some_iff dim_defs)
qed

section \<open>Termination\<close>

text \<open>
  C8 (a game left alone ends). When no key is ever pressed, the game is not
  paused and the food is not in the row or column the snake moves along,
  \<open>main_loop\<close> returns: the loop ends with the alive flag cleared, the
  generator untouched and the score unchanged. The proof is an induction on
  the number of steps from the head to the wall ahead.
\<close>

theorem idle_game_ends:
  assumes "coasting (sim_of gm)" and "key_events (engine gm) = sconst []"
  shows "\<exists>gm'. main_loop gm g = returns (gm', g) \<and> \<not> alive (snek gm') \<and>
    game_score gm' = game_score gm"
proof -
  let ?n = "Suc (wall_distance (sim_of gm))"
  from coasting_ends [OF assms(1) order_refl, of "quit gm" g] obtain m
    where run: "sim_run (replicate ?n []) (quit gm) (sim_of gm) g = returns (m, g)"
      and m: "\<not> alive (sim_snek m)" "snek_score (sim_snek m) = snek_score (snek gm)"
    by auto
  from assms(2) have "stake ?n (key_events (engine gm)) = replicate ?n []"
    by (simp only: stake_sconst)
  with run have "sim_run (stake ?n (key_events (engine gm))) (quit gm) (sim_of gm) g =
      returns (m, g)"
    by (simp only:)
  from this m(1) obtain gm' where "main_loop gm g = returns (gm', g)" and "sim_of gm' = m"
    by (rule main_loop_of_sim_run)
  with m show ?thesis
    by (auto simp: game_score_def sim_of_eq_iff)
qed

theorem idle_game_ends_witness:
  "main (demo_terminal (sconst [])) (sconst 7) = returns (END_MESSAGE @ ''0'')"
proof -
  have "coasting (sim_of (demo_game STARTING_BODY (Point 7 7) (sconst [])))"
    by (simp add: coasting_def unattended_def food_off_course_def demo_sim_def dim_defs snek_eval)
  from idle_game_ends [OF this, of "sconst 7"] obtain gm'
    where "main_loop (demo_game STARTING_BODY (Point 7 7) (sconst [])) (sconst 7) =
        returns (gm', sconst 7)"
      and "game_score gm' = game_score (demo_game STARTING_BODY (Point 7 7) (sconst []))"
    by auto
  then show ?thesis
    by (simp add: main_def game_new_demo game_score_def to_string_eval)
qed

text \<open>
  C15 (an unattended game is decided at the wall). When no key is ever pressed
  and the game is not paused, the loop makes at most one iteration more than
  the head is steps away from the wall ahead, whether the snake eats on its
  way or not: \<open>main_loop\<close> is the loop cut off after that many iterations. It
  returns with the snake dead, unless the placement of a new food cell hangs
  within these iterations; it does not panic.
\<close>

theorem unattended_game_ends:
  assumes "unattended (sim_of gm)" and "key_events (engine gm) = sconst []"
  shows "main_loop gm g =
      ticks (Suc (wall_distance (sim_of gm))) (gm\<lparr>engine := set_title (engine gm) ''SNEK''\<rparr>) g \<and>
    (main_loop gm g = diverges \<or>
     (\<exists>gm' g'. main_loop gm g = returns (gm', g') \<and> \<not> alive (snek gm')))"
proof -
  let ?gm = "gm\<lparr>engine := set_title (engine gm) ''SNEK''\<rparr>"
  have eq: "sim_of ?gm = sim_of gm"
    by (simp add: sim_of_def)
  from assms have "unattended (sim_of ?gm)" "key_events (engine ?gm) = sconst []"
    unfolding eq by simp_all
  from loop_unattended [OF this] show ?thesis
    unfolding main_loop_def eq .
qed

theorem unattended_game_ends_witness:
  "\<exists>gm'. main_loop (demo_game STARTING_BODY (Point 7 0) (sconst [])) (sconst 7) =
       returns (gm', sconst 7) \<and>
     body (snek gm') = [Point 14 0, Point 15 0, Point 16 0, Point 17 0, Point 18 0] \<and>
     food gm' = Point 7 7 \<and> game_score gm' = 1"
proof -
  let ?gm = "demo_game STARTING_BODY (Point 7 0) (sconst [])"
  let ?gmt = "?gm\<lparr>engine := set_title (engine ?gm) ''SNEK''\<rparr>"
  let ?m = "(demo_sim STARTING_BODY (Point 7 7))\<lparr>sim_snek := (snek_new STARTING_BODY)
    \<lparr>body := [Point 14 0, Point 15 0, Point 16 0, Point 17 0, Point 18 0], alive := False\<rparr>\<rparr>"
  have un: "unattended (sim_of ?gm)" and n: "Suc (wall_distance (sim_of ?gm)) = 15"
    and keys: "key_events (engine ?gm) = sconst []"
    by (simp_all add: unattended_def wall_distance_def head_def demo_sim_def dim_defs snek_eval)
  note loop = unattended_game_ends [OF un keys, of "sconst 7", unfolded n, THEN conjunct1]
  have "sim_run (stake 15 (key_events (engine ?gmt))) (quit ?gmt) (sim_of ?gmt) (sconst 7) =
      returns (?m, sconst 7)"
    by (simp add: sim_eval snek_eval sim_of_def quit_def is_key_pressed_def demo_game_def
        demo_engine_def)
  then obtain gm' where "ticks 15 ?gmt (sconst 7) = returns (gm', sconst 7)" and "sim_of gm' = ?m"
    by (rule ticks_of_sim_run)
  with loop show ?thesis
    by (intro exI [of _ gm'])
      (simp add: sim_of_eq_iff game_score_def snek_score_def snek_new_def STARTING_BODY_def
        demo_sim_def)
qed

section \<open>Fair generators\<close>

text \<open>
  The game \<^verbatim>\<open>main\<close> starts is unattended, and its head is fourteen steps away
  from the first cell beyond the right wall.
\<close>

lemma start_unattended:
  "unattended (sim_of \<lparr>snek = snek_new STARTING_BODY, food = p, paused = False, engine = e,
     width = WIDTH, height = HEIGHT\<rparr>)"
  "wall_distance (sim_of \<lparr>snek = snek_new STARTING_BODY, food = p, paused = False, engine = e,
     width = WIDTH, height = HEIGHT\<rparr>) = 14"
  by (simp_all add: unattended_def wall_distance_def sim_of_def head_def snek_new_def
      STARTING_BODY_def proper_grid_def word_sless_alt dim_defs)

text \<open>
  C16 (with a fair generator the program ends). When no key is ever pressed,
  the terminal has room for the screen and the generator is fair, the program
  returns and prints the end message with a score of fifteen at most: the
  food is placed, no placement of a new food cell hangs, and the snake
  reaches the wall after fifteen iterations, in each of which it grows by one
  segment at most, too short to fill the grid.
\<close>

theorem idle_main_terminates:
  assumes "player t = sconst []" and "38 \<le> term_cols t" and "17 \<le> term_rows t"
    and "fair WIDTH HEIGHT g"
  shows "\<exists>n\<le>15. main t g = returns (END_MESSAGE @ to_string n)"
proof -
  from assms(2,3) have "in_grid WIDTH HEIGHT (Point 4 0)" "Point 4 0 \<notin> set STARTING_BODY"
    "WIDTH * 2 + 4 \<le> term_cols t" "HEIGHT + 2 \<le> term_rows t"
    by (simp_all add: in_grid_def dim_defs STARTING_BODY_def)
  with proper_grid_program assms(4) obtain n e
    where e: "init (WIDTH * 2 + 4) (HEIGHT + 2) FPS t = Some e"
      and new: "game_new WIDTH HEIGHT FPS STARTING_BODY t g =
        returns (\<lparr>snek = snek_new STARTING_BODY, food = candidate WIDTH HEIGHT g n,
          paused = False, engine = e, width = WIDTH, height = HEIGHT\<rparr>, sdrop (2 * Suc n) g)"
    by (rule game_new_fair_starts)
  let ?gm = "\<lparr>snek = snek_new STARTING_BODY, food = candidate WIDTH HEIGHT g n, paused = False,
    engine = e, width = WIDTH, height = HEIGHT\<rparr>"
  from e assms(1) have keys: "key_events (engine ?gm) = sconst []"
    by (simp add: init_eq_Some_iff)
  note un = start_unattended(1) [of "candidate WIDTH HEIGHT g n" e]
  have len: "length (body (snek ?gm)) + Suc (wall_distance (sim_of ?gm)) <
      unat (width ?gm) * unat (height ?gm)"
    and wall: "length (body (snek ?gm)) + Suc (wall_distance (sim_of ?gm)) = 19"
    unfolding start_unattended(2) by (simp_all add: snek_new_def dim_defs)
  from game_new_fair(1) [OF new assms(4)]
  have "fair (width ?gm) (height ?gm) (sdrop (2 * Suc n) g)"
    by simp
  from un keys this len obtain gm' g'
    where run: "main_loop ?gm (sdrop (2 * Suc n) g) = returns (gm', g')"
      and "length (body (snek ?gm)) \<le> length (body (snek gm'))"
      and "length (body (snek gm')) \<le>
        length (body (snek ?gm)) + Suc (wall_distance (sim_of ?gm))"
      and "start_len (snek gm') = start_len (snek ?gm)"
    by (rule main_loop_unattended_fair)
  then have "4 \<le> length (body (snek gm'))" "length (body (snek gm')) \<le> 19"
    "unat (start_len (snek gm')) = 4"
    unfolding wall by (simp_all add: snek_new_def)
  then have "unat (game_score gm') \<le> 15"
    using unat_snek_score [of "snek gm'"] by (simp add: game_score_def)
  with new run show ?thesis
    by (simp add: main_def del: sdrop.simps mult_Suc_right)
qed

theorem idle_main_terminates_witness:
  "\<exists>n\<le>15. main (demo_terminal (sconst [])) (round_robin WIDTH) =
     returns (END_MESSAGE @ to_string n)"
  using idle_main_terminates [OF _ _ _ fair_round_robin [OF proper_grid_program],
      of "demo_terminal (sconst [])"]
  by (simp add: demo_terminal_def)

text \<open>
  C17 (with a fair generator the game does not hang). In a game built by
  \<open>game_new\<close> with a fair generator, every iteration from a state the loop
  reaches returns as long as the snake leaves two cells of the grid free, and
  hands on a fair generator: the only way the program can hang other than by
  the pause is a snake that fills the grid.
\<close>

theorem fair_game_never_hangs:
  assumes "game_new w h f b t g = returns start" and "b \<noteq> []" and "fair w h g"
    and "reachable_from start (gm, g1)"
    and "Suc (length (body (snek gm))) < unat w * unat h"
  shows "\<exists>gm' g2. tick gm g1 = returns (gm', g2) \<and> fair w h g2"
proof -
  obtain gm0 g0 where start: "start = (gm0, g0)"
    by (cases start)
  note new = assms(1) [unfolded start]
  note sel = game_new_sel [OF new]
  note fair0 = game_new_fair [OF new assms(3)]
  from sel(1-3) assms(2) fair0(1)
  have "body (snek (fst start)) \<noteq> []" "fair (width (fst start)) (height (fst start)) (snd start)"
    by (simp_all add: start snek_new_def)
  from reachable_keeps_fair [OF assms(4) this] reachable_from_frame(1,2) [OF assms(4)] sel(2,3)
  have gm: "body (snek gm) \<noteq> []" "fair (width gm) (height gm) g1" "width gm = w" "height gm = h"
    by (simp_all add: start)
  from gm(1) fair0(2) gm(2) assms(5) obtain gm' g2
    where "tick gm g1 = returns (gm', g2)" and "fair w h g2"
    unfolding gm(3,4) [symmetric] by (rule tick_fair)
  then show ?thesis by blast
qed

theorem fair_game_never_hangs_witness:
  "\<exists>start gm' g2.
     game_new WIDTH HEIGHT FPS STARTING_BODY (demo_terminal (sconst [])) (round_robin WIDTH) =
       returns start \<and>
     tick (fst start) (snd start) = returns (gm', g2) \<and> fair WIDTH HEIGHT g2"
proof -
  note fair = fair_round_robin [OF proper_grid_program]
  have "in_grid WIDTH HEIGHT (Point 4 0)" "Point 4 0 \<notin> set STARTING_BODY"
    "WIDTH * 2 + 4 \<le> term_cols (demo_terminal (sconst []))"
    "HEIGHT + 2 \<le> term_rows (demo_terminal (sconst []))"
    by (simp_all add: in_grid_def dim_defs STARTING_BODY_def demo_terminal_def)
  with proper_grid_program fair obtain n e
    where new: "game_new WIDTH HEIGHT FPS STARTING_BODY (demo_terminal (sconst []))
        (round_robin WIDTH) =
      returns (\<lparr>snek = snek_new STARTING_BODY,
        food = candidate WIDTH HEIGHT (round_robin WIDTH) n, paused = False, engine = e,
        width = WIDTH, height = HEIGHT\<rparr>, sdrop (2 * Suc n) (round_robin WIDTH))"
      (is "_ = returns ?start")
    by (rule game_new_fair_starts)
  have "STARTING_BODY \<noteq> []" and "Suc (length (body (snek_new STARTING_BODY))) <
      unat WIDTH * unat HEIGHT"
    by (simp_all add: snek_new_def dim_defs STARTING_BODY_def)
  then have "Suc (length (body (snek \<lparr>snek = snek_new STARTING_BODY,
        food = candidate WIDTH HEIGHT (round_robin WIDTH) n, paused = False, engine = e,
        width = WIDTH, height = HEIGHT\<rparr>))) < unat WIDTH * unat HEIGHT"
    by simp
  from fair_game_never_hangs [OF new \<open>STARTING_BODY \<noteq> []\<close> fair reachable_from.initial this]
  obtain gm' g2 where "tick (fst ?start) (snd ?start) = returns (gm', g2)" and "fair WIDTH HEIGHT g2"
    unfolding fst_conv snd_conv by blast
  with new show ?thesis
    by blast
qed

section \<open>Turning\<close>

text \<open>
  C24 (no reversal within an iteration). Whatever keys are pressed, the
  direction of the snake after an iteration is not the opposite of its
  direction before it.
\<close>

theorem tick_never_reverses:
  assumes "tick gm g = returns (gm', g')"
  shows "direction (snek gm') \<noteq> opposite (direction (snek gm))"
proof -
  have "direction (snek (polled gm1)) \<noteq> opposite (direction (snek gm))"
    if "same_but_screen (judged gm) gm1" for gm1
    using that direction_polled [of gm1] by (simp add: same_but_screen_def)
  with assms show ?thesis
    by (cases rule: tick_returns_cases) (auto dest: slither_frame(1))
qed

theorem tick_never_reverses_witness:
  "\<exists>gm'. tick (demo_game STARTING_BODY (Point 7 7) ([KeyLeft] ## sconst [])) (sconst 7) =
       returns (gm', sconst 7) \<and>
     direction (snek gm') = Right \<and> head (snek gm') = Point 4 0"
proof -
  have "sim_tick False (shd ([KeyLeft] ## sconst [])) (demo_sim STARTING_BODY (Point 7 7)) (sconst 7) =
    returns ((demo_sim STARTING_BODY (Point 7 7))\<lparr>sim_snek := (snek_new STARTING_BODY)
      \<lparr>body := [Point 1 0, Point 2 0, Point 3 0, Point 4 0]\<rparr>\<rparr>, sconst 7)"
    by (simp add: sim_eval snek_eval)
  then obtain gm' where
    run: "tick (demo_game STARTING_BODY (Point 7 7) ([KeyLeft] ## sconst [])) (sconst 7) =
      returns (gm', sconst 7)"
    and gm': "snek gm' = (snek_new STARTING_BODY)
      \<lparr>body := [Point 1 0, Point 2 0, Point 3 0, Point 4 0]\<rparr>"
    by (rule tick_demo_game) (simp add: demo_sim_def)
  from tick_never_reverses [OF run] run gm' show ?thesis
    by (simp add: snek_new_def head_def)
qed

section \<open>Where the code and the specification part\<close>

text \<open>
  C27 (a move after the end). The iteration that finds the game over, the
  snake dead or the quit key pressed, clears the alive flag and, unless the
  game is paused, still moves the snake by one step in its direction before
  the loop ends.
\<close>

theorem tick_moves_after_game_over:
  assumes "tick gm g = returns (gm', g')" and "game_over gm" and "\<not> paused gm'"
  shows "\<not> alive (snek gm') \<and>
    head (snek gm') = point_add (head (snek gm)) (to_vector (direction (snek gm')))"
  using assms(1)
proof (cases rule: tick_returns_cases)
  case (held gm1)
  with assms(3) show ?thesis by simp
next
  case (moved gm1 s p)
  from moved(2) have "body (snek (polled gm1)) = body (snek gm)"
    and "alive (snek (polled gm1)) = alive (snek (judged gm))"
    by (simp_all add: same_but_screen_def)
  with moved(1,5) assms(2) slither_frame(1,3) [OF moved(4)] slither_head [OF _ moved(4)]
  show ?thesis
    by (simp add: next_head_def head_def)
qed

theorem tick_moves_after_game_over_witness:
  "\<exists>gm'. tick (demo_game [Point 14 0, Point 15 0, Point 16 0, Point 17 0] (Point 7 7) (sconst []))
       (sconst 7) = returns (gm', sconst 7) \<and>
     \<not> alive (snek gm') \<and> head (snek gm') = Point 18 0"
proof -
  let ?b = "[Point 14 0, Point 15 0, Point 16 0, Point 17 0]"
  have "sim_tick False (shd (sconst [])) (demo_sim ?b (Point 7 7)) (sconst 7) =
    returns ((demo_sim ?b (Point 7 7))\<lparr>sim_snek := (snek_new ?b)
      \<lparr>body := [Point 15 0, Point 16 0, Point 17 0, Point 18 0], alive := False\<rparr>\<rparr>, sconst 7)"
    by (simp add: sim_eval snek_eval)
  then obtain gm' where
    run: "tick (demo_game ?b (Point 7 7) (sconst [])) (sconst 7) = returns (gm', sconst 7)"
    and gm': "\<not> paused gm'" "direction (snek gm') = Right"
    by (rule tick_demo_game) (simp_all add: demo_sim_def snek_new_def)
  have "game_over (demo_game ?b (Point 7 7) (sconst []))"
    by (simp add: game_over_def dead_nonempty snek_new_def head_def word_sless_alt)
  from tick_moves_after_game_over [OF run this gm'(1)] run gm'(2) show ?thesis
    by (simp add: head_def snek_new_def)
qed

text \<open>
  C25 (reversal through a pause). The keyboard is polled in every iteration,
  paused or not. In a paused game, a key for a direction across the
  direction of the snake in one frame and the key for the opposite direction
  in the next leave the snake in place, alive and pointing backwards: the
  guard of \<open>change_direction\<close> compares with the direction of the last key, not
  with the direction of the last move.
\<close>

theorem pause_defeats_reversal_guard:
  assumes "paused gm" and "body (snek gm) \<noteq> []" and "alive (snek gm)" and "\<not> game_over gm"
    and "key_events (engine gm) =
      [key_of e] ## [key_of (opposite (direction (snek gm)))] ## ks"
    and "e \<noteq> direction (snek gm)" and "e \<noteq> opposite (direction (snek gm))"
  shows "\<exists>gm'. ticks (Suc (Suc 0)) gm g = returns (gm', g) \<and> paused gm' \<and> alive (snek gm') \<and>
    body (snek gm') = body (snek gm) \<and>
    direction (snek gm') = opposite (direction (snek gm))"
proof -
  from assms(4) have over: "\<not> sim_over (quit gm) (sim_of gm)"
    by (simp add: sim_over_def game_over_def)
  have q: "KeyChar CHR ''q'' \<notin> set [key_of e]"
    by (cases e) simp_all
  from assms(7) have "direction (snek gm) \<noteq> opposite e"
    by (cases e; cases "direction (snek gm)") simp_all
  with assms(1-3,6) over q have "\<exists>m. sim_run (stake (Suc (Suc 0)) (key_events (engine gm)))
      (quit gm) (sim_of gm) g = returns (m, g) \<and> sim_paused m \<and> alive (sim_snek m) \<and>
      body (sim_snek m) = body (snek gm) \<and>
      direction (sim_snek m) = opposite (direction (snek gm))"
    unfolding assms(5)
    by (simp add: sim_tick_def sim_over_def Let_def change_direction_def dead_def)
  then obtain m where
    run: "sim_run (stake (Suc (Suc 0)) (key_events (engine gm))) (quit gm) (sim_of gm) g =
      returns (m, g)"
    and m: "sim_paused m" "alive (sim_snek m)" "body (sim_snek m) = body (snek gm)"
      "direction (sim_snek m) = opposite (direction (snek gm))"
    unfolding assms(5) by blast
  from run obtain gm' where "ticks (Suc (Suc 0)) gm g = returns (gm', g)" and "sim_of gm' = m"
    by (rule ticks_of_sim_run)
  with m show ?thesis
    by (intro exI [of _ gm']) (simp add: sim_of_eq_iff del: ticks.simps)
qed

theorem pause_defeats_reversal_guard_witness:
  "\<exists>gm'. ticks (Suc (Suc 0))
       ((demo_game STARTING_BODY (Point 7 7) ([KeyUp] ## [KeyLeft] ## sconst []))\<lparr>paused := True\<rparr>)
       (sconst 7) = returns (gm', sconst 7) \<and>
     body (snek gm') = STARTING_BODY \<and> direction (snek gm') = Left"
proof -
  let ?gm = "(demo_game STARTING_BODY (Point 7 7) ([KeyUp] ## [KeyLeft] ## sconst []))
    \<lparr>paused := True\<rparr>"
  have "\<not> game_over ?gm"
    by (simp add: game_over_def quit_def is_key_pressed_def demo_game_def demo_engine_def
        dead_nonempty dim_defs snek_eval)
  from pause_defeats_reversal_guard [of ?gm Up "sconst []" "sconst 7", OF _ _ _ this]
  show ?thesis
    by (auto simp add: demo_game_def demo_engine_def snek_new_def STARTING_BODY_def
        simp del: ticks.simps)
qed

text \<open>
  C26 (a reversed snake bites itself). What the reversal through a pause
  leads to. Take a paused game that is not over, whose head is one step ahead
  of its neck in the direction of the snake, with at least one segment behind
  the neck. The player presses a key across that direction, then the key of
  the opposite direction, then the pause key. After these three iterations
  the game runs again, the snake points backwards and has stepped onto its
  own neck: \<open>dead\<close> holds of it, and the next iteration ends the game,
  whatever the player does. The generator is not touched.
\<close>

theorem reversal_through_pause_kills:
  assumes "paused gm" and "alive (snek gm)" and "\<not> game_over gm" and "\<not> eating (snek gm)"
    and "body (snek gm) = xs @ [n, point_add n (to_vector (direction (snek gm)))]"
    and "xs \<noteq> []" and "food gm \<noteq> n"
    and "key_events (engine gm) =
      [key_of e] ## [key_of (opposite (direction (snek gm)))] ## [KeyEsc] ## ks"
    and "e \<noteq> direction (snek gm)" and "e \<noteq> opposite (direction (snek gm))"
  shows "\<exists>gm'. ticks (Suc (Suc (Suc 0))) gm g = returns (gm', g) \<and> \<not> paused gm' \<and>
    alive (snek gm') \<and> direction (snek gm') = opposite (direction (snek gm)) \<and>
    body (snek gm') = tl xs @ [n, head (snek gm), n] \<and> game_over gm'"
proof -
  let ?d = "direction (snek gm)"
  let ?m1 = "(sim_of gm)\<lparr>sim_snek := (snek gm)\<lparr>direction := e\<rparr>\<rparr>"
  let ?m2 = "(sim_of gm)\<lparr>sim_snek := (snek gm)\<lparr>direction := opposite ?d\<rparr>\<rparr>"
  let ?s = "(snek gm)\<lparr>direction := opposite ?d, body := tl xs @ [n, head (snek gm), n]\<rparr>"
  let ?m3 = "(sim_of gm)\<lparr>sim_paused := False, sim_snek := ?s\<rparr>"
  from assms(5) have body: "body (snek gm) \<noteq> []"
    and head: "head (snek gm) = point_add n (to_vector ?d)"
    by (simp_all add: head_def)
  from assms(3) have over: "\<not> sim_over (quit gm) (sim_of gm)"
    and alive: "\<not> sim_over False ?m1" "\<not> sim_over False ?m2"
    by (simp_all add: sim_over_def game_over_def)
  from assms(10) have "?d \<noteq> opposite e"
    by (cases e; cases ?d) simp_all
  with assms(1,2) body over
  have one: "sim_tick (quit gm) [key_of e] (sim_of gm) g = returns (?m1, g)"
    by (simp add: sim_tick_paused_turn)
  from assms(1,2,9) body alive(1)
  have two: "sim_tick False [key_of (opposite ?d)] ?m1 g = returns (?m2, g)"
    by (simp add: sim_tick_paused_turn)
  from assms(5,6) assms(4,7)
  have "slither (sim_snek ?m2) (food gm) (width gm) (height gm) g = returns (?s, food gm, g)"
    by (simp add: slither_reversed [where xs = xs and n = n and d = ?d] head)
  with assms(1,2) body alive(2)
  have three: "sim_tick False [KeyEsc] ?m2 g = returns (?m3, g)"
    by (simp add: sim_tick_resume)
  from assms(2) one two three
  have "sim_run (stake (Suc (Suc (Suc 0))) (key_events (engine gm))) (quit gm) (sim_of gm) g =
      returns (?m3, g)"
    unfolding assms(8) by simp
  then obtain gm' where run: "ticks (Suc (Suc (Suc 0))) gm g = returns (gm', g)"
    and gm': "sim_of gm' = ?m3"
    by (rule ticks_of_sim_run)
  from gm' have "snek gm' = ?s" and "\<not> paused gm'"
    by (simp_all add: sim_of_eq_iff)
  moreover from this(1) have "game_over gm'"
    by (simp add: game_over_def dead_nonempty head_def butlast_append)
  ultimately show ?thesis
    using run assms(2) by (intro exI [of _ gm']) (simp del: ticks.simps)
qed

theorem reversal_through_pause_kills_witness:
  "\<exists>gm'. ticks (Suc (Suc (Suc 0)))
       ((demo_game STARTING_BODY (Point 7 7) ([KeyUp] ## [KeyLeft] ## [KeyEsc] ## sconst []))
          \<lparr>paused := True\<rparr>) (sconst 7) = returns (gm', sconst 7) \<and>
     body (snek gm') = [Point 1 0, Point 2 0, Point 3 0, Point 2 0] \<and>
     direction (snek gm') = Left \<and> game_over gm'"
proof -
  let ?gm = "(demo_game STARTING_BODY (Point 7 7) ([KeyUp] ## [KeyLeft] ## [KeyEsc] ## sconst []))
    \<lparr>paused := True\<rparr>"
  have "\<not> game_over ?gm"
    by (simp add: game_over_def quit_def is_key_pressed_def demo_game_def demo_engine_def
        dead_nonempty dim_defs snek_eval)
  from reversal_through_pause_kills [of ?gm "[Point 0 0, Point 1 0]" "Point 2 0" Up "sconst []"
      "sconst 7", OF _ _ this]
  show ?thesis
    by (auto simp add: demo_game_def demo_engine_def snek_new_def STARTING_BODY_def head_def
        simp del: ticks.simps)
qed

text \<open>
  C28 (a point scored after the end). When the iteration begins with the game
  over, the quit key pressed or the snake dead, while the food lies on the
  cell ahead of the head and no key is pressed in the frame, the loop ends
  with this iteration, and the snake has eaten the food in it: the body has
  grown by the food cell and the final score is one more than the score at
  the moment the game was over.
\<close>

theorem game_over_scores_the_food_ahead:
  assumes "alive (snek gm)" and "game_over gm" and "\<not> paused gm" and "body (snek gm) \<noteq> []"
    and "shd (key_events (engine gm)) = []" and "next_head (snek gm) = food gm"
    and "proper_grid (width gm) (height gm)"
    and "candidate (width gm) (height gm) g k \<notin> set (body (snek gm) @ [food gm])"
  shows "\<exists>gm' g'. main_loop gm g = returns (gm', g') \<and> \<not> alive (snek gm') \<and>
    body (snek gm') = body (snek gm) @ [food gm] \<and> game_score gm' = game_score gm + 1"
proof -
  let ?s = "(snek gm)\<lparr>alive := False\<rparr>"
  from assms(4,6) have s: "body ?s \<noteq> []" "will_eat ?s (food gm)" "next_head ?s = food gm"
    by (simp_all add: will_eat_def next_head_def head_def)
  obtain p g' where
    "slither ?s (food gm) (width gm) (height gm) g =
      returns (?s\<lparr>body := body (snek gm) @ [food gm], eating := False\<rparr>, p, g')"
  proof (cases ?s "food gm" "width gm" "height gm" g rule: slither_cases)
    case (grow n)
    with s(3) show ?thesis
      by (intro that [of "candidate (width gm) (height gm) g n" "sdrop (2 * Suc n) g"]) simp
  next
    case hang
    with assms(8) s(3) show ?thesis
      by auto
  qed (use s assms(7) in simp_all)
  with assms(1-5) have "sim_run (stake (Suc 0) (key_events (engine gm))) (quit gm) (sim_of gm) g =
      returns ((sim_of gm)\<lparr>sim_snek := ?s\<lparr>body := body (snek gm) @ [food gm], eating := False\<rparr>,
        sim_food := p\<rparr>, g')"
    by (simp add: sim_tick_def sim_over_def game_over_def Let_def)
  moreover have "\<not> alive (sim_snek ((sim_of gm)\<lparr>sim_snek :=
      ?s\<lparr>body := body (snek gm) @ [food gm], eating := False\<rparr>, sim_food := p\<rparr>))"
    by simp
  ultimately obtain gm' where "main_loop gm g = returns (gm', g')"
    and "sim_of gm' = (sim_of gm)\<lparr>sim_snek :=
      ?s\<lparr>body := body (snek gm) @ [food gm], eating := False\<rparr>, sim_food := p\<rparr>"
    by (rule main_loop_of_sim_run)
  then show ?thesis
    by (intro exI [of _ gm'] exI [of _ g'])
      (simp add: sim_of_eq_iff game_score_def snek_score_def)
qed

theorem game_over_scores_the_food_ahead_witness:
  "\<exists>gm' g'. main_loop ((demo_game STARTING_BODY (Point 4 0) (sconst []))
       \<lparr>engine := (demo_engine (sconst []))\<lparr>keys_pressed := [KeyChar CHR ''q'']\<rparr>\<rparr>) (sconst 7) =
         returns (gm', g') \<and>
     \<not> alive (snek gm') \<and> body (snek gm') = STARTING_BODY @ [Point 4 0] \<and> game_score gm' = 1"
proof -
  let ?gm = "(demo_game STARTING_BODY (Point 4 0) (sconst []))
    \<lparr>engine := (demo_engine (sconst []))\<lparr>keys_pressed := [KeyChar CHR ''q'']\<rparr>\<rparr>"
  have "game_over ?gm" and "next_head (snek ?gm) = food ?gm"
    and "proper_grid (width ?gm) (height ?gm)"
    and "candidate (width ?gm) (height ?gm) (sconst 7) 0 \<notin> set (body (snek ?gm) @ [food ?gm])"
    by (simp_all add: game_over_def quit_def is_key_pressed_def key_defs snek_eval next_head_def
        head_def word_sless_alt)
  from game_over_scores_the_food_ahead [OF _ this(1) _ _ _ this(2-4)] show ?thesis
    by (simp add: demo_engine_def snek_new_def game_score_def snek_score_def STARTING_BODY_def)
qed

text \<open>
  C29 (a paused game waits). A paused game with a live snake whose player
  presses no key never leaves the loop, and it does so without moving the
  snake.
\<close>

theorem paused_game_runs_forever:
  assumes "paused gm" and "body (snek gm) \<noteq> []" and "alive (snek gm)"
    and "\<not> game_over gm" and "key_events (engine gm) = sconst []"
  shows "main_loop gm g = diverges"
proof (rule ccontr)
  let ?gm = "gm\<lparr>engine := set_title (engine gm) ''SNEK''\<rparr>"
  assume "main_loop gm g \<noteq> diverges"
  then obtain r n where run: "ticks n ?gm g = Some r" and final: "final r"
    by (auto simp: main_loop_def loop_eq_Some_iff)
  from assms(4) have "\<not> sim_over (quit ?gm) (sim_of ?gm)"
    by (simp add: sim_over_def game_over_def quit_def is_key_pressed_def sim_of_def)
  with assms(1-3) have "sim_run (replicate n []) (quit ?gm) (sim_of ?gm) g =
      returns (sim_of ?gm, g)"
    by (intro sim_run_paused_idle) (simp_all add: sim_of_def)
  moreover from assms(5) have "key_events (engine ?gm) = sconst []"
    by simp
  ultimately have "sim_run (stake n (key_events (engine ?gm))) (quit ?gm) (sim_of ?gm) g =
      returns (sim_of ?gm, g)"
    by (simp only: stake_sconst)
  then obtain gm' where "ticks n ?gm g = returns (gm', g)" and "sim_of gm' = sim_of ?gm"
    by (rule ticks_of_sim_run)
  with run final assms(3) show False
    by (auto simp: sim_of_eq_iff)
qed

theorem paused_game_runs_forever_witness:
  "main_loop ((demo_game STARTING_BODY (Point 7 7) (sconst []))\<lparr>paused := True\<rparr>) (sconst 7) =
     diverges"
proof -
  let ?gm = "(demo_game STARTING_BODY (Point 7 7) (sconst []))\<lparr>paused := True\<rparr>"
  have "\<not> game_over ?gm"
    by (simp add: game_over_def quit_def is_key_pressed_def demo_game_def demo_engine_def
        dead_nonempty dim_defs snek_eval)
  from paused_game_runs_forever [OF _ _ _ this, of "sconst 7"] show ?thesis
    by (simp add: demo_game_def demo_engine_def snek_new_def STARTING_BODY_def)
qed

section \<open>What the frames show\<close>

text \<open>
  C12 (the frames of a run). For a game built by \<open>Game::new\<close> on a grid with
  dimensions below \<open>2\<^sup>3\<^sup>0 - 2\<close> and a starting body on the grid: the frames the
  loop has shown after \<open>n\<close> iterations are, one for one and in their order,
  the pictures of the games these iterations judged. Every cell of every
  frame is the pixel \<open>frame_pixel\<close> specifies: the eye on the head, the snake
  colour on the other segments, the food colour on the food and the map
  colour on the rest of the grid, the border around it with the prompt and
  the score, and the dead eye in the frame of the iteration that ends the
  game, also when the head has left the grid and is drawn in the border.
  Every iteration of a live snake shows one frame: when the snake is alive
  after the run there are \<open>n\<close> of them.
\<close>

theorem frames_show_the_game:
  assumes "game_new w h f b t g = returns (start, g0)" and "b \<noteq> []" and "distinct (butlast b)"
    and "\<forall>p \<in> set b. in_grid w h p" and "uint w < 2 ^ 30 - 2" and "uint h < 2 ^ 30 - 2"
    and "ticks n start g0 = returns (gm, g1)"
  shows "list_all2 (\<lambda>fr s. \<forall>c r. int c < 2 * uint w + 4 \<longrightarrow> int r < uint h + 2 \<longrightarrow>
        fr (c, r) = frame_pixel s (c, r)) (frames (engine gm)) (shown n start g0) \<and>
    (alive (snek gm) \<longrightarrow> length (frames (engine gm)) = n)"
proof -
  from ticks_frames [OF assms(7)] game_new_frames [OF assms(1)]
  have drawn: "list_all2 (\<lambda>fr s. \<exists>gm1. draw s = Inr gm1 \<and> fr = screen (engine gm1))
      (frames (engine gm)) (shown n start g0)"
    by simp
  then have "list_all2 (\<lambda>fr s. \<forall>c r. int c < 2 * uint w + 4 \<longrightarrow> int r < uint h + 2 \<longrightarrow>
      fr (c, r) = frame_pixel s (c, r)) (frames (engine gm)) (shown n start g0)"
  proof (rule list.rel_mono_strong)
    fix fr s
    assume "s \<in> set (shown n start g0)"
      and "\<exists>gm1. draw s = Inr gm1 \<and> fr = screen (engine gm1)"
    with shown_reachable [of s n start g0] reachable_draw_screen [OF assms(1-6)]
    show "\<forall>c r. int c < 2 * uint w + 4 \<longrightarrow> int r < uint h + 2 \<longrightarrow>
        fr (c, r) = frame_pixel s (c, r)"
      by blast
  qed
  moreover from drawn length_shown [OF assms(7)]
  have "alive (snek gm) \<longrightarrow> length (frames (engine gm)) = n"
    by (auto dest: list_all2_lengthD)
  ultimately show ?thesis ..
qed


theorem frames_show_the_game_witness:
  "\<exists>gm' fr. ticks 1 (demo_game STARTING_BODY (Point 7 7) (sconst [])) (sconst 7) =
       returns (gm', sconst 7) \<and>
     frames (engine gm') = [fr] \<and>
     fr (8, 1) = pxl_fbg CHR ''^'' Black Blue \<and> fr (9, 1) = pxl_fbg CHR ''^'' Black Blue \<and>
     fr (2, 1) = pxl_bg CHR '' '' Blue \<and> fr (16, 8) = pxl_bg CHR '' '' Red \<and>
     fr (10, 1) = pxl_bg CHR '' '' Green \<and> fr (0, 3) = pxl_bg CHR '' '' Black \<and>
     fr (17, 0) = pxl_fbg CHR ''S'' Reset Black \<and> fr (22, 16) = pxl_fbg CHR ''0'' Reset Black"
proof -
  let ?gm = "demo_game STARTING_BODY (Point 7 7) (sconst [])"
  obtain gm' where tick: "tick ?gm (sconst 7) = returns (gm', sconst 7)"
    by (rule tick_demo)
  have alive: "alive (snek ?gm)"
    by (simp add: snek_new_def)
  with tick have run: "ticks 1 ?gm (sconst 7) = returns (gm', sconst 7)"
    by simp
  have "\<not> game_over ?gm"
    by (simp add: game_over_def dead_nonempty head_def snek_new_def STARTING_BODY_def
        word_sless_alt)
  then have "judged ?gm = ?gm"
    by (simp add: judged_def snek_new_def demo_game_def)
  with alive tick have shown: "shown 1 ?gm (sconst 7) = [?gm]"
    by simp
  have start: "STARTING_BODY \<noteq> []" "distinct (butlast STARTING_BODY)"
    "\<forall>p \<in> set STARTING_BODY. in_grid WIDTH HEIGHT p"
    "uint WIDTH < 2 ^ 30 - 2" "uint HEIGHT < 2 ^ 30 - 2"
    by (simp_all add: STARTING_BODY_def in_grid_def dim_defs)
  from frames_show_the_game [OF game_new_demo start run]
  obtain fr where fr: "frames (engine gm') = [fr]"
    and cells: "\<And>c r. int c < 38 \<Longrightarrow> int r < 17 \<Longrightarrow> fr (c, r) = frame_pixel ?gm (c, r)"
    unfolding shown by (auto simp: dim_defs list_all2_Cons2)
  from cells [of 8 1] cells [of 9 1] cells [of 2 1] cells [of 16 8] cells [of 10 1]
    cells [of 0 3] cells [of 17 0] cells [of 22 16] run fr
  show ?thesis
    by (simp add: frame_pixel_demo del: One_nat_def ticks.simps)
qed

section \<open>Build profiles\<close>

text \<open>
  C11 (the program does not depend on the build profile). The program
  compiled with overflow checks and the program compiled without them have
  the same outcome on every terminal and for every generator: the same line
  printed, the same panic, or both run for ever. On the grid of 17 by 15
  cells no addition, subtraction or multiplication of the program leaves the
  range of its type.
\<close>

theorem main_profile_independent: "main_in p t g = main t g"
proof -
  have new: "game_new_in p WIDTH HEIGHT FPS STARTING_BODY t g =
      game_new WIDTH HEIGHT FPS STARTING_BODY t g"
    by (rule game_new_in_eq) (simp_all add: dim_defs)
  have "run_then (main_loop_in p gm g1) (\<lambda>(gm', g2).
        run_then (Some (game_score_in p gm')) (\<lambda>score.
        returns (END_MESSAGE @ to_string (unat score)))) =
      run_then (main_loop gm g1) (\<lambda>(gm', g2).
        returns (END_MESSAGE @ to_string (unat (game_score gm'))))"
    if "game_new WIDTH HEIGHT FPS STARTING_BODY t g = returns (gm, g1)" for gm g1
  proof -
    note sel = game_new_sel [OF that]
    have "STARTING_BODY \<noteq> []" "distinct (butlast STARTING_BODY)"
      "\<forall>p \<in> set (butlast STARTING_BODY). in_grid WIDTH HEIGHT p"
      by (simp_all add: STARTING_BODY_def in_grid_def dim_defs)
    note inv = game_inv_new [OF that this]
    from that have fits: "fits gm"
      by (cases WIDTH HEIGHT FPS STARTING_BODY t g rule: game_new_cases)
        (auto simp: fits_def screen_for_def init_eq_Some_iff dim_defs)
    from sel have "alive (snek gm)" "in_frame (width gm) (height gm) (head (snek gm))"
      "Suc (Suc (unat (width gm) * unat (height gm))) < 10 ^ (2 * unat (width gm) - 2)"
      by (simp_all add: snek_new_def head_def STARTING_BODY_def in_frame_def dim_defs)
    note eq = main_loop_in_eq [OF inv this(1) fits this(2,3), where p = p and g = g1]
    show ?thesis
      unfolding eq(1) by (rule run_then_cong_returns) (auto simp: eq(2))
  qed
  then show ?thesis
    unfolding main_in_def main_def new
    by (auto intro!: run_then_cong_returns)
qed

text \<open>
  C23 (no overflow in a reachable state). For a game built by \<open>game_new\<close> on a
  grid with dimensions below \<open>2\<^sup>3\<^sup>0 - 2\<close> whose number of cells, and two more,
  has at most \<open>2 * width - 2\<close> digits, with a starting body on the grid,
  \<open>Game::new\<close> compiled with overflow checks returns the same game, and every
  iteration of a live snake from a state the loop reaches has the same
  outcome with and without overflow checks.
\<close>

theorem debug_checks_never_fire:
  assumes "game_new w h f b t g = returns start" and "b \<noteq> []" and "distinct (butlast b)"
    and "\<forall>p \<in> set b. in_grid w h p" and "uint w < 2 ^ 30 - 2" and "uint h < 2 ^ 30 - 2"
    and "Suc (Suc (unat w * unat h)) < 10 ^ (2 * unat w - 2)"
    and "reachable_from start (gm, g1)" and "alive (snek gm)"
  shows "game_new_in Debug w h f b t g = returns start \<and> tick_in Debug gm g1 = tick gm g1"
proof -
  note state = reachable_new_frame [OF assms(1-6,8,9)]
  from state(3) have "body (snek gm) \<noteq> []"
    by (simp add: game_inv_def snek_inv_def)
  with state(2) have "in_frame (width gm) (height gm) (head (snek gm))"
    by (simp add: head_def state(4,5))
  from state(3) assms(9) state(1) this have "overflow_free gm"
    by (rule game_inv_overflow_free) (simp add: state(4,5) assms(7))
  then have "tick_in Debug gm g1 = tick gm g1"
    by (rule tick_in_eq)
  with game_new_in_eq [OF assms(5,6), of Debug f b t g] assms(1) show ?thesis
    by simp
qed

theorem debug_checks_never_fire_witness:
  "tick_in Debug (demo_game STARTING_BODY (Point 7 7) (sconst [])) (sconst 7) =
     tick (demo_game STARTING_BODY (Point 7 7) (sconst [])) (sconst 7)"
  using debug_checks_never_fire [OF game_new_demo _ _ _ _ _ _ reachable_from.initial,
      of "sconst []"]
  by (simp add: STARTING_BODY_def in_grid_def dim_defs snek_new_def)

section \<open>The printed score\<close>

text \<open>
  A run of the program from \<open>main\<close>: the food is at \<open>(5, 0)\<close>, two cells ahead of
  the head, and the player presses the quit key in the first frame. The
  second iteration sees the key and ends the game, and then moves the snake
  onto the food: the program prints the end message with score \<open>1\<close>.
\<close>

lemma quit_scores_after_the_end:
  "main (demo_terminal ([KeyChar CHR ''q''] ## sconst [])) (5 ## 0 ## sconst 7) =
     returns (END_MESSAGE @ ''1'')"
proof -
  let ?gm = "demo_game STARTING_BODY (Point 5 0) ([KeyChar CHR ''q''] ## sconst [])"
  let ?m = "(demo_sim STARTING_BODY (Point 7 7))\<lparr>sim_snek := (snek_new STARTING_BODY)
    \<lparr>body := [Point 1 0, Point 2 0, Point 3 0, Point 4 0, Point 5 0], alive := False\<rparr>\<rparr>"
  have new: "game_new WIDTH HEIGHT FPS STARTING_BODY
      (demo_terminal ([KeyChar CHR ''q''] ## sconst [])) (5 ## 0 ## sconst 7) =
    returns (?gm, sconst 7)"
    by (simp add: game_new_def demo_game_def demo_engine_def demo_terminal_def init_def snek_eval)
  have "sim_run (stake (Suc (Suc 0)) (key_events (engine ?gm))) (quit ?gm)
      (sim_of ?gm) (sconst 7) = returns (?m, sconst 7)"
    by (simp add: sim_eval snek_eval)
  moreover have "\<not> alive (sim_snek ?m)"
    by simp
  ultimately obtain gm' where "main_loop ?gm (sconst 7) = returns (gm', sconst 7)"
    and "sim_of gm' = ?m"
    by (rule main_loop_of_sim_run)
  then have "main_loop ?gm (sconst 7) = returns (gm', sconst 7)" and "game_score gm' = 1"
    by (simp_all add: sim_of_eq_iff game_score_def snek_score_def snek_new_def STARTING_BODY_def)
  then show ?thesis
    by (simp add: main_def new to_string_eval)
qed

text \<open>
  C39 (what the program prints). Whenever \<open>main\<close> returns, \<open>Game::new\<close> and the
  loop have returned, the snake of the final game is not alive, and the line
  printed is the end message followed by the decimal numeral of the number of
  segments the body has gained over the four of the starting body. The
  \<^verbatim>\<open>usize\<close> subtraction of the score has not wrapped: the final body has at
  least four and at most 257 segments, one more than a live snake can have on
  the grid of 255 cells, because the loop moves the snake once after the end.
\<close>

theorem main_prints_the_score:
  assumes "main t g = returns line"
  shows "\<exists>start g0 gm g1.
    game_new WIDTH HEIGHT FPS STARTING_BODY t g = returns (start, g0) \<and>
    main_loop start g0 = returns (gm, g1) \<and> \<not> alive (snek gm) \<and>
    4 \<le> length (body (snek gm)) \<and> length (body (snek gm)) \<le> 257 \<and>
    line = END_MESSAGE @ to_string (length (body (snek gm)) - 4)"
proof -
  from assms obtain start g0 gm g1
    where new: "game_new WIDTH HEIGHT FPS STARTING_BODY t g = returns (start, g0)"
      and run: "main_loop start g0 = returns (gm, g1)"
      and line: "line = END_MESSAGE @ to_string (unat (game_score gm))"
    by (auto simp: main_def run_then_eq_returns_iff)
  let ?start = "start\<lparr>engine := set_title (engine start) ''SNEK''\<rparr>"
  from run obtain n where ticks: "ticks n ?start g0 = returns (gm, g1)" and dead: "\<not> alive (snek gm)"
    by (auto simp: main_loop_def loop_eq_Some_iff)
  from game_inv_new [OF new] game_new_sel [OF new]
  have start: "game_inv ?start" "snek ?start = snek_new STARTING_BODY"
    "width ?start = WIDTH" "height ?start = HEIGHT"
    by (simp_all add: game_inv_def STARTING_BODY_def in_grid_def dim_defs)
  from ticks_reachable [OF ticks] dead start(2) obtain gm0 g'
    where reach: "reachable_from (?start, g0) (gm0, g')" and alive: "alive (snek gm0)"
      and tick: "tick gm0 g' = returns (gm, g1)"
    by (cases rule: reachable_from.cases) (auto simp: snek_new_def)
  from reachable_from_game_inv [OF reach] start(1) have inv: "game_inv gm0"
    by simp
  from reachable_from_frame [OF reach] start(2-4) tick_frame(3) [OF tick]
  have frame: "width gm0 = 17" "height gm0 = 15" "start_len (snek gm) = 4"
    by (simp_all add: snek_new_def STARTING_BODY_def dim_defs)
  from inv frame(3) tick_frame(3) [OF tick] have "4 \<le> length (body (snek gm0))"
    by (simp add: game_inv_def snek_inv_def)
  moreover from game_inv_length [OF inv alive] frame(1,2) have "length (body (snek gm0)) \<le> 256"
    by simp
  ultimately have len: "4 \<le> length (body (snek gm))" "length (body (snek gm)) \<le> 257"
    using tick_length [OF tick] by simp_all
  with frame(3) have "unat (game_score gm) = length (body (snek gm)) - 4"
    by (simp add: game_score_def unat_snek_score)
  with new run dead len line show ?thesis
    by auto
qed

theorem main_prints_the_score_witness:
  "\<exists>start g0 gm g1.
    game_new WIDTH HEIGHT FPS STARTING_BODY (demo_terminal ([KeyChar CHR ''q''] ## sconst []))
      (5 ## 0 ## sconst 7) = returns (start, g0) \<and>
    main_loop start g0 = returns (gm, g1) \<and> \<not> alive (snek gm) \<and>
    4 \<le> length (body (snek gm)) \<and> length (body (snek gm)) \<le> 257 \<and>
    END_MESSAGE @ ''1'' = END_MESSAGE @ to_string (length (body (snek gm)) - 4)"
  using main_prints_the_score [OF quit_scores_after_the_end] .

end
